theory Spec2Isabelle
  imports Complex_Main
begin

section \<open>Neon Divide: grid simulation and capture algorithm\<close>

text \<open>
  A shallow embedding of the game canvas component (the grid-based one, with the
  dual flood fill). Numbers of the source are JavaScript numbers; every position and
  speed the component ever stores is an integer (the start positions are literals or
  floored random values, every increment is \<open>\<plusminus>1\<close>), so they are modelled as
  \<open>int\<close> and \<open>Math.floor\<close> on them is the identity. Rendering, particles and the
  enemy's \<open>rotation\<close> field do not influence the simulation and are left out.
\<close>

subsection \<open>Constants\<close>

abbreviation GRID_WIDTH :: int where "GRID_WIDTH \<equiv> 84"
abbreviation GRID_HEIGHT :: int where "GRID_HEIGHT \<equiv> 48"
abbreviation WIN_PERCENTAGE :: int where "WIN_PERCENTAGE \<equiv> 75"
abbreviation PLAYER_SPEED :: int where "PLAYER_SPEED \<equiv> 1"
abbreviation ENEMY_SPEED :: int where "ENEMY_SPEED \<equiv> 1"
abbreviation PLAY_AREA_LEFT :: int where "PLAY_AREA_LEFT \<equiv> 13"
abbreviation PLAY_AREA_TOP :: int where "PLAY_AREA_TOP \<equiv> 1"
abbreviation PLAY_AREA_RIGHT :: int where "PLAY_AREA_RIGHT \<equiv> 83"
abbreviation PLAY_AREA_BOTTOM :: int where "PLAY_AREA_BOTTOM \<equiv> 47"
abbreviation CELL_EMPTY :: int where "CELL_EMPTY \<equiv> 0"
abbreviation CELL_WALL :: int where "CELL_WALL \<equiv> 1"
abbreviation CELL_TRAIL :: int where "CELL_TRAIL \<equiv> 2"

subsection \<open>The grid: a flat array of cell values\<close>

text \<open>
  \<open>grid[idx]\<close> of the source is an unchecked array read: outside \<open>0 .. length - 1\<close>
  it yields \<open>undefined\<close>, which is \<open>None\<close> here. A comparison
  \<open>grid[idx] === CELL_WALL\<close> becomes \<open>cellAt grid idx = Some CELL_WALL\<close>.
\<close>

type_synonym grid = "int list"

definition cellAt :: "grid \<Rightarrow> int \<Rightarrow> int option" where
  "cellAt grid idx =
     (if 0 \<le> idx \<and> idx < int (length grid) then Some (grid ! nat idx) else None)"

text \<open>
  \<open>grid[idx] = v\<close>. Every write of the source lands inside an array of
  \<open>GRID_WIDTH * GRID_HEIGHT\<close> cells (the index is clamped or bounds-checked just
  before); on such a grid the model is exact. A write outside the list, which the
  source never performs on a grid of that size, leaves the list as it is.
\<close>

definition setCell :: "grid \<Rightarrow> int \<Rightarrow> int \<Rightarrow> grid" where
  "setCell grid idx v =
     (if 0 \<le> idx \<and> idx < int (length grid) then grid[nat idx := v] else grid)"

definition createInitialGrid :: grid where
  "createInitialGrid =
     (let grid0 = replicate (nat (GRID_WIDTH * GRID_HEIGHT)) CELL_EMPTY;
          grid1 = foldl (\<lambda>grid x. setCell grid (x + 0 * GRID_WIDTH) CELL_WALL) grid0
                    [PLAY_AREA_LEFT - 1 .. PLAY_AREA_RIGHT];
          grid2 = foldl (\<lambda>grid x. setCell grid (x + PLAY_AREA_BOTTOM * GRID_WIDTH) CELL_WALL) grid1
                    [PLAY_AREA_LEFT - 1 .. PLAY_AREA_RIGHT];
          grid3 = foldl (\<lambda>grid y. setCell grid ((PLAY_AREA_LEFT - 1) + y * GRID_WIDTH) CELL_WALL) grid2
                    [0 .. PLAY_AREA_BOTTOM];
          grid4 = foldl (\<lambda>grid y. setCell grid (PLAY_AREA_RIGHT + y * GRID_WIDTH) CELL_WALL) grid3
                    [0 .. PLAY_AREA_BOTTOM]
      in grid4)"

definition isInPlayArea :: "int \<Rightarrow> int \<Rightarrow> bool" where
  "isInPlayArea x y \<longleftrightarrow>
     x \<ge> PLAY_AREA_LEFT \<and> x < PLAY_AREA_RIGHT \<and> y \<ge> PLAY_AREA_TOP \<and> y < PLAY_AREA_BOTTOM"

definition isOnWall :: "int \<Rightarrow> int \<Rightarrow> grid \<Rightarrow> bool" where
  "isOnWall x y grid =
     (if x < 0 \<or> x \<ge> GRID_WIDTH \<or> y < 0 \<or> y \<ge> GRID_HEIGHT then True
      else cellAt grid (x + y * GRID_WIDTH) = Some CELL_WALL)"

definition inGrid :: "int \<Rightarrow> int \<Rightarrow> bool" where
  "inGrid x y \<longleftrightarrow> x \<ge> 0 \<and> x < GRID_WIDTH \<and> y \<ge> 0 \<and> y < GRID_HEIGHT"

definition isAdjacentToVoid :: "int \<Rightarrow> int \<Rightarrow> grid \<Rightarrow> bool" where
  "isAdjacentToVoid x y grid =
     list_ex (\<lambda>(nx, ny). inGrid nx ny \<and> cellAt grid (nx + ny * GRID_WIDTH) = Some CELL_EMPTY)
       [(x + 1, y), (x - 1, y), (x, y + 1), (x, y - 1)]"

subsection \<open>Flood fill\<close>

text \<open>
  The explicit stack of the source is a list whose head is the top (the last element of
  the JavaScript array); the visited set of string keys \<open>"cx,cy"\<close> is a list of
  coordinate pairs. The function returns the enemy count together with the grid it
  has labelled (the source mutates the array it is given).
\<close>

definition nearEnemies :: "(int \<times> int) list \<Rightarrow> int \<Rightarrow> int \<Rightarrow> int" where
  "nearEnemies enemyPositions cx cy =
     int (length (filter (\<lambda>(ex, ey). \<bar>ex - cx\<bar> \<le> 1 \<and> \<bar>ey - cy\<bar> \<le> 1) enemyPositions))"

definition pushNeighbours :: "grid \<Rightarrow> int \<Rightarrow> int \<Rightarrow> (int \<times> int) list \<Rightarrow> (int \<times> int) list" where
  "pushNeighbours grid cx cy stack =
     (let s1 = (if cellAt grid ((cx - 1) + cy * GRID_WIDTH) = Some CELL_EMPTY
                then (cx - 1, cy) # stack else stack);
          s2 = (if cellAt grid ((cx + 1) + cy * GRID_WIDTH) = Some CELL_EMPTY
                then (cx + 1, cy) # s1 else s1);
          s3 = (if cellAt grid (cx + (cy - 1) * GRID_WIDTH) = Some CELL_EMPTY
                then (cx, cy - 1) # s2 else s2);
          s4 = (if cellAt grid (cx + (cy + 1) * GRID_WIDTH) = Some CELL_EMPTY
                then (cx, cy + 1) # s3 else s3)
      in s4)"

definition playArea :: "(int \<times> int) set" where
  "playArea = {PLAY_AREA_LEFT ..< PLAY_AREA_RIGHT} \<times> {PLAY_AREA_TOP ..< PLAY_AREA_BOTTOM}"

function floodLoop ::
  "int \<Rightarrow> (int \<times> int) list \<Rightarrow> (int \<times> int) list \<Rightarrow> (int \<times> int) list \<Rightarrow> grid \<Rightarrow> int
     \<Rightarrow> int \<times> grid" where
  "floodLoop fillValue enemyPositions [] visited grid enemyCount = (enemyCount, grid)"
| "floodLoop fillValue enemyPositions ((cx, cy) # stack) visited grid enemyCount =
     (if (cx, cy) \<in> set visited
      then floodLoop fillValue enemyPositions stack visited grid enemyCount
      else if cx < PLAY_AREA_LEFT \<or> cx \<ge> PLAY_AREA_RIGHT \<or>
              cy < PLAY_AREA_TOP \<or> cy \<ge> PLAY_AREA_BOTTOM
      then floodLoop fillValue enemyPositions stack ((cx, cy) # visited) grid enemyCount
      else if cellAt grid (cx + cy * GRID_WIDTH) \<noteq> Some CELL_EMPTY
      then floodLoop fillValue enemyPositions stack ((cx, cy) # visited) grid enemyCount
      else floodLoop fillValue enemyPositions
             (pushNeighbours (setCell grid (cx + cy * GRID_WIDTH) fillValue) cx cy stack)
             ((cx, cy) # visited)
             (setCell grid (cx + cy * GRID_WIDTH) fillValue)
             (enemyCount + nearEnemies enemyPositions cx cy))"
  by pat_completeness auto
termination
proof (relation "measures [\<lambda>(fv, es, stack, visited, grid, n). card (playArea - set visited),
                           \<lambda>(fv, es, stack, visited, grid, n). length stack]", goal_cases)
  case 1
  show ?case by simp
next
  case (2 fv es cx cy stack visited grid n)
  then show ?case by simp
next
  case (3 fv es cx cy stack visited grid n)
  then have "(cx, cy) \<notin> playArea" by (auto simp: playArea_def)
  then have "playArea - set ((cx, cy) # visited) = playArea - set visited" by auto
  then show ?case by simp
next
  case (4 fv es cx cy stack visited grid n)
  then have "(cx, cy) \<in> playArea - set visited" by (auto simp: playArea_def)
  moreover have "finite (playArea - set visited)" by (simp add: playArea_def)
  ultimately have "card (playArea - set ((cx, cy) # visited)) < card (playArea - set visited)"
    by (metis Diff_insert card_Diff1_less list.simps(15))
  then show ?case by simp
next
  case (5 fv es cx cy stack visited grid n)
  then have "(cx, cy) \<in> playArea - set visited" by (auto simp: playArea_def)
  moreover have "finite (playArea - set visited)" by (simp add: playArea_def)
  ultimately have "card (playArea - set ((cx, cy) # visited)) < card (playArea - set visited)"
    by (metis Diff_insert card_Diff1_less list.simps(15))
  then show ?case by simp
qed

definition floodFill ::
  "int \<Rightarrow> int \<Rightarrow> int \<Rightarrow> grid \<Rightarrow> (int \<times> int) list \<Rightarrow> int \<times> grid" where
  "floodFill startX startY fillValue grid enemyPositions =
     floodLoop fillValue enemyPositions [(startX, startY)] [] grid 0"


subsection \<open>Percentage of the play area captured\<close>

definition capturedCount :: "grid \<Rightarrow> int" where
  "capturedCount grid =
     foldl (\<lambda>count y.
        foldl (\<lambda>count x. if cellAt grid (x + y * GRID_WIDTH) = Some CELL_WALL
                           then count + 1 else count)
          count [PLAY_AREA_LEFT .. PLAY_AREA_RIGHT - 1])
       0 [PLAY_AREA_TOP .. PLAY_AREA_BOTTOM - 1]"

text \<open>
  \<open>Math.floor((capturedCount / totalArea) * 100)\<close>, over the reals. (In IEEE double
  arithmetic the quotient and the product are rounded; for \<open>totalArea = 3220\<close> and
  every count from 0 to 3220 the rounded result has the same floor as the exact one.)
\<close>

definition calculatePercentage :: "grid \<Rightarrow> int" where
  "calculatePercentage grid =
     (let totalArea = (PLAY_AREA_RIGHT - PLAY_AREA_LEFT) * (PLAY_AREA_BOTTOM - PLAY_AREA_TOP)
      in \<lfloor>(real_of_int (capturedCount grid) / real_of_int totalArea) * 100\<rfloor>)"

subsection \<open>Component state\<close>

text \<open>
  The fields \<open>x\<close>, \<open>y\<close> of \<open>Position\<close> and \<open>x\<close>, \<open>y\<close>, \<open>vx\<close>, \<open>vy\<close> of
  \<open>Enemy\<close> carry a prefix here. \<open>World\<close> collects the refs of the component
  (\<open>gridRef\<close>, \<open>playerPos\<close>, \<open>playerSpeed\<close>, \<open>playerState\<close>, \<open>enemies\<close>,
  \<open>tickCount\<close>) and its React state \<open>gameState\<close>; a state update takes effect at
  once.
\<close>

record Position =
  pos_x :: int
  pos_y :: int

record Enemy =
  enemy_x :: int
  enemy_y :: int
  enemy_vx :: int
  enemy_vy :: int

datatype PlayerState = onWall | onStage

datatype GameStatus = playing | dead | levelComplete | paused | levelAnnounce

record GameState =
  status :: GameStatus
  score :: int
  percentage :: int
  level :: int
  lives :: int

record World =
  gridRef :: grid
  playerPos :: Position
  playerSpeed :: Position
  playerState :: PlayerState
  enemies :: "Enemy list"
  gameState :: GameState
  tickCount :: int

text \<open>
  The random draws of one enemy placement: \<open>draw_x\<close> is
  \<open>Math.floor(Math.random() * (PLAY_AREA_RIGHT - PLAY_AREA_LEFT - 20))\<close>, \<open>draw_y\<close> is
  \<open>Math.floor(Math.random() * (PLAY_AREA_BOTTOM - PLAY_AREA_TOP - 10))\<close>, and
  \<open>draw_vx\<close>, \<open>draw_vy\<close> are the two tests \<open>Math.random() > 0.5\<close>. A reset is given
  the draws of the enemies by their position in the roster.
\<close>

record Draw =
  draw_x :: int
  draw_y :: int
  draw_vx :: bool
  draw_vy :: bool

definition drawInRange :: "Draw \<Rightarrow> bool" where
  "drawInRange d \<longleftrightarrow>
     0 \<le> draw_x d \<and> draw_x d < PLAY_AREA_RIGHT - PLAY_AREA_LEFT - 20 \<and>
     0 \<le> draw_y d \<and> draw_y d < PLAY_AREA_BOTTOM - PLAY_AREA_TOP - 10"

definition placeEnemy :: "Draw \<Rightarrow> Enemy \<Rightarrow> Enemy" where
  "placeEnemy d enemy =
     enemy\<lparr>enemy_x := PLAY_AREA_LEFT + 10 + draw_x d,
           enemy_y := PLAY_AREA_TOP + 5 + draw_y d,
           enemy_vx := (if draw_vx d then ENEMY_SPEED else - ENEMY_SPEED),
           enemy_vy := (if draw_vy d then ENEMY_SPEED else - ENEMY_SPEED)\<rparr>"

definition resetEnemies :: "(nat \<Rightarrow> Draw) \<Rightarrow> Enemy list \<Rightarrow> Enemy list" where
  "resetEnemies rnd es = map (\<lambda>(i, enemy). placeEnemy (rnd i) enemy) (enumerate 0 es)"

definition handlePlayerDeath :: "(nat \<Rightarrow> Draw) \<Rightarrow> World \<Rightarrow> World" where
  "handlePlayerDeath rnd w =
     (let prev = gameState w;
          newLives = lives prev - 1
      in if newLives < 0 then w\<lparr>gameState := prev\<lparr>status := dead\<rparr>\<rparr>
         else w\<lparr>gridRef := createInitialGrid,
                playerPos := \<lparr>pos_x = 48, pos_y = PLAY_AREA_BOTTOM\<rparr>,
                playerSpeed := \<lparr>pos_x = 0, pos_y = 0\<rparr>,
                playerState := onWall,
                enemies := resetEnemies rnd (enemies w),
                gameState := prev\<lparr>lives := newLives, percentage := 0, status := playing\<rparr>\<rparr>)"

definition resetStage :: "(nat \<Rightarrow> Draw) \<Rightarrow> World \<Rightarrow> World" where
  "resetStage rnd w =
     w\<lparr>gridRef := createInitialGrid,
       playerPos := \<lparr>pos_x = 48, pos_y = PLAY_AREA_BOTTOM\<rparr>,
       playerSpeed := \<lparr>pos_x = 0, pos_y = 0\<rparr>,
       playerState := onWall,
       enemies := resetEnemies rnd (enemies w),
       gameState := (gameState w)\<lparr>status := playing, percentage := 0\<rparr>\<rparr>"

text \<open>
  \<open>advanceLevel\<close> has a synchronous part (the announcement) and a part that a timer
  runs two seconds later; \<open>advanceLevelTimeout\<close> is the timer's callback. The enemy it
  appends is placed by \<open>fresh\<close> and then placed again, with the others, by \<open>rnd\<close>.
\<close>

definition advanceLevel :: "World \<Rightarrow> World" where
  "advanceLevel w =
     w\<lparr>gameState := (gameState w)\<lparr>status := levelAnnounce,
                                  level := level (gameState w) + 1,
                                  score := score (gameState w) + 1000\<rparr>\<rparr>"

definition advanceLevelTimeout :: "Draw \<Rightarrow> (nat \<Rightarrow> Draw) \<Rightarrow> World \<Rightarrow> World" where
  "advanceLevelTimeout fresh rnd w =
     w\<lparr>gridRef := createInitialGrid,
       playerPos := \<lparr>pos_x = 48, pos_y = PLAY_AREA_BOTTOM\<rparr>,
       playerSpeed := \<lparr>pos_x = 0, pos_y = 0\<rparr>,
       playerState := onWall,
       enemies := resetEnemies rnd
          (enemies w @ [placeEnemy fresh \<lparr>enemy_x = 0, enemy_y = 0, enemy_vx = 0, enemy_vy = 0\<rparr>]),
       gameState := (gameState w)\<lparr>status := playing, percentage := 0\<rparr>\<rparr>"


subsection \<open>The game loop: input and enemies\<close>

text \<open>
  \<open>pressedKeys\<close> maps a key code to whether the key is down (a missing entry of the
  source's object is falsy). The four tests run in the source's order, so a later one
  overrides an earlier one.
\<close>

definition processInput :: "(int \<Rightarrow> bool) \<Rightarrow> World \<Rightarrow> World" where
  "processInput pressedKeys w =
     (let w1 = (if (pressedKeys 37 \<or> pressedKeys 65) \<and> playerState w = onWall
                then w\<lparr>playerSpeed := \<lparr>pos_x = - PLAYER_SPEED, pos_y = 0\<rparr>\<rparr> else w);
          w2 = (if (pressedKeys 39 \<or> pressedKeys 68) \<and> playerState w1 = onWall
                then w1\<lparr>playerSpeed := \<lparr>pos_x = PLAYER_SPEED, pos_y = 0\<rparr>\<rparr> else w1);
          w3 = (if (pressedKeys 38 \<or> pressedKeys 87) \<and> playerState w2 = onWall
                then w2\<lparr>playerSpeed := \<lparr>pos_x = 0, pos_y = - PLAYER_SPEED\<rparr>\<rparr> else w2);
          w4 = (if (pressedKeys 40 \<or> pressedKeys 83) \<and> playerState w3 = onWall
                then w3\<lparr>playerSpeed := \<lparr>pos_x = 0, pos_y = PLAYER_SPEED\<rparr>\<rparr> else w3)
      in w4)"

text \<open>
  The motion of one enemy, in the order of the source: the two bounce tests on the cell
  next to the enemy's cell in each axis, the move, and the four clamps to the play
  area.
\<close>

definition bounceEnemy :: "grid \<Rightarrow> Enemy \<Rightarrow> Enemy" where
  "bounceEnemy grid enemy =
     (let ex = enemy_x enemy;
          ey = enemy_y enemy;
          nextX = ex + enemy_vx enemy;
          vx' = (if cellAt grid (nextX + ey * GRID_WIDTH) = Some CELL_WALL
                 then - enemy_vx enemy else enemy_vx enemy);
          nextY = ey + enemy_vy enemy;
          vy' = (if cellAt grid (ex + nextY * GRID_WIDTH) = Some CELL_WALL
                 then - enemy_vy enemy else enemy_vy enemy)
      in enemy\<lparr>enemy_vx := vx', enemy_vy := vy'\<rparr>)"

definition advanceEnemy :: "Enemy \<Rightarrow> Enemy" where
  "advanceEnemy enemy =
     enemy\<lparr>enemy_x := enemy_x enemy + enemy_vx enemy, enemy_y := enemy_y enemy + enemy_vy enemy\<rparr>"

definition clampEnemyLeft :: "Enemy \<Rightarrow> Enemy" where
  "clampEnemyLeft enemy =
     (if enemy_x enemy < PLAY_AREA_LEFT
      then enemy\<lparr>enemy_x := PLAY_AREA_LEFT, enemy_vx := \<bar>enemy_vx enemy\<bar>\<rparr> else enemy)"

definition clampEnemyRight :: "Enemy \<Rightarrow> Enemy" where
  "clampEnemyRight enemy =
     (if enemy_x enemy \<ge> PLAY_AREA_RIGHT - 1
      then enemy\<lparr>enemy_x := PLAY_AREA_RIGHT - 2, enemy_vx := - \<bar>enemy_vx enemy\<bar>\<rparr> else enemy)"

definition clampEnemyTop :: "Enemy \<Rightarrow> Enemy" where
  "clampEnemyTop enemy =
     (if enemy_y enemy < PLAY_AREA_TOP
      then enemy\<lparr>enemy_y := PLAY_AREA_TOP, enemy_vy := \<bar>enemy_vy enemy\<bar>\<rparr> else enemy)"

definition clampEnemyBottom :: "Enemy \<Rightarrow> Enemy" where
  "clampEnemyBottom enemy =
     (if enemy_y enemy \<ge> PLAY_AREA_BOTTOM - 1
      then enemy\<lparr>enemy_y := PLAY_AREA_BOTTOM - 2, enemy_vy := - \<bar>enemy_vy enemy\<bar>\<rparr> else enemy)"

definition moveEnemy :: "grid \<Rightarrow> Enemy \<Rightarrow> Enemy" where
  "moveEnemy grid enemy =
     clampEnemyBottom (clampEnemyTop (clampEnemyRight (clampEnemyLeft
       (advanceEnemy (bounceEnemy grid enemy)))))"

definition enemyOnTrail :: "grid \<Rightarrow> Enemy \<Rightarrow> bool" where
  "enemyOnTrail grid enemy \<longleftrightarrow>
     cellAt grid (enemy_x enemy + enemy_y enemy * GRID_WIDTH) = Some CELL_TRAIL"

text \<open>
  The enemy loop. The flag tells that the loop called \<open>handlePlayerDeath\<close> and
  returned; the enemies before the one on the trail have moved by then, the others
  have not.
\<close>

fun updateEnemies :: "grid \<Rightarrow> Enemy list \<Rightarrow> bool \<times> Enemy list" where
  "updateEnemies grid [] = (False, [])"
| "updateEnemies grid (enemy # rest) =
     (if enemyOnTrail grid enemy then (True, enemy # rest)
      else (case updateEnemies grid rest of
              (died, rest') \<Rightarrow> (died, moveEnemy grid enemy # rest')))"

subsection \<open>The game loop: player motion\<close>

definition playerNextCell :: "World \<Rightarrow> int option" where
  "playerNextCell w =
     (let nextPx = pos_x (playerPos w) + pos_x (playerSpeed w);
          nextPy = pos_y (playerPos w) + pos_y (playerSpeed w)
      in cellAt (gridRef w) (nextPx + nextPy * GRID_WIDTH))"

definition wallHitDetection :: "World \<Rightarrow> World" where
  "wallHitDetection w =
     (let nextPx = pos_x (playerPos w) + pos_x (playerSpeed w);
          nextPy = pos_y (playerPos w) + pos_y (playerSpeed w);
          nextCell = playerNextCell w
      in if playerState w = onWall
         then (if nextPx < PLAY_AREA_LEFT - 1 \<or> nextPx > PLAY_AREA_RIGHT \<or>
                  nextPy < 0 \<or> nextPy > PLAY_AREA_BOTTOM
               then w\<lparr>playerSpeed := \<lparr>pos_x = 0, pos_y = 0\<rparr>\<rparr>
               else if nextCell = Some CELL_WALL
               then (if \<not> isAdjacentToVoid nextPx nextPy (gridRef w)
                     then w\<lparr>playerSpeed := \<lparr>pos_x = 0, pos_y = 0\<rparr>\<rparr> else w)
               else w)
         else (if nextCell = Some CELL_WALL
               then w\<lparr>playerSpeed := \<lparr>pos_x = 0, pos_y = 0\<rparr>\<rparr> else w))"

definition movePlayer :: "World \<Rightarrow> World" where
  "movePlayer w =
     w\<lparr>playerPos :=
         \<lparr>pos_x = max (PLAY_AREA_LEFT - 1)
                    (min PLAY_AREA_RIGHT (pos_x (playerPos w) + pos_x (playerSpeed w))),
          pos_y = max 0 (min PLAY_AREA_BOTTOM (pos_y (playerPos w) + pos_y (playerSpeed w)))\<rparr>\<rparr>"

definition wallDetected :: "grid \<Rightarrow> int \<Rightarrow> int \<Rightarrow> bool" where
  "wallDetected grid currentPx currentPy =
     list_ex (\<lambda>(dx, dy). inGrid (currentPx + dx) (currentPy + dy) \<and>
                cellAt grid ((currentPx + dx) + (currentPy + dy) * GRID_WIDTH) = Some CELL_WALL)
       [(-1, -1), (0, -1), (1, -1), (-1, 0), (0, 0), (1, 0), (-1, 1), (0, 1), (1, 1)]"

text \<open>Marking the cell the player came from, when it is inside the grid.\<close>

definition markPrev :: "grid \<Rightarrow> Position \<Rightarrow> Position \<Rightarrow> grid" where
  "markPrev grid pos speed =
     (let prevX = pos_x pos - pos_x speed;
          prevY = pos_y pos - pos_y speed
      in if inGrid prevX prevY then setCell grid (prevX + prevY * GRID_WIDTH) CELL_TRAIL
         else grid)"

subsection \<open>Capture\<close>

definition seedA :: "Position \<Rightarrow> int \<Rightarrow> int \<Rightarrow> int \<times> int" where
  "seedA speed currentPx currentPy =
     (if pos_x speed \<noteq> 0 then (currentPx, currentPy - 1) else (currentPx - 1, currentPy))"

definition seedB :: "Position \<Rightarrow> int \<Rightarrow> int \<Rightarrow> int \<times> int" where
  "seedB speed currentPx currentPy =
     (if pos_x speed \<noteq> 0 then (currentPx, currentPy + 1) else (currentPx + 1, currentPy))"

text \<open>
  Both fills run on one copy of the grid, the first with label 5 from seed
  \<open>(X1, Y1)\<close>, the second with label 6 from seed \<open>(X2, Y2)\<close>. The result is
  \<open>(fill1, fill2, gridCopy)\<close>.
\<close>

definition fillSides ::
  "grid \<Rightarrow> Position \<Rightarrow> int \<Rightarrow> int \<Rightarrow> (int \<times> int) list \<Rightarrow> int \<times> int \<times> grid" where
  "fillSides grid speed currentPx currentPy enemyPositions =
     (case seedA speed currentPx currentPy of (X1, Y1) \<Rightarrow>
      case seedB speed currentPx currentPy of (X2, Y2) \<Rightarrow>
      case floodFill X1 Y1 5 grid enemyPositions of (fill1, gridCopy1) \<Rightarrow>
      case floodFill X2 Y2 6 gridCopy1 enemyPositions of (fill2, gridCopy2) \<Rightarrow>
        (fill1, fill2, gridCopy2))"

definition fillThisValue :: "int \<Rightarrow> int \<Rightarrow> int" where
  "fillThisValue fill1 fill2 = (if fill1 \<ge> fill2 then 6 else 5)"

definition doNotFillThisValue :: "int \<Rightarrow> int \<Rightarrow> int" where
  "doNotFillThisValue fill1 fill2 = (if fill1 \<ge> fill2 then 5 else 6)"

definition commitCell :: "grid \<Rightarrow> int \<Rightarrow> int \<Rightarrow> grid \<times> int \<Rightarrow> int \<Rightarrow> grid \<times> int" where
  "commitCell gridCopy fillThis doNotFillThis acc idx =
     (case acc of (grid, areaCaptured) \<Rightarrow>
        if cellAt grid idx = Some CELL_TRAIL then (setCell grid idx CELL_WALL, areaCaptured)
        else if cellAt gridCopy idx = Some fillThis
        then (setCell grid idx CELL_WALL, areaCaptured + 1)
        else if cellAt gridCopy idx = Some doNotFillThis
        then (setCell grid idx CELL_EMPTY, areaCaptured)
        else (grid, areaCaptured))"

definition applyFill :: "grid \<Rightarrow> grid \<Rightarrow> int \<Rightarrow> int \<Rightarrow> grid \<times> int" where
  "applyFill grid gridCopy fillThis doNotFillThis =
     foldl (\<lambda>acc y.
        foldl (\<lambda>acc x. commitCell gridCopy fillThis doNotFillThis acc (x + y * GRID_WIDTH))
          acc [0 .. GRID_WIDTH - 1])
       (grid, 0) [0 .. GRID_HEIGHT - 1]"

text \<open>
  The grid after the commit, with the number of cells captured: the two fills, the
  side selection, the commit loop and the final write that puts the landing cell on
  the wall.
\<close>

definition captureGrid ::
  "grid \<Rightarrow> Position \<Rightarrow> int \<Rightarrow> int \<Rightarrow> (int \<times> int) list \<Rightarrow> grid \<times> int" where
  "captureGrid grid speed currentPx currentPy enemyPositions =
     (case fillSides grid speed currentPx currentPy enemyPositions of
        (fill1, fill2, gridCopy) \<Rightarrow>
      case applyFill grid gridCopy (fillThisValue fill1 fill2) (doNotFillThisValue fill1 fill2) of
        (grid', areaCaptured) \<Rightarrow>
          (setCell grid' (currentPx + currentPy * GRID_WIDTH) CELL_WALL, areaCaptured))"

definition enemyCaptured :: "grid \<Rightarrow> Enemy \<Rightarrow> bool" where
  "enemyCaptured grid enemy \<longleftrightarrow>
     cellAt grid (enemy_x enemy + enemy_y enemy * GRID_WIDTH) = Some CELL_WALL"

definition sidestep :: "grid \<Rightarrow> Position \<Rightarrow> Position \<Rightarrow> Position" where
  "sidestep grid speed pos =
     (let currentPx = pos_x pos;
          currentPy = pos_y pos
      in if cellAt grid (currentPx + currentPy * GRID_WIDTH) = Some CELL_WALL
         then (let p1 = (if pos_x speed \<noteq> 0
                         then (if cellAt grid (currentPx + (currentPy - 1) * GRID_WIDTH) = Some CELL_EMPTY
                               then pos\<lparr>pos_y := pos_y pos - 1\<rparr>
                               else if cellAt grid (currentPx + (currentPy + 1) * GRID_WIDTH) = Some CELL_EMPTY
                               then pos\<lparr>pos_y := pos_y pos + 1\<rparr>
                               else pos)
                         else pos);
                   p2 = (if pos_y speed \<noteq> 0
                         then (if cellAt grid ((currentPx - 1) + currentPy * GRID_WIDTH) = Some CELL_EMPTY
                               then p1\<lparr>pos_x := pos_x p1 - 1\<rparr>
                               else if cellAt grid ((currentPx + 1) + currentPy * GRID_WIDTH) = Some CELL_EMPTY
                               then p1\<lparr>pos_x := pos_x p1 + 1\<rparr>
                               else p1)
                         else p1)
               in p2)
         else pos)"

text \<open>
  The capture sequence of a closure, from the flood fills to the end of the tick. On a
  win it calls \<open>advanceLevel\<close> and returns at once.
\<close>

definition capture :: "World \<Rightarrow> World" where
  "capture w =
     (let currentPx = pos_x (playerPos w);
          currentPy = pos_y (playerPos w);
          enemyPositions = map (\<lambda>e. (enemy_x e, enemy_y e)) (enemies w)
      in case captureGrid (gridRef w) (playerSpeed w) currentPx currentPy enemyPositions of
        (grid, areaCaptured) \<Rightarrow>
          (let survivingEnemies = filter (\<lambda>e. \<not> enemyCaptured grid e) (enemies w);
               destroyedCount = int (length (filter (enemyCaptured grid) (enemies w)));
               newPercentage = calculatePercentage grid;
               w1 = w\<lparr>gridRef := grid,
                      enemies := (if destroyedCount > 0 then survivingEnemies else enemies w),
                      gameState := (gameState w)
                        \<lparr>percentage := newPercentage,
                         score := score (gameState w) + areaCaptured * 10 + destroyedCount * 500\<rparr>\<rparr>
           in if newPercentage \<ge> WIN_PERCENTAGE then advanceLevel w1
              else w1\<lparr>playerPos := sidestep grid (playerSpeed w1) (playerPos w1),
                      playerState := onWall\<rparr>))"

definition stateTransitions :: "World \<Rightarrow> World" where
  "stateTransitions w =
     (let currentPx = pos_x (playerPos w);
          currentPy = pos_y (playerPos w);
          detected = wallDetected (gridRef w) currentPx currentPy
      in if playerState w = onStage
         then (let grid1 = setCell (gridRef w) (currentPx + currentPy * GRID_WIDTH) CELL_TRAIL;
                   grid2 = markPrev grid1 (playerPos w) (playerSpeed w);
                   w1 = w\<lparr>gridRef := grid2\<rparr>
               in if detected then capture w1 else w1)
         else (if \<not> detected \<and> (pos_x (playerSpeed w) \<noteq> 0 \<or> pos_y (playerSpeed w) \<noteq> 0)
               then w\<lparr>gridRef := markPrev (gridRef w) (playerPos w) (playerSpeed w),
                      playerState := onStage\<rparr>
               else w))"

subsection \<open>One tick\<close>

definition enemyPhase :: "World \<Rightarrow> bool \<times> Enemy list" where
  "enemyPhase w =
     (if tickCount w mod 2 = 0 then updateEnemies (gridRef w) (enemies w)
      else (False, enemies w))"

definition gameLoop :: "(int \<Rightarrow> bool) \<Rightarrow> (nat \<Rightarrow> Draw) \<Rightarrow> World \<Rightarrow> World" where
  "gameLoop pressedKeys rnd w =
     (if status (gameState w) \<noteq> playing then w
      else
        (let w1 = processInput pressedKeys (w\<lparr>tickCount := tickCount w + 1\<rparr>)
         in case enemyPhase w1 of
           (died, es) \<Rightarrow>
             if died then handlePlayerDeath rnd (w1\<lparr>enemies := es\<rparr>)
             else
               (let w2 = wallHitDetection (w1\<lparr>enemies := es\<rparr>)
                in if playerState w2 = onStage \<and> playerNextCell (w1\<lparr>enemies := es\<rparr>) = Some CELL_TRAIL
                   then handlePlayerDeath rnd w2
                   else stateTransitions (movePlayer w2))))"

subsection \<open>Notions used in the statements\<close>

text \<open>The play-area cells that hold WALL: what \<open>calculatePercentage\<close> counts.\<close>

definition wallCells :: "grid \<Rightarrow> (int \<times> int) set" where
  "wallCells grid = {p \<in> playArea. cellAt grid (fst p + snd p * GRID_WIDTH) = Some CELL_WALL}"

text \<open>The border rectangle that \<open>createInitialGrid\<close> draws.\<close>

definition onBorder :: "int \<Rightarrow> int \<Rightarrow> bool" where
  "onBorder x y \<longleftrightarrow> (12 \<le> x \<and> (y = 0 \<or> y = 47)) \<or> x = 12 \<or> x = 83"

text \<open>A concrete state for the examples: the component's initial state, with its enemy at one
  of the positions the initial draw can give.\<close>

definition exampleEnemy :: Enemy where
  "exampleEnemy = \<lparr>enemy_x = 45, enemy_y = 20, enemy_vx = 1, enemy_vy = -1\<rparr>"

definition exampleDraw :: "nat \<Rightarrow> Draw" where
  "exampleDraw i = \<lparr>draw_x = 7, draw_y = 3, draw_vx = True, draw_vy = False\<rparr>"

definition initialWorld :: World where
  "initialWorld =
     \<lparr>gridRef = createInitialGrid,
      playerPos = \<lparr>pos_x = 48, pos_y = PLAY_AREA_BOTTOM\<rparr>,
      playerSpeed = \<lparr>pos_x = 0, pos_y = 0\<rparr>,
      playerState = onWall,
      enemies = [exampleEnemy],
      gameState = \<lparr>status = playing, score = 0, percentage = 0, level = 1, lives = 3\<rparr>,
      tickCount = 0\<rparr>"

text \<open>The box in which a reset places an enemy, with a diagonal unit velocity.\<close>

definition inSpawnBox :: "Enemy \<Rightarrow> bool" where
  "inSpawnBox e \<longleftrightarrow>
     PLAY_AREA_LEFT + 10 \<le> enemy_x e \<and> enemy_x e < PLAY_AREA_RIGHT - 10 \<and>
     PLAY_AREA_TOP + 5 \<le> enemy_y e \<and> enemy_y e < PLAY_AREA_BOTTOM - 5 \<and>
     \<bar>enemy_vx e\<bar> = ENEMY_SPEED \<and> \<bar>enemy_vy e\<bar> = ENEMY_SPEED"



text \<open>The four neighbours that \<open>isAdjacentToVoid\<close> tests, and the nine cells of the wall
  detection around the player.\<close>

definition adjacentCells :: "int \<Rightarrow> int \<Rightarrow> (int \<times> int) set" where
  "adjacentCells x y = {(x + 1, y), (x - 1, y), (x, y + 1), (x, y - 1)}"

definition aroundCells :: "int \<Rightarrow> int \<Rightarrow> (int \<times> int) set" where
  "aroundCells x y = {x - 1, x, x + 1} \<times> {y - 1, y, y + 1}"

text \<open>
  The play-area cells that a fill has labelled: EMPTY in the grid before, \<open>fillValue\<close>
  in the grid after.
\<close>

definition filledCells :: "grid \<Rightarrow> grid \<Rightarrow> int \<Rightarrow> (int \<times> int) set" where
  "filledCells before after fillValue =
     {p \<in> playArea. cellAt before (fst p + snd p * GRID_WIDTH) = Some CELL_EMPTY \<and>
                     cellAt after (fst p + snd p * GRID_WIDTH) = Some fillValue}"

text \<open>
  The rule of the commit loop for one cell, given the grid and the labelled copy: a
  TRAIL cell becomes WALL, a cell labelled \<open>fillThis\<close> becomes WALL, a cell labelled
  \<open>doNotFillThis\<close> becomes EMPTY, any other cell keeps its value.
\<close>

definition commitValue :: "grid \<Rightarrow> grid \<Rightarrow> int \<Rightarrow> int \<Rightarrow> int \<Rightarrow> int option" where
  "commitValue grid gridCopy fillThis doNotFillThis idx =
     (if cellAt grid idx = None then None
      else if cellAt grid idx = Some CELL_TRAIL then Some CELL_WALL
      else if cellAt gridCopy idx = Some fillThis then Some CELL_WALL
      else if cellAt gridCopy idx = Some doNotFillThis then Some CELL_EMPTY
      else cellAt grid idx)"

text \<open>
  A grid of the component: \<open>GRID_WIDTH * GRID_HEIGHT\<close> cells, each EMPTY, WALL or
  TRAIL.
\<close>

definition validGrid :: "grid \<Rightarrow> bool" where
  "validGrid grid \<longleftrightarrow>
     length grid = 4032 \<and> (\<forall>v \<in> set grid. v = CELL_EMPTY \<or> v = CELL_WALL \<or> v = CELL_TRAIL)"

text \<open>
  A seed from which a fill labels nothing: outside the play area, or on a cell that is
  not EMPTY.
\<close>

definition degenerateSeed :: "grid \<Rightarrow> int \<times> int \<Rightarrow> bool" where
  "degenerateSeed grid seed \<longleftrightarrow>
     \<not> isInPlayArea (fst seed) (snd seed) \<or>
     cellAt grid (fst seed + snd seed * GRID_WIDTH) \<noteq> Some CELL_EMPTY"

text \<open>The inputs of the capture sequence, read off the state of the component.\<close>

definition landingIdx :: "World \<Rightarrow> int" where
  "landingIdx w = pos_x (playerPos w) + pos_y (playerPos w) * GRID_WIDTH"

definition enemyPositionsOf :: "World \<Rightarrow> (int \<times> int) list" where
  "enemyPositionsOf w = map (\<lambda>e. (enemy_x e, enemy_y e)) (enemies w)"

definition firstSeed :: "World \<Rightarrow> int \<times> int" where
  "firstSeed w = seedA (playerSpeed w) (pos_x (playerPos w)) (pos_y (playerPos w))"

definition secondSeed :: "World \<Rightarrow> int \<times> int" where
  "secondSeed w = seedB (playerSpeed w) (pos_x (playerPos w)) (pos_y (playerPos w))"

definition firstFill :: "World \<Rightarrow> int \<times> grid" where
  "firstFill w = floodFill (fst (firstSeed w)) (snd (firstSeed w)) 5 (gridRef w) (enemyPositionsOf w)"

definition secondFill :: "World \<Rightarrow> int \<times> grid" where
  "secondFill w =
     floodFill (fst (secondSeed w)) (snd (secondSeed w)) 6 (snd (firstFill w)) (enemyPositionsOf w)"

definition enemyIdx :: "Enemy \<Rightarrow> int" where
  "enemyIdx e = enemy_x e + enemy_y e * GRID_WIDTH"

subsection \<open>Concrete closures for the examples\<close>

text \<open>
  A family of grids of the component's size. Columns 0 to 11 are the EMPTY margin left of
  the border, as in the initial grid. The trail cells are TRAIL, the pocket cells and a
  stretch of void at the left of the play area (columns 13 to \<open>far - 1\<close>, and ten cells
  of column \<open>far\<close>) are EMPTY, everything else is WALL.
\<close>

definition scenCell :: "int \<Rightarrow> (int \<times> int) list \<Rightarrow> (int \<times> int) list \<Rightarrow> int \<Rightarrow> int \<Rightarrow> int" where
  "scenCell far trail pocket x y =
     (if (x, y) \<in> set trail then CELL_TRAIL
      else if x < 12 then CELL_EMPTY
      else if (x, y) \<in> set pocket then CELL_EMPTY
      else if (13 \<le> x \<and> x < far \<and> 1 \<le> y \<and> y < 47) \<or> (x = far \<and> 1 \<le> y \<and> y < 11)
      then CELL_EMPTY
      else CELL_WALL)"

definition scenGrid :: "int \<Rightarrow> (int \<times> int) list \<Rightarrow> (int \<times> int) list \<Rightarrow> grid" where
  "scenGrid far trail pocket =
     map (\<lambda>i. scenCell far trail pocket (i mod 84) (i div 84)) [0 .. 4031]"

definition labelCells :: "grid \<Rightarrow> int \<Rightarrow> (int \<times> int) list \<Rightarrow> grid" where
  "labelCells grid v cells = foldl (\<lambda>g p. setCell g (fst p + snd p * GRID_WIDTH) v) grid cells"

text \<open>
  The player has just moved right along row 20 from the wall at column 39 and landed on
  \<open>(42, 20)\<close>, next to the wall at column 43, with the trail laid behind it.
\<close>

definition trailA :: "(int \<times> int) list" where
  "trailA = [(40, 20), (41, 20), (42, 20)]"

text \<open>Above the trail a block of three by three cells, below it a row of three cells.\<close>

definition pocketA :: "(int \<times> int) list" where
  "pocketA = [(40, 17), (41, 17), (42, 17), (40, 18), (41, 18), (42, 18),
              (40, 19), (41, 19), (42, 19), (40, 21), (41, 21), (42, 21)]"

definition enemyAt :: "int \<Rightarrow> int \<Rightarrow> Enemy" where
  "enemyAt x y = \<lparr>enemy_x = x, enemy_y = y, enemy_vx = 1, enemy_vy = 1\<rparr>"

definition scenWorld :: "int \<Rightarrow> (int \<times> int) list \<Rightarrow> Enemy list \<Rightarrow> World" where
  "scenWorld far pocket es =
     \<lparr>gridRef = scenGrid far trailA pocket,
      playerPos = \<lparr>pos_x = 42, pos_y = 20\<rparr>,
      playerSpeed = \<lparr>pos_x = 1, pos_y = 0\<rparr>,
      playerState = onStage,
      enemies = es,
      gameState = \<lparr>status = playing, score = 0, percentage = 74, level = 1, lives = 3\<rparr>,
      tickCount = 1\<rparr>"

definition sideACells :: "(int \<times> int) list" where
  "sideACells = [(42, 19), (42, 18), (42, 17), (41, 17), (41, 18), (41, 19),
                 (40, 19), (40, 18), (40, 17)]"

definition sideBCells :: "(int \<times> int) list" where
  "sideBCells = [(42, 21), (41, 21), (40, 21)]"

text \<open>
  The state one tick before the closure of \<open>scenWorld\<close>: the player is in the void at
  \<open>(41, 20)\<close>, moving right, with the trail cell \<open>(40, 20)\<close> behind it; the cells
  \<open>(41, 20)\<close> and \<open>(42, 20)\<close> are still EMPTY.
\<close>

definition beforeClosure :: "int \<Rightarrow> (int \<times> int) list \<Rightarrow> Enemy list \<Rightarrow> World" where
  "beforeClosure far pocket es =
     (scenWorld far pocket es)
       \<lparr>gridRef := setCell (setCell (scenGrid far trailA pocket) (41 + 20 * GRID_WIDTH) CELL_EMPTY)
                     (42 + 20 * GRID_WIDTH) CELL_EMPTY,
        playerPos := \<lparr>pos_x = 41, pos_y = 20\<rparr>,
        tickCount := 0\<rparr>"

subsection \<open>Events of a tick\<close>

text \<open>
  The two death events, read off the state at the start of a tick: on an enemy-motion
  tick (the incremented tick count is even) some enemy stands on a TRAIL cell; or the
  player is in the void and its next cell is TRAIL.
\<close>

definition enemyTouchesTrail :: "World \<Rightarrow> bool" where
  "enemyTouchesTrail w \<longleftrightarrow>
     (tickCount w + 1) mod 2 = 0 \<and> list_ex (enemyOnTrail (gridRef w)) (enemies w)"

definition playerHitsTrail :: "World \<Rightarrow> bool" where
  "playerHitsTrail w \<longleftrightarrow> playerState w = onStage \<and> playerNextCell w = Some CELL_TRAIL"

definition deathEvent :: "World \<Rightarrow> bool" where
  "deathEvent w \<longleftrightarrow> enemyTouchesTrail w \<or> playerHitsTrail w"

text \<open>
  A closure event: while playing, without a death event, the player is in the void and
  the cell it moves to this tick has a wall around it.
\<close>

definition landingPos :: "World \<Rightarrow> Position" where
  "landingPos w = playerPos (movePlayer (wallHitDetection w))"

definition closureEvent :: "World \<Rightarrow> bool" where
  "closureEvent w \<longleftrightarrow>
     status (gameState w) = playing \<and> \<not> deathEvent w \<and> playerState w = onStage \<and>
     wallDetected (gridRef w) (pos_x (landingPos w)) (pos_y (landingPos w))"

text \<open>The enemies as the enemy loop leaves them when it stops at the first one on the trail.\<close>

definition stoppedEnemies :: "grid \<Rightarrow> Enemy list \<Rightarrow> Enemy list" where
  "stoppedEnemies grid es =
     map (moveEnemy grid) (takeWhile (\<lambda>e. \<not> enemyOnTrail grid e) es) @
     dropWhile (\<lambda>e. \<not> enemyOnTrail grid e) es"

text \<open>
  States in which a death event fires. In the first the tick is an enemy-motion tick, one
  enemy roams the void at the left and a second one stands on the trail cell
  \<open>(40, 20)\<close>. In the second the player, in the void, heads back onto its own trail.
  The argument is the number of lives.
\<close>

definition enemyDeathWorld :: "int \<Rightarrow> World" where
  "enemyDeathWorld n =
     (beforeClosure 30 pocketA [enemyAt 20 10, enemyAt 40 20])
       \<lparr>tickCount := 1,
        gameState := \<lparr>status = playing, score = 250, percentage = 74, level = 2, lives = n\<rparr>\<rparr>"

definition trailDeathWorld :: "int \<Rightarrow> World" where
  "trailDeathWorld n =
     (beforeClosure 30 pocketA [])
       \<lparr>playerSpeed := \<lparr>pos_x = -1, pos_y = 0\<rparr>,
        gameState := \<lparr>status = playing, score = 250, percentage = 74, level = 2, lives = n\<rparr>\<rparr>"

definition noKeys :: "int \<Rightarrow> bool" where
  "noKeys k = False"

subsection \<open>Runs of ticks\<close>

text \<open>
  The band of cells the player's position is clamped to, and the states the component
  keeps to: a grid of the right size with cell values only, a speed of at most one
  cell per axis, and, while the player is in the void, a position inside the band with
  no wall around it (a wall around it would have closed the trail in the tick
  before).
\<close>

definition inBand :: "Position \<Rightarrow> bool" where
  "inBand pos \<longleftrightarrow>
     PLAY_AREA_LEFT - 1 \<le> pos_x pos \<and> pos_x pos \<le> PLAY_AREA_RIGHT \<and>
     0 \<le> pos_y pos \<and> pos_y pos \<le> PLAY_AREA_BOTTOM"

definition wellFormed :: "World \<Rightarrow> bool" where
  "wellFormed w \<longleftrightarrow>
     validGrid (gridRef w) \<and>
     \<bar>pos_x (playerSpeed w)\<bar> \<le> 1 \<and> \<bar>pos_y (playerSpeed w)\<bar> \<le> 1 \<and>
     (playerState w = onStage \<longrightarrow>
        inBand (playerPos w) \<and>
        \<not> wallDetected (gridRef w) (pos_x (playerPos w)) (pos_y (playerPos w)))"

text \<open>
  A run of ticks, one input per tick, and the runs in which no tick of a playing state
  has a death event.
\<close>

fun ticks :: "(int \<Rightarrow> bool) list \<Rightarrow> (nat \<Rightarrow> Draw) \<Rightarrow> World \<Rightarrow> World" where
  "ticks [] rnd w = w"
| "ticks (keys # rest) rnd w = ticks rest rnd (gameLoop keys rnd w)"

fun noDeathRun :: "(int \<Rightarrow> bool) list \<Rightarrow> (nat \<Rightarrow> Draw) \<Rightarrow> World \<Rightarrow> bool" where
  "noDeathRun [] rnd w = True"
| "noDeathRun (keys # rest) rnd w =
     (\<not> (status (gameState w) = playing \<and> deathEvent w) \<and>
      noDeathRun rest rnd (gameLoop keys rnd w))"

definition upKey :: "int \<Rightarrow> bool" where
  "upKey k \<longleftrightarrow> k = 38"

text \<open>
  The state keeps the percentage of the last commit in \<open>gameState.percentage\<close> (the
  resets assign 0); this says that the stored number is the one \<open>calculatePercentage\<close>
  gives on the current grid.
\<close>

definition percentageInSync :: "World \<Rightarrow> bool" where
  "percentageInSync w \<longleftrightarrow> percentage (gameState w) = calculatePercentage (gridRef w)"

text \<open>
  The coordinate \<open>(nextPx, nextPy)\<close> of the wall hit detection, the box the four clamps
  of the enemy loop keep an enemy in (with a velocity of one cell per axis), and the
  coordinates of the two cells that the bounce tests of an enemy read.
\<close>

definition nextCoord :: "World \<Rightarrow> int \<times> int" where
  "nextCoord w =
     (pos_x (playerPos w) + pos_x (playerSpeed w), pos_y (playerPos w) + pos_y (playerSpeed w))"

definition inEnemyBox :: "Enemy \<Rightarrow> bool" where
  "inEnemyBox e \<longleftrightarrow>
     PLAY_AREA_LEFT \<le> enemy_x e \<and> enemy_x e \<le> PLAY_AREA_RIGHT - 2 \<and>
     PLAY_AREA_TOP \<le> enemy_y e \<and> enemy_y e \<le> PLAY_AREA_BOTTOM - 2 \<and>
     \<bar>enemy_vx e\<bar> = ENEMY_SPEED \<and> \<bar>enemy_vy e\<bar> = ENEMY_SPEED"

definition bounceReads :: "Enemy \<Rightarrow> (int \<times> int) list" where
  "bounceReads e =
     [(enemy_x e + enemy_vx e, enemy_y e), (enemy_x e, enemy_y e + enemy_vy e)]"




section \<open>Properties\<close>

subsection \<open>Cells and indices\<close>


lemma length_setCell [simp]: "length (setCell g i v) = length g"
  by (simp add: setCell_def)

lemma cellAt_setCell:
  "cellAt (setCell g i v) j = (if j = i \<and> 0 \<le> i \<and> i < int (length g) then Some v else cellAt g j)"
  by (auto simp: cellAt_def setCell_def nth_list_update)

lemma foldl_count:
  "foldl (\<lambda>count x. if P x then count + 1 else count) (c::int) xs = c + int (length (filter P xs))"
  by (induction xs arbitrary: c) auto

lemma foldl_add:
  "foldl (\<lambda>count y. count + f y) (c::int) ys = c + sum_list (map f ys)"
  by (induction ys arbitrary: c) auto

lemma sum_rows_filter:
  "sum_list (map (\<lambda>y. int (length (filter (\<lambda>x. Q (x, y)) xs))) ys) =
     int (length (filter Q (concat (map (\<lambda>y. map (\<lambda>x. (x, y)) xs) ys))))"
  by (induction ys) (simp_all add: filter_map comp_def)

lemma capturedCount_filter:
  "capturedCount grid =
     int (length (filter (\<lambda>p. cellAt grid (fst p + snd p * GRID_WIDTH) = Some CELL_WALL)
            (concat (map (\<lambda>y. map (\<lambda>x. (x, y)) [PLAY_AREA_LEFT .. PLAY_AREA_RIGHT - 1])
                [PLAY_AREA_TOP .. PLAY_AREA_BOTTOM - 1]))))"
proof -
  have "capturedCount grid =
      sum_list (map (\<lambda>y. int (length (filter (\<lambda>x. cellAt grid (x + y * GRID_WIDTH) = Some CELL_WALL)
           [PLAY_AREA_LEFT .. PLAY_AREA_RIGHT - 1]))) [PLAY_AREA_TOP .. PLAY_AREA_BOTTOM - 1])"
    unfolding capturedCount_def by (simp only: foldl_count foldl_add)
  also have "\<dots> = int (length (filter (\<lambda>p. cellAt grid (fst p + snd p * GRID_WIDTH) = Some CELL_WALL)
            (concat (map (\<lambda>y. map (\<lambda>x. (x, y)) [PLAY_AREA_LEFT .. PLAY_AREA_RIGHT - 1])
                [PLAY_AREA_TOP .. PLAY_AREA_BOTTOM - 1]))))"
    using sum_rows_filter [of "\<lambda>p. cellAt grid (fst p + snd p * GRID_WIDTH) = Some CELL_WALL"
        "[PLAY_AREA_LEFT .. PLAY_AREA_RIGHT - 1]" "[PLAY_AREA_TOP .. PLAY_AREA_BOTTOM - 1]"]
    by simp
  finally show ?thesis .
qed


lemma distinct_rows:
  "distinct xs \<Longrightarrow> distinct ys \<Longrightarrow> distinct (concat (map (\<lambda>y. map (\<lambda>x. (x, y)) xs) ys))"
  by (induction ys) (auto simp: distinct_map inj_on_def)

lemma set_rows:
  "set (concat (map (\<lambda>y. map (\<lambda>x. (x, y)) xs) ys)) = set xs \<times> set ys"
  by auto

lemma playArea_rows:
  "set (concat (map (\<lambda>y. map (\<lambda>x. (x, y)) [PLAY_AREA_LEFT .. PLAY_AREA_RIGHT - 1])
                [PLAY_AREA_TOP .. PLAY_AREA_BOTTOM - 1])) = playArea"
  by (simp only: set_rows set_upto playArea_def) auto

lemma capturedCount_card: "capturedCount grid = int (card (wallCells grid))"
proof -
  let ?cells = "concat (map (\<lambda>y. map (\<lambda>x. (x, y)) [PLAY_AREA_LEFT .. PLAY_AREA_RIGHT - 1])
                [PLAY_AREA_TOP .. PLAY_AREA_BOTTOM - 1])"
  let ?P = "\<lambda>p. cellAt grid (fst p + snd p * GRID_WIDTH) = Some CELL_WALL"
  have d: "distinct ?cells" by (rule distinct_rows) (simp_all only: distinct_upto)
  have "length (filter ?P ?cells) = card ({p. ?P p} \<inter> set ?cells)"
    using d by (rule distinct_length_filter)
  also have "{p. ?P p} \<inter> set ?cells = wallCells grid"
    unfolding playArea_rows wallCells_def by auto
  finally show ?thesis by (simp add: capturedCount_filter)
qed

lemma card_playArea: "card playArea = 3220"
  by (simp add: playArea_def)


lemma calculatePercentage_div:
  "calculatePercentage grid = (100 * capturedCount grid) div 3220"
proof -
  have "(real_of_int (capturedCount grid) / real_of_int 3220) * 100
      = real_of_int (100 * capturedCount grid) / real_of_int 3220" by simp
  then have "\<lfloor>(real_of_int (capturedCount grid) / real_of_int 3220) * 100\<rfloor>
      = (100 * capturedCount grid) div 3220"
    by (simp only: floor_divide_of_int_eq)
  then show ?thesis by (simp add: calculatePercentage_def)
qed


lemma idx_unique:
  fixes x y x' y' :: int
  assumes "0 \<le> x" "x < 84" "0 \<le> x'" "x' < 84" "x + y * 84 = x' + y' * 84"
  shows "x = x' \<and> y = y'"
proof -
  have "y = y'"
  proof (rule ccontr)
    assume "y \<noteq> y'"
    then consider "y + 1 \<le> y'" | "y' + 1 \<le> y" by linarith
    then show False using assms by cases linarith+
  qed
  with assms show ?thesis by auto
qed

lemma length_foldl_setCell [simp]:
  "length (foldl (\<lambda>g k. setCell g (f k) v) g ks) = length g"
  by (induction ks arbitrary: g) simp_all

lemma cellAt_foldl_setCell:
  "cellAt (foldl (\<lambda>g k. setCell g (f k) v) g ks) i =
     (if i \<in> f ` set ks \<and> 0 \<le> i \<and> i < int (length g) then Some v else cellAt g i)"
  by (induction ks arbitrary: g) (auto simp: cellAt_setCell)

lemma length_createInitialGrid [simp]: "length createInitialGrid = 4032"
  unfolding createInitialGrid_def Let_def by (simp only: length_foldl_setCell length_replicate)

lemma cellAt_replicate:
  "cellAt (replicate n v) i = (if 0 \<le> i \<and> i < int n then Some v else None)"
  by (auto simp: cellAt_def)

lemma cellAt_createInitialGrid:
  assumes "inGrid x y"
  shows "cellAt createInitialGrid (x + y * GRID_WIDTH) =
           Some (if onBorder x y then CELL_WALL else CELL_EMPTY)"
proof -
  have x: "0 \<le> x" "x < 84" and y: "0 \<le> y" "y < 48" using assms by (auto simp: inGrid_def)
  have r: "0 \<le> x + y * 84" "x + y * 84 < 4032" using x y by auto
  have a: "x + y * 84 \<in> (\<lambda>x. x + 0 * 84) ` {12 .. 83} \<longleftrightarrow> 12 \<le> x \<and> y = 0"
  proof
    assume "x + y * 84 \<in> (\<lambda>x. x + 0 * 84) ` {12 .. 83}"
    then obtain x' where "x' \<in> {12 .. 83}" "x + y * 84 = x' + 0 * 84" by blast
    then show "12 \<le> x \<and> y = 0" using idx_unique [of x x' y 0] x by auto
  next
    assume "12 \<le> x \<and> y = 0" then show "x + y * 84 \<in> (\<lambda>x. x + 0 * 84) ` {12 .. 83}"
      using x by auto
  qed
  have b: "x + y * 84 \<in> (\<lambda>x. x + 47 * 84) ` {12 .. 83} \<longleftrightarrow> 12 \<le> x \<and> y = 47"
  proof
    assume "x + y * 84 \<in> (\<lambda>x. x + 47 * 84) ` {12 .. 83}"
    then obtain x' where "x' \<in> {12 .. 83}" "x + y * 84 = x' + 47 * 84" by blast
    then show "12 \<le> x \<and> y = 47" using idx_unique [of x x' y 47] x by auto
  next
    assume "12 \<le> x \<and> y = 47" then show "x + y * 84 \<in> (\<lambda>x. x + 47 * 84) ` {12 .. 83}"
      using x by auto
  qed
  have c: "x + y * 84 \<in> (\<lambda>y. 12 + y * 84) ` {0 .. 47} \<longleftrightarrow> x = 12"
  proof
    assume "x + y * 84 \<in> (\<lambda>y. 12 + y * 84) ` {0 .. 47}"
    then obtain y' where "x + y * 84 = 12 + y' * 84" by blast
    then show "x = 12" using idx_unique [of x 12 y y'] x by auto
  next
    assume "x = 12" then show "x + y * 84 \<in> (\<lambda>y. 12 + y * 84) ` {0 .. 47}"
      using y by auto
  qed
  have d: "x + y * 84 \<in> (\<lambda>y. 83 + y * 84) ` {0 .. 47} \<longleftrightarrow> x = 83"
  proof
    assume "x + y * 84 \<in> (\<lambda>y. 83 + y * 84) ` {0 .. 47}"
    then obtain y' where "x + y * 84 = 83 + y' * 84" by blast
    then show "x = 83" using idx_unique [of x 83 y y'] x by auto
  next
    assume "x = 83" then show "x + y * 84 \<in> (\<lambda>y. 83 + y * 84) ` {0 .. 47}"
      using y by auto
  qed
  have "cellAt createInitialGrid (x + y * 84) =
      Some (if x + y * 84 \<in> (\<lambda>y. 83 + y * 84) ` {0 .. 47} \<or>
               x + y * 84 \<in> (\<lambda>y. 12 + y * 84) ` {0 .. 47} \<or>
               x + y * 84 \<in> (\<lambda>x. x + 47 * 84) ` {12 .. 83} \<or>
               x + y * 84 \<in> (\<lambda>x. x + 0 * 84) ` {12 .. 83} then 1 else 0)"
    using r unfolding createInitialGrid_def Let_def
    by (simp only: cellAt_foldl_setCell length_foldl_setCell set_upto cellAt_replicate
          length_replicate) simp
  then show ?thesis
    unfolding a b c d onBorder_def by auto
qed

lemma wallCells_createInitialGrid: "wallCells createInitialGrid = {}"
proof -
  have "cellAt createInitialGrid (x + y * GRID_WIDTH) \<noteq> Some CELL_WALL"
    if "(x, y) \<in> playArea" for x y
  proof -
    from that have "inGrid x y" "\<not> onBorder x y"
      by (auto simp: playArea_def inGrid_def onBorder_def)
    then show ?thesis by (simp add: cellAt_createInitialGrid)
  qed
  then show ?thesis by (auto simp: wallCells_def)
qed


subsection \<open>Enemy placement\<close>

lemma length_resetEnemies [simp]: "length (resetEnemies rnd es) = length es"
  by (simp add: resetEnemies_def)

lemma placeEnemy_inSpawnBox: "drawInRange d \<Longrightarrow> inSpawnBox (placeEnemy d e)"
  by (simp add: drawInRange_def inSpawnBox_def placeEnemy_def)

lemma resetEnemies_inSpawnBox:
  assumes "\<And>i. drawInRange (rnd i)" "e \<in> set (resetEnemies rnd es)"
  shows "inSpawnBox e"
  using assms by (auto simp: resetEnemies_def placeEnemy_inSpawnBox)

subsection \<open>Death\<close>

text \<open>
  Claim C8. A death event with no life left (\<open>lives - 1 < 0\<close>) only sets the status to
  dead. Otherwise it takes one life, resets the grid, the player and the enemies the way
  a level start does (the initial grid, the player at the bottom middle on the wall and
  at rest, every enemy of the roster placed anew in the spawn box), sets the percentage
  to 0, which is also the percentage of the new grid, keeps score and level, and leaves
  the status at playing.
\<close>

theorem handlePlayerDeath_transition:
  "(lives (gameState w) - 1 < 0 \<longrightarrow>
      handlePlayerDeath rnd w = w\<lparr>gameState := (gameState w)\<lparr>status := dead\<rparr>\<rparr>
      \<and> status (gameState (handlePlayerDeath rnd w)) = dead)
   \<and> (\<not> lives (gameState w) - 1 < 0 \<longrightarrow>
      lives (gameState (handlePlayerDeath rnd w)) = lives (gameState w) - 1
      \<and> gridRef (handlePlayerDeath rnd w) = createInitialGrid
      \<and> playerPos (handlePlayerDeath rnd w) = \<lparr>pos_x = 48, pos_y = PLAY_AREA_BOTTOM\<rparr>
      \<and> playerSpeed (handlePlayerDeath rnd w) = \<lparr>pos_x = 0, pos_y = 0\<rparr>
      \<and> playerState (handlePlayerDeath rnd w) = onWall
      \<and> enemies (handlePlayerDeath rnd w) = enemies (resetStage rnd w)
      \<and> length (enemies (handlePlayerDeath rnd w)) = length (enemies w)
      \<and> ((\<forall>i. drawInRange (rnd i)) \<longrightarrow>
            (\<forall>e \<in> set (enemies (handlePlayerDeath rnd w)). inSpawnBox e))
      \<and> percentage (gameState (handlePlayerDeath rnd w)) = 0
      \<and> calculatePercentage (gridRef (handlePlayerDeath rnd w)) = 0
      \<and> score (gameState (handlePlayerDeath rnd w)) = score (gameState w)
      \<and> level (gameState (handlePlayerDeath rnd w)) = level (gameState w)
      \<and> status (gameState (handlePlayerDeath rnd w)) = playing)"
proof -
  have p0: "calculatePercentage createInitialGrid = 0"
    by (simp add: calculatePercentage_div capturedCount_card wallCells_createInitialGrid)
  show ?thesis
    using resetEnemies_inSpawnBox [of rnd _ "enemies w"]
    by (auto simp: handlePlayerDeath_def resetStage_def Let_def p0)
qed

theorem handlePlayerDeath_transition_witness:
  "status (gameState (handlePlayerDeath exampleDraw
      (initialWorld\<lparr>gameState := (gameState initialWorld)\<lparr>lives := 0, score := 120\<rparr>\<rparr>))) = dead
   \<and> gameState (handlePlayerDeath exampleDraw
      (initialWorld\<lparr>gameState := (gameState initialWorld)\<lparr>score := 120, percentage := 40, level := 2\<rparr>\<rparr>))
      = \<lparr>status = playing, score = 120, percentage = 0, level = 2, lives = 2\<rparr>
   \<and> enemies (handlePlayerDeath exampleDraw initialWorld)
      = [\<lparr>enemy_x = 30, enemy_y = 9, enemy_vx = 1, enemy_vy = -1\<rparr>]"
  using handlePlayerDeath_transition [of "initialWorld\<lparr>gameState := (gameState initialWorld)\<lparr>lives := 0, score := 120\<rparr>\<rparr>" exampleDraw]
    handlePlayerDeath_transition [of "initialWorld\<lparr>gameState := (gameState initialWorld)\<lparr>score := 120, percentage := 40, level := 2\<rparr>\<rparr>" exampleDraw]
    handlePlayerDeath_transition [of initialWorld exampleDraw]
  by (simp add: initialWorld_def resetStage_def resetEnemies_def placeEnemy_def exampleDraw_def
        exampleEnemy_def drawInRange_def GameState.equality)

lemma isAdjacentToVoid_iff:
  "isAdjacentToVoid x y grid \<longleftrightarrow>
     (\<exists>(nx, ny) \<in> adjacentCells x y. inGrid nx ny \<and> cellAt grid (nx + ny * GRID_WIDTH) = Some CELL_EMPTY)"
  by (simp add: isAdjacentToVoid_def adjacentCells_def)

lemma wallDetected_iff:
  "wallDetected grid x y \<longleftrightarrow>
     (\<exists>(nx, ny) \<in> aroundCells x y. inGrid nx ny \<and> cellAt grid (nx + ny * GRID_WIDTH) = Some CELL_WALL)"
  by (simp add: wallDetected_def aroundCells_def) blast

subsection \<open>Reads outside the grid\<close>

lemma bounceEnemy_reads:
  assumes "\<forall>(bx, by) \<in> set (bounceReads e).
             cellAt grid (bx + by * GRID_WIDTH) = cellAt grid' (bx + by * GRID_WIDTH)"
  shows "bounceEnemy grid e = bounceEnemy grid' e"
  using assms by (simp add: bounceEnemy_def bounceReads_def Let_def)

lemma bounceReads_inGrid:
  assumes "inEnemyBox e" "(bx, by) \<in> set (bounceReads e)"
  shows "inGrid bx by"
  using assms by (auto simp: inEnemyBox_def bounceReads_def inGrid_def)

lemma bounceEnemy_fields:
  "enemy_x (bounceEnemy grid e) = enemy_x e" "enemy_y (bounceEnemy grid e) = enemy_y e"
  "\<bar>enemy_vx (bounceEnemy grid e)\<bar> = \<bar>enemy_vx e\<bar>"
  "\<bar>enemy_vy (bounceEnemy grid e)\<bar> = \<bar>enemy_vy e\<bar>"
  by (simp_all add: bounceEnemy_def Let_def)

lemma advanceEnemy_fields:
  "enemy_vx (advanceEnemy e) = enemy_vx e" "enemy_vy (advanceEnemy e) = enemy_vy e"
  by (simp_all add: advanceEnemy_def)

lemma clampEnemyLeft_fields:
  "PLAY_AREA_LEFT \<le> enemy_x (clampEnemyLeft e)"
  "\<bar>enemy_vx (clampEnemyLeft e)\<bar> = \<bar>enemy_vx e\<bar>"
  "enemy_vy (clampEnemyLeft e) = enemy_vy e"
  by (simp_all add: clampEnemyLeft_def)

lemma clampEnemyRight_fields:
  "PLAY_AREA_LEFT \<le> enemy_x e \<Longrightarrow> PLAY_AREA_LEFT \<le> enemy_x (clampEnemyRight e)"
  "enemy_x (clampEnemyRight e) \<le> PLAY_AREA_RIGHT - 2"
  "\<bar>enemy_vx (clampEnemyRight e)\<bar> = \<bar>enemy_vx e\<bar>"
  "enemy_vy (clampEnemyRight e) = enemy_vy e"
  by (simp_all add: clampEnemyRight_def)

lemma clampEnemyTop_fields:
  "enemy_x (clampEnemyTop e) = enemy_x e" "enemy_vx (clampEnemyTop e) = enemy_vx e"
  "PLAY_AREA_TOP \<le> enemy_y (clampEnemyTop e)"
  "\<bar>enemy_vy (clampEnemyTop e)\<bar> = \<bar>enemy_vy e\<bar>"
  by (simp_all add: clampEnemyTop_def)

lemma clampEnemyBottom_fields:
  "enemy_x (clampEnemyBottom e) = enemy_x e" "enemy_vx (clampEnemyBottom e) = enemy_vx e"
  "PLAY_AREA_TOP \<le> enemy_y e \<Longrightarrow> PLAY_AREA_TOP \<le> enemy_y (clampEnemyBottom e)"
  "enemy_y (clampEnemyBottom e) \<le> PLAY_AREA_BOTTOM - 2"
  "\<bar>enemy_vy (clampEnemyBottom e)\<bar> = \<bar>enemy_vy e\<bar>"
  by (simp_all add: clampEnemyBottom_def)

lemma moveEnemy_inEnemyBox:
  assumes "\<bar>enemy_vx e\<bar> = ENEMY_SPEED" "\<bar>enemy_vy e\<bar> = ENEMY_SPEED"
  shows "inEnemyBox (moveEnemy grid e)"
proof -
  let ?a = "advanceEnemy (bounceEnemy grid e)"
  let ?l = "clampEnemyLeft ?a"
  let ?r = "clampEnemyRight ?l"
  let ?t = "clampEnemyTop ?r"
  let ?b = "clampEnemyBottom ?t"
  have x: "PLAY_AREA_LEFT \<le> enemy_x ?b" "enemy_x ?b \<le> PLAY_AREA_RIGHT - 2"
    using clampEnemyRight_fields(1) [OF clampEnemyLeft_fields(1) [of ?a]]
      clampEnemyRight_fields(2) [of ?l]
    by (simp_all only: clampEnemyBottom_fields(1) clampEnemyTop_fields(1))
  have y: "PLAY_AREA_TOP \<le> enemy_y ?b" "enemy_y ?b \<le> PLAY_AREA_BOTTOM - 2"
    using clampEnemyBottom_fields(3) [OF clampEnemyTop_fields(3) [of ?r]]
      clampEnemyBottom_fields(4) [of ?t]
    by simp_all
  have vx: "\<bar>enemy_vx ?b\<bar> = ENEMY_SPEED"
    using assms(1)
    by (simp only: clampEnemyBottom_fields(2) clampEnemyTop_fields(2) clampEnemyRight_fields(3)
          clampEnemyLeft_fields(2) advanceEnemy_fields(1) bounceEnemy_fields(3))
  have vy: "\<bar>enemy_vy ?b\<bar> = ENEMY_SPEED"
    using assms(2)
    by (simp only: clampEnemyBottom_fields(5) clampEnemyTop_fields(4) clampEnemyRight_fields(4)
          clampEnemyLeft_fields(3) advanceEnemy_fields(2) bounceEnemy_fields(4))
  show ?thesis
    unfolding inEnemyBox_def moveEnemy_def using x y vx vy by blast
qed

lemma inSpawnBox_inEnemyBox: "inSpawnBox e \<Longrightarrow> inEnemyBox e"
  by (simp add: inSpawnBox_def inEnemyBox_def)

lemma playerNextCell_nextCoord:
  "nextCoord w = (nx, ny) \<Longrightarrow> playerNextCell w = cellAt (gridRef w) (nx + ny * GRID_WIDTH)"
  by (auto simp: playerNextCell_def nextCoord_def Let_def)

lemma wrapped_coord:
  fixes nx ny :: int
  assumes "\<not> inGrid nx ny" "0 \<le> nx + ny * 84" "nx + ny * 84 < 4032"
  shows "inGrid ((nx + ny * 84) mod 84) ((nx + ny * 84) div 84)"
    and "(nx + ny * 84) div 84 \<noteq> ny"
    and "(nx + ny * 84) mod 84 + (nx + ny * 84) div 84 * 84 = nx + ny * 84"
proof -
  let ?i = "nx + ny * 84"
  show g: "inGrid (?i mod 84) (?i div 84)" using assms(2,3) by (auto simp: inGrid_def)
  show "?i mod 84 + ?i div 84 * 84 = ?i" by simp
  show "?i div 84 \<noteq> ny"
  proof
    assume e: "?i div 84 = ny"
    have "?i mod 84 + ?i div 84 * 84 = ?i" by simp
    with e have "?i mod 84 = nx" by simp
    with g e have "inGrid nx ny" by simp
    with assms(1) show False by simp
  qed
qed

lemma wallHitDetection_outside:
  assumes "nextCoord w = (nx, ny)" "\<not> inGrid nx ny" "playerState w = onWall"
  shows "playerSpeed (wallHitDetection w) = \<lparr>pos_x = 0, pos_y = 0\<rparr>"
proof -
  from assms(1) have n: "pos_x (playerPos w) + pos_x (playerSpeed w) = nx"
    "pos_y (playerPos w) + pos_y (playerSpeed w) = ny" by (simp_all add: nextCoord_def)
  from assms(2) have "nx < PLAY_AREA_LEFT - 1 \<or> nx > PLAY_AREA_RIGHT \<or> ny < 0 \<or> ny > PLAY_AREA_BOTTOM"
    by (auto simp: inGrid_def)
  then show ?thesis using assms(3) by (simp add: wallHitDetection_def Let_def n)
qed

text \<open>
  Claim C6, as amended. For a coordinate outside the grid \<open>isOnWall\<close> answers WALL, and
  inside it reads the cell. The adjacency tests of the simulation (\<open>isAdjacentToVoid\<close>
  and the wall detection around the player) skip the neighbours outside the grid: they
  count neither as WALL nor as EMPTY. The bounce tests of an enemy read two cells and
  nothing else of the grid; for an enemy inside the box the clamps keep it in, where
  every move and every reset leave it, these two and the cell the enemy stands on are
  cells of the grid. The read of the
  player's next cell is unchecked: for a next coordinate \<open>(nx, ny)\<close> outside a grid of
  full size it returns the cell of another coordinate, in another row, when the index
  \<open>nx + 84 * ny\<close> is inside the array, and undefined when it is not; on the wall, the
  bounds test that follows stops the player whatever was read.
\<close>

theorem isOnWall_out_of_bounds:
  "(\<not> inGrid x y \<longrightarrow> isOnWall x y grid)
   \<and> (inGrid x y \<longrightarrow> isOnWall x y grid = (cellAt grid (x + y * GRID_WIDTH) = Some CELL_WALL))
   \<and> (isAdjacentToVoid x y grid \<longleftrightarrow>
        (\<exists>(nx, ny) \<in> adjacentCells x y. inGrid nx ny \<and> cellAt grid (nx + ny * GRID_WIDTH) = Some CELL_EMPTY))
   \<and> (wallDetected grid x y \<longleftrightarrow>
        (\<exists>(nx, ny) \<in> aroundCells x y. inGrid nx ny \<and> cellAt grid (nx + ny * GRID_WIDTH) = Some CELL_WALL))
   \<and> ((\<forall>(bx, by) \<in> set (bounceReads e).
          cellAt grid (bx + by * GRID_WIDTH) = cellAt grid' (bx + by * GRID_WIDTH)) \<longrightarrow>
        bounceEnemy grid e = bounceEnemy grid' e)
   \<and> (inEnemyBox e \<longrightarrow>
        inGrid (enemy_x e) (enemy_y e) \<and>
        (\<forall>(bx, by) \<in> set (bounceReads e). inGrid bx by) \<and> inEnemyBox (moveEnemy grid e))
   \<and> ((\<forall>i. drawInRange (rnd i)) \<longrightarrow> (\<forall>e' \<in> set (resetEnemies rnd es). inEnemyBox e'))
   \<and> (nextCoord w = (nx, ny) \<and> \<not> inGrid nx ny \<and> length (gridRef w) = 4032 \<longrightarrow>
        (if 0 \<le> nx + ny * GRID_WIDTH \<and> nx + ny * GRID_WIDTH < 4032
         then playerNextCell w =
                cellAt (gridRef w) ((nx + ny * GRID_WIDTH) mod GRID_WIDTH +
                                    (nx + ny * GRID_WIDTH) div GRID_WIDTH * GRID_WIDTH)
              \<and> inGrid ((nx + ny * GRID_WIDTH) mod GRID_WIDTH) ((nx + ny * GRID_WIDTH) div GRID_WIDTH)
              \<and> (nx + ny * GRID_WIDTH) div GRID_WIDTH \<noteq> ny
         else playerNextCell w = None)
        \<and> (playerState w = onWall \<longrightarrow>
              playerSpeed (wallHitDetection w) = \<lparr>pos_x = 0, pos_y = 0\<rparr>))"
proof -
  have a: "(\<not> inGrid x y \<longrightarrow> isOnWall x y grid)
   \<and> (inGrid x y \<longrightarrow> isOnWall x y grid = (cellAt grid (x + y * GRID_WIDTH) = Some CELL_WALL))
   \<and> (isAdjacentToVoid x y grid \<longleftrightarrow>
        (\<exists>(nx, ny) \<in> adjacentCells x y. inGrid nx ny \<and> cellAt grid (nx + ny * GRID_WIDTH) = Some CELL_EMPTY))
   \<and> (wallDetected grid x y \<longleftrightarrow>
        (\<exists>(nx, ny) \<in> aroundCells x y. inGrid nx ny \<and> cellAt grid (nx + ny * GRID_WIDTH) = Some CELL_WALL))"
    unfolding isAdjacentToVoid_iff [symmetric] wallDetected_iff [symmetric]
    by (auto simp: isOnWall_def inGrid_def)
  have b: "(\<forall>(bx, by) \<in> set (bounceReads e).
          cellAt grid (bx + by * GRID_WIDTH) = cellAt grid' (bx + by * GRID_WIDTH)) \<longrightarrow>
        bounceEnemy grid e = bounceEnemy grid' e"
    using bounceEnemy_reads [of e grid grid'] by blast
  have c: "inEnemyBox e \<longrightarrow>
        inGrid (enemy_x e) (enemy_y e) \<and>
        (\<forall>(bx, by) \<in> set (bounceReads e). inGrid bx by) \<and> inEnemyBox (moveEnemy grid e)"
  proof
    assume b: "inEnemyBox e"
    then have v: "\<bar>enemy_vx e\<bar> = ENEMY_SPEED" "\<bar>enemy_vy e\<bar> = ENEMY_SPEED"
      and g: "inGrid (enemy_x e) (enemy_y e)"
      by (simp_all add: inEnemyBox_def inGrid_def)
    have r: "\<forall>(bx, by) \<in> set (bounceReads e). inGrid bx by"
      using bounceReads_inGrid [OF b] by blast
    from g r moveEnemy_inEnemyBox [OF v, of grid]
    show "inGrid (enemy_x e) (enemy_y e) \<and>
        (\<forall>(bx, by) \<in> set (bounceReads e). inGrid bx by) \<and> inEnemyBox (moveEnemy grid e)"
      by blast
  qed
  have d: "(\<forall>i. drawInRange (rnd i)) \<longrightarrow> (\<forall>e' \<in> set (resetEnemies rnd es). inEnemyBox e')"
    using resetEnemies_inSpawnBox [of rnd _ es] inSpawnBox_inEnemyBox by blast
  have p: "nextCoord w = (nx, ny) \<and> \<not> inGrid nx ny \<and> length (gridRef w) = 4032 \<longrightarrow>
        (if 0 \<le> nx + ny * GRID_WIDTH \<and> nx + ny * GRID_WIDTH < 4032
         then playerNextCell w =
                cellAt (gridRef w) ((nx + ny * GRID_WIDTH) mod GRID_WIDTH +
                                    (nx + ny * GRID_WIDTH) div GRID_WIDTH * GRID_WIDTH)
              \<and> inGrid ((nx + ny * GRID_WIDTH) mod GRID_WIDTH) ((nx + ny * GRID_WIDTH) div GRID_WIDTH)
              \<and> (nx + ny * GRID_WIDTH) div GRID_WIDTH \<noteq> ny
         else playerNextCell w = None)
        \<and> (playerState w = onWall \<longrightarrow>
              playerSpeed (wallHitDetection w) = \<lparr>pos_x = 0, pos_y = 0\<rparr>)"
  proof (intro impI, elim conjE)
    assume n: "nextCoord w = (nx, ny)" and o: "\<not> inGrid nx ny" and l: "length (gridRef w) = 4032"
    have r: "playerNextCell w = cellAt (gridRef w) (nx + ny * 84)"
      using playerNextCell_nextCoord [OF n] .
    have 1: "playerNextCell w = None" if "\<not> (0 \<le> nx + ny * 84 \<and> nx + ny * 84 < 4032)"
      using that l by (auto simp: r cellAt_def)
    have 2: "playerNextCell w =
                cellAt (gridRef w) ((nx + ny * 84) mod 84 + (nx + ny * 84) div 84 * 84)
              \<and> inGrid ((nx + ny * 84) mod 84) ((nx + ny * 84) div 84)
              \<and> (nx + ny * 84) div 84 \<noteq> ny"
      if "0 \<le> nx + ny * 84 \<and> nx + ny * 84 < 4032"
      using wrapped_coord [OF o] that r by simp
    have 3: "playerState w = onWall \<longrightarrow>
              playerSpeed (wallHitDetection w) = \<lparr>pos_x = 0, pos_y = 0\<rparr>"
      using wallHitDetection_outside [OF n o] by blast
    from 1 2 3 show "(if 0 \<le> nx + ny * GRID_WIDTH \<and> nx + ny * GRID_WIDTH < 4032
         then playerNextCell w =
                cellAt (gridRef w) ((nx + ny * GRID_WIDTH) mod GRID_WIDTH +
                                    (nx + ny * GRID_WIDTH) div GRID_WIDTH * GRID_WIDTH)
              \<and> inGrid ((nx + ny * GRID_WIDTH) mod GRID_WIDTH) ((nx + ny * GRID_WIDTH) div GRID_WIDTH)
              \<and> (nx + ny * GRID_WIDTH) div GRID_WIDTH \<noteq> ny
         else playerNextCell w = None)
        \<and> (playerState w = onWall \<longrightarrow>
              playerSpeed (wallHitDetection w) = \<lparr>pos_x = 0, pos_y = 0\<rparr>)"
    proof (cases "0 \<le> nx + ny * 84 \<and> nx + ny * 84 < 4032")
      case True
      show ?thesis unfolding if_P [OF True] using 2 [OF True] 3 by blast
    next
      case False
      show ?thesis unfolding if_not_P [OF False] using 1 [OF False] 3 by blast
    qed
  qed
  from a b c d p show ?thesis by blast
qed

lemma cell_0_47: "cellAt createInitialGrid 3948 = Some CELL_EMPTY"
  using cellAt_createInitialGrid [of 0 47] by (simp add: inGrid_def onBorder_def)

lemma cell_past_end: "cellAt createInitialGrid 4080 = None"
  by (simp add: cellAt_def)

text \<open>
  The claim as stated fails for the unchecked reads of the game loop. With the player on
  the right border at \<open>(83, 46)\<close> and moving right, the next cell \<open>(84, 46)\<close> is
  outside the grid and the read lands on cell \<open>(0, 47)\<close> of the next row, which is
  EMPTY; at the start position, moving down, the read of \<open>(48, 48)\<close> is past the end
  of the array and is undefined.
\<close>

theorem out_of_bounds_read_counterexample:
  "\<not> inGrid 84 46
   \<and> playerNextCell (initialWorld\<lparr>playerPos := \<lparr>pos_x = 83, pos_y = 46\<rparr>,
                                   playerSpeed := \<lparr>pos_x = 1, pos_y = 0\<rparr>\<rparr>) = Some CELL_EMPTY
   \<and> \<not> inGrid 48 48
   \<and> playerNextCell (initialWorld\<lparr>playerSpeed := \<lparr>pos_x = 0, pos_y = 1\<rparr>\<rparr>) = None"
  by (simp add: inGrid_def playerNextCell_def initialWorld_def cell_0_47 cell_past_end)

theorem isOnWall_out_of_bounds_witness:
  "isOnWall 84 46 createInitialGrid \<and> isOnWall 12 5 createInitialGrid
   \<and> \<not> isOnWall 20 5 createInitialGrid
   \<and> bounceEnemy createInitialGrid exampleEnemy =
       bounceEnemy (setCell createInitialGrid 0 CELL_WALL) exampleEnemy
   \<and> inEnemyBox (moveEnemy createInitialGrid exampleEnemy)
   \<and> inEnemyBox (placeEnemy (exampleDraw 0) exampleEnemy)
   \<and> playerNextCell (initialWorld\<lparr>playerPos := \<lparr>pos_x = 83, pos_y = 46\<rparr>,
                                   playerSpeed := \<lparr>pos_x = 1, pos_y = 0\<rparr>\<rparr>) =
       cellAt createInitialGrid (0 + 47 * GRID_WIDTH)
   \<and> playerSpeed (wallHitDetection (initialWorld\<lparr>playerPos := \<lparr>pos_x = 83, pos_y = 46\<rparr>,
                                   playerSpeed := \<lparr>pos_x = 1, pos_y = 0\<rparr>\<rparr>)) =
       \<lparr>pos_x = 0, pos_y = 0\<rparr>
   \<and> playerNextCell (initialWorld\<lparr>playerSpeed := \<lparr>pos_x = 0, pos_y = 1\<rparr>\<rparr>) = None
   \<and> playerSpeed (wallHitDetection (initialWorld\<lparr>playerSpeed := \<lparr>pos_x = 0, pos_y = 1\<rparr>\<rparr>)) =
       \<lparr>pos_x = 0, pos_y = 0\<rparr>"
proof -
  let ?w1 = "initialWorld\<lparr>playerPos := \<lparr>pos_x = 83, pos_y = 46\<rparr>,
                          playerSpeed := \<lparr>pos_x = 1, pos_y = 0\<rparr>\<rparr>"
  let ?w2 = "initialWorld\<lparr>playerSpeed := \<lparr>pos_x = 0, pos_y = 1\<rparr>\<rparr>"
  let ?e2 = "placeEnemy (exampleDraw 0) exampleEnemy"
  have n: "nextCoord ?w1 = (84, 46)" "nextCoord ?w2 = (48, 48)"
    "playerState ?w1 = onWall" "playerState ?w2 = onWall"
    "length (gridRef ?w1) = 4032" "length (gridRef ?w2) = 4032"
    by (simp_all add: nextCoord_def initialWorld_def)
  have g: "gridRef ?w1 = createInitialGrid" by (simp add: initialWorld_def)
  have b: "inEnemyBox exampleEnemy" by (simp add: inEnemyBox_def exampleEnemy_def)
  have s: "\<forall>i. drawInRange (exampleDraw i)"
    by (simp add: drawInRange_def exampleDraw_def)
  have re: "resetEnemies exampleDraw [exampleEnemy] = [?e2]"
    by (simp add: resetEnemies_def)
  have r: "\<forall>(bx, by) \<in> set (bounceReads exampleEnemy).
      cellAt createInitialGrid (bx + by * GRID_WIDTH) =
      cellAt (setCell createInitialGrid 0 CELL_WALL) (bx + by * GRID_WIDTH)"
    by (simp add: bounceReads_def exampleEnemy_def cellAt_setCell)
  note t1 = isOnWall_out_of_bounds [of 84 46 createInitialGrid exampleEnemy
          "setCell createInitialGrid 0 CELL_WALL" exampleDraw "[exampleEnemy]" ?w1 84 46]
  note t2 = isOnWall_out_of_bounds [of 12 5 createInitialGrid ?e2 createInitialGrid exampleDraw
          "[exampleEnemy]" ?w2 48 48]
  note t3 = isOnWall_out_of_bounds [of 20 5 createInitialGrid ?e2 createInitialGrid exampleDraw
          "[exampleEnemy]" ?w2 48 48]
  have o: "\<not> inGrid 84 46" "\<not> inGrid 48 48" "inGrid 12 5" "inGrid 20 5"
    by (simp_all add: inGrid_def)
  have a1: "isOnWall 84 46 createInitialGrid" using t1 o(1) by blast
  have a2: "isOnWall 12 5 createInitialGrid"
    using t2 o(3) cellAt_createInitialGrid [OF o(3)] by (simp add: onBorder_def)
  have a3: "\<not> isOnWall 20 5 createInitialGrid"
    using t3 o(4) cellAt_createInitialGrid [OF o(4)] by (simp add: onBorder_def)
  have a4: "bounceEnemy createInitialGrid exampleEnemy =
       bounceEnemy (setCell createInitialGrid 0 CELL_WALL) exampleEnemy"
    using t1 r by blast
  have a5: "inEnemyBox (moveEnemy createInitialGrid exampleEnemy)" using t1 b by blast
  have a6: "inEnemyBox ?e2" using t2 s by (simp add: re)
  have a7: "playerNextCell ?w1 = cellAt createInitialGrid (0 + 47 * GRID_WIDTH)"
    "playerSpeed (wallHitDetection ?w1) = \<lparr>pos_x = 0, pos_y = 0\<rparr>"
    using t1 n(1,3,5) o(1) by (simp_all add: g)
  have a8: "playerNextCell ?w2 = None"
    "playerSpeed (wallHitDetection ?w2) = \<lparr>pos_x = 0, pos_y = 0\<rparr>"
    using t2 n(2,4,6) o(2) by simp_all
  from a1 a2 a3 a4 a5 a6 a7 a8 show ?thesis by blast
qed

subsection \<open>Flood fill\<close>

lemma cellAt_Some_range: "cellAt g i = Some v \<Longrightarrow> 0 \<le> i \<and> i < int (length g)"
  by (simp add: cellAt_def split: if_splits)

lemma cellAt_setCell_same: "cellAt g i = Some v \<Longrightarrow> cellAt (setCell g i v') i = Some v'"
  using cellAt_Some_range [of g i v] by (simp add: cellAt_setCell)

lemma floodLoop_length [simp]:
  "length (snd (floodLoop fv es stack visited grid n)) = length grid"
  by (induction fv es stack visited grid n rule: floodLoop.induct) simp_all

lemma floodLoop_frame:
  "cellAt (snd (floodLoop fv es stack visited grid n)) i = cellAt grid i \<or>
   (cellAt grid i = Some CELL_EMPTY \<and>
    cellAt (snd (floodLoop fv es stack visited grid n)) i = Some fv)"
proof (induction fv es stack visited grid n rule: floodLoop.induct)
  case (1 fv es visited grid n)
  show ?case by simp
next
  case (2 fv es cx cy stack visited grid n)
  show ?case
  proof (cases "(cx, cy) \<in> set visited \<or> cx < PLAY_AREA_LEFT \<or> cx \<ge> PLAY_AREA_RIGHT \<or>
              cy < PLAY_AREA_TOP \<or> cy \<ge> PLAY_AREA_BOTTOM \<or>
              cellAt grid (cx + cy * GRID_WIDTH) \<noteq> Some CELL_EMPTY")
    case True
    with 2 show ?thesis by auto
  next
    case False
    let ?g1 = "setCell grid (cx + cy * GRID_WIDTH) fv"
    let ?r = "floodLoop fv es (pushNeighbours ?g1 cx cy stack) ((cx, cy) # visited) ?g1
                (n + nearEnemies es cx cy)"
    have eq: "floodLoop fv es ((cx, cy) # stack) visited grid n = ?r"
      using False by simp
    have ih: "cellAt (snd ?r) i = cellAt ?g1 i \<or>
              (cellAt ?g1 i = Some CELL_EMPTY \<and> cellAt (snd ?r) i = Some fv)"
      using 2(4) False by simp
    show ?thesis
    proof (cases "i = cx + cy * GRID_WIDTH")
      case True
      with False have "cellAt grid i = Some CELL_EMPTY" by simp
      moreover from this have "cellAt ?g1 i = Some fv"
        using True by (simp add: cellAt_setCell_same)
      ultimately show ?thesis using ih unfolding eq by auto
    next
      case False
      then have "cellAt ?g1 i = cellAt grid i" by (simp add: cellAt_setCell)
      then show ?thesis using ih unfolding eq by simp
    qed
  qed
qed

lemma floodLoop_keeps:
  assumes "cellAt grid i \<noteq> Some CELL_EMPTY"
  shows "cellAt (snd (floodLoop fv es stack visited grid n)) i = cellAt grid i"
  using floodLoop_frame [of fv es stack visited grid n i] assms by auto

lemma finite_filledCells [simp]: "finite (filledCells before after fv)"
proof -
  have "filledCells before after fv \<subseteq> playArea" by (auto simp: filledCells_def)
  moreover have "finite playArea" by (simp add: playArea_def)
  ultimately show ?thesis by (rule finite_subset)
qed

lemma floodLoop_count:
  assumes "fv \<noteq> CELL_EMPTY"
  shows "fst (floodLoop fv es stack visited grid n) =
           n + (\<Sum>(cx, cy) \<in> filledCells grid (snd (floodLoop fv es stack visited grid n)) fv.
                  nearEnemies es cx cy)"
  using assms
proof (induction fv es stack visited grid n rule: floodLoop.induct)
  case (1 fv es visited grid n)
  then have "filledCells grid grid fv = {}" by (auto simp: filledCells_def)
  then show ?case by simp
next
  case (2 fv es cx cy stack visited grid n)
  show ?case
  proof (cases "(cx, cy) \<in> set visited \<or> cx < PLAY_AREA_LEFT \<or> cx \<ge> PLAY_AREA_RIGHT \<or>
              cy < PLAY_AREA_TOP \<or> cy \<ge> PLAY_AREA_BOTTOM \<or>
              cellAt grid (cx + cy * GRID_WIDTH) \<noteq> Some CELL_EMPTY")
    case True
    with 2 show ?thesis by auto
  next
    case False
    let ?i = "cx + cy * GRID_WIDTH"
    let ?g1 = "setCell grid ?i fv"
    let ?r = "floodLoop fv es (pushNeighbours ?g1 cx cy stack) ((cx, cy) # visited) ?g1
                (n + nearEnemies es cx cy)"
    have eq: "floodLoop fv es ((cx, cy) # stack) visited grid n = ?r"
      using False by simp
    have ih: "fst ?r = n + nearEnemies es cx cy +
                (\<Sum>(cx, cy) \<in> filledCells ?g1 (snd ?r) fv. nearEnemies es cx cy)"
      using 2(4) 2(5) False by simp
    have empty: "cellAt grid ?i = Some CELL_EMPTY" using False by simp
    then have g1i: "cellAt ?g1 ?i = Some fv"
      by (rule cellAt_setCell_same)
    then have ri: "cellAt (snd ?r) ?i = Some fv"
      using floodLoop_keeps [of ?g1 ?i fv] 2(5) by simp
    have inPlay: "(cx, cy) \<in> playArea" using False by (auto simp: playArea_def)
    have other: "cellAt ?g1 (x + y * GRID_WIDTH) = cellAt grid (x + y * GRID_WIDTH)"
      if "(x, y) \<in> playArea" "(x, y) \<noteq> (cx, cy)" for x y
    proof -
      have "x + y * 84 \<noteq> cx + cy * 84"
        using idx_unique [of x cx y cy] that inPlay by (auto simp: playArea_def)
      then show ?thesis by (simp add: cellAt_setCell)
    qed
    have split: "filledCells grid (snd ?r) fv = insert (cx, cy) (filledCells ?g1 (snd ?r) fv)"
    proof (rule set_eqI)
      fix p :: "int \<times> int"
      obtain x y where p: "p = (x, y)" by (cases p)
      show "p \<in> filledCells grid (snd ?r) fv \<longleftrightarrow> p \<in> insert (cx, cy) (filledCells ?g1 (snd ?r) fv)"
      proof (cases "p = (cx, cy)")
        case True
        then show ?thesis using inPlay empty ri by (simp add: filledCells_def)
      next
        case False
        then show ?thesis using other [of x y] p by (auto simp: filledCells_def)
      qed
    qed
    have notin: "(cx, cy) \<notin> filledCells ?g1 (snd ?r) fv"
      using g1i 2(5) by (simp add: filledCells_def)
    show ?thesis unfolding eq ih split using notin by simp
  qed
qed

subsection \<open>The commit loop\<close>

lemma foldl_rows:
  "foldl (\<lambda>acc y. foldl (\<lambda>acc x. f acc (h x y)) acc xs) a ys =
     foldl f a (concat (map (\<lambda>y. map (\<lambda>x. h x y) xs) ys))"
  by (induction ys arbitrary: a) (simp_all add: foldl_map)

lemma commitCell_length [simp]:
  "length (fst (commitCell gc a b acc i)) = length (fst acc)"
  by (cases acc) (simp add: commitCell_def)

lemma commitCell_other:
  "j \<noteq> i \<Longrightarrow> cellAt (fst (commitCell gc a b acc i)) j = cellAt (fst acc) j"
  by (cases acc) (simp add: commitCell_def cellAt_setCell)

lemma commitCell_same:
  "cellAt (fst (commitCell gc a b acc i)) i = commitValue (fst acc) gc a b i"
proof (cases acc)
  case (Pair g n)
  show ?thesis
  proof (cases "cellAt g i")
    case None
    then show ?thesis using Pair
      by (auto simp: commitCell_def commitValue_def cellAt_setCell cellAt_def split: if_splits)
  next
    case (Some v)
    then have "0 \<le> i \<and> i < int (length g)" by (rule cellAt_Some_range)
    then show ?thesis using Pair Some
      by (simp add: commitCell_def commitValue_def cellAt_setCell)
  qed
qed

lemma commit_foldl_length [simp]:
  "length (fst (foldl (commitCell gc a b) acc is)) = length (fst acc)"
  by (induction "is" arbitrary: acc) simp_all

lemma commit_foldl_other:
  "j \<notin> set is \<Longrightarrow> cellAt (fst (foldl (commitCell gc a b) acc is)) j = cellAt (fst acc) j"
  by (induction "is" arbitrary: acc) (auto simp: commitCell_other)

lemma commit_foldl_cell:
  assumes "distinct is" "j \<in> set is"
  shows "cellAt (fst (foldl (commitCell gc a b) acc is)) j = commitValue (fst acc) gc a b j"
  using assms
proof (induction "is" arbitrary: acc)
  case Nil
  then show ?case by simp
next
  case (Cons i "is")
  show ?case
  proof (cases "j = i")
    case True
    with Cons.prems have "j \<notin> set is" by simp
    then show ?thesis using True by (simp add: commit_foldl_other commitCell_same)
  next
    case False
    with Cons.prems have "j \<in> set is" "distinct is" by simp_all
    then have "cellAt (fst (foldl (commitCell gc a b) (commitCell gc a b acc i) is)) j =
        commitValue (fst (commitCell gc a b acc i)) gc a b j"
      by (rule Cons.IH [rotated])
    also have "\<dots> = commitValue (fst acc) gc a b j"
      using False by (simp add: commitValue_def commitCell_other)
    finally show ?thesis by simp
  qed
qed

lemma allIdx_map:
  "concat (map (\<lambda>y. map (\<lambda>x. x + y * 84) [0 .. 83]) [0 .. 47]) =
     map (\<lambda>p. fst p + snd p * 84) (concat (map (\<lambda>y. map (\<lambda>x. (x, y)) [0 .. 83]) [(0::int) .. 47]))"
  by (simp only: map_concat map_map comp_def fst_conv snd_conv)

lemma allIdx_distinct:
  "distinct (concat (map (\<lambda>y. map (\<lambda>x. x + y * 84) [0 .. 83]) [(0::int) .. 47]))"
proof -
  have "inj_on (\<lambda>p. fst p + snd p * 84) ({0 .. 83} \<times> {0 .. 47} :: (int \<times> int) set)"
    by (rule inj_onI) (use idx_unique in \<open>force simp: atLeastAtMost_iff\<close>)
  moreover have "distinct (concat (map (\<lambda>y. map (\<lambda>x. (x, y)) [0 .. 83]) [(0::int) .. 47]))"
    by (rule distinct_rows) (simp_all only: distinct_upto)
  ultimately show ?thesis
    unfolding allIdx_map by (simp only: distinct_map set_rows set_upto simp_thms)
qed

lemma allIdx_set:
  "set (concat (map (\<lambda>y. map (\<lambda>x. x + y * 84) [0 .. 83]) [(0::int) .. 47])) = {0 ..< 4032}"
proof -
  have "(\<lambda>p. fst p + snd p * 84) ` ({0 .. 83} \<times> {0 .. 47}) = {0 ..< (4032::int)}"
  proof (rule set_eqI, rule iffI)
    fix i :: int
    assume "i \<in> (\<lambda>p. fst p + snd p * 84) ` ({0 .. 83} \<times> {0 .. 47})"
    then show "i \<in> {0 ..< 4032}" by auto
  next
    fix i :: int
    assume "i \<in> {0 ..< 4032}"
    then have "i = fst (i mod 84, i div 84) + snd (i mod 84, i div 84) * 84"
      "(i mod 84, i div 84) \<in> {0 .. 83} \<times> {0 .. 47}"
      by auto
    then show "i \<in> (\<lambda>p. fst p + snd p * 84) ` ({0 .. 83} \<times> {0 .. 47})" by (rule image_eqI)
  qed
  then show ?thesis unfolding allIdx_map by (simp only: set_map set_rows set_upto)
qed

lemma applyFill_flat:
  "applyFill g gc a b =
     foldl (commitCell gc a b) (g, 0)
       (concat (map (\<lambda>y. map (\<lambda>x. x + y * 84) [0 .. 83]) [(0::int) .. 47]))"
proof -
  have n: "(84::int) - 1 = 83" "(48::int) - 1 = 47" by simp_all
  show ?thesis
    unfolding applyFill_def n
    by (rule foldl_rows [of "commitCell gc a b" "\<lambda>x y. x + y * 84"])
qed

lemma applyFill_length [simp]: "length (fst (applyFill g gc a b)) = length g"
  unfolding applyFill_flat by (simp only: commit_foldl_length fst_conv)

lemma applyFill_cell:
  assumes "length g = 4032"
  shows "cellAt (fst (applyFill g gc a b)) i = commitValue g gc a b i"
proof (cases "i \<in> {0 ..< 4032}")
  case True
  then have "i \<in> set (concat (map (\<lambda>y. map (\<lambda>x. x + y * 84) [0 .. 83]) [(0::int) .. 47]))"
    by (simp only: allIdx_set)
  then have "cellAt (fst (foldl (commitCell gc a b) (g, 0)
        (concat (map (\<lambda>y. map (\<lambda>x. x + y * 84) [0 .. 83]) [(0::int) .. 47])))) i
      = commitValue (fst (g, 0 :: int)) gc a b i"
    by (rule commit_foldl_cell [OF allIdx_distinct])
  then show ?thesis unfolding applyFill_flat by (simp only: fst_conv)
next
  case False
  then have "cellAt g i = None" using assms by (auto simp: cellAt_def)
  moreover from False have "cellAt (fst (applyFill g gc a b)) i = None"
    using assms by (auto simp: cellAt_def)
  ultimately show ?thesis by (simp add: commitValue_def)
qed

subsection \<open>The capture sequence\<close>

lemma validGrid_cell:
  assumes "validGrid g" "cellAt g i = Some v"
  shows "v = CELL_EMPTY \<or> v = CELL_WALL \<or> v = CELL_TRAIL"
proof -
  from assms(2) have "0 \<le> i" "i < int (length g)" "g ! nat i = v"
    by (auto simp: cellAt_def split: if_splits)
  then have "v \<in> set g" by (metis nat_less_iff nth_mem)
  with assms(1) show ?thesis by (auto simp: validGrid_def)
qed

lemma floodFill_length [simp]: "length (snd (floodFill x y fv g es)) = length g"
  by (simp add: floodFill_def)

lemma floodFill_frame:
  "cellAt (snd (floodFill x y fv g es)) i = cellAt g i \<or>
   (cellAt g i = Some CELL_EMPTY \<and> cellAt (snd (floodFill x y fv g es)) i = Some fv)"
  unfolding floodFill_def by (rule floodLoop_frame)

lemma floodFill_keeps:
  "cellAt g i \<noteq> Some CELL_EMPTY \<Longrightarrow> cellAt (snd (floodFill x y fv g es)) i = cellAt g i"
  unfolding floodFill_def by (rule floodLoop_keeps)

lemma nearEnemies_nonneg: "0 \<le> nearEnemies es cx cy"
  by (simp add: nearEnemies_def)

lemma floodLoop_count_ge: "n \<le> fst (floodLoop fv es stack visited grid n)"
  by (induction fv es stack visited grid n rule: floodLoop.induct)
     (auto intro: order_trans [OF _ ] simp: nearEnemies_def)

lemma floodFill_nonneg: "0 \<le> fst (floodFill x y fv g es)"
  unfolding floodFill_def by (rule floodLoop_count_ge)

lemma seed_labelled:
  assumes "\<not> degenerateSeed g (x, y)" "fv \<noteq> CELL_EMPTY"
  shows "cellAt (snd (floodFill x y fv g es)) (x + y * GRID_WIDTH) = Some fv"
proof -
  let ?i = "x + y * GRID_WIDTH"
  from assms(1) have e: "cellAt g ?i = Some CELL_EMPTY" and
    b: "\<not> (x < PLAY_AREA_LEFT \<or> x \<ge> PLAY_AREA_RIGHT \<or> y < PLAY_AREA_TOP \<or> y \<ge> PLAY_AREA_BOTTOM)"
    by (auto simp: degenerateSeed_def isInPlayArea_def)
  have "floodFill x y fv g es =
      floodLoop fv es (pushNeighbours (setCell g ?i fv) x y []) [(x, y)] (setCell g ?i fv)
        (0 + nearEnemies es x y)"
    using e b by (simp add: floodFill_def)
  moreover have "cellAt (setCell g ?i fv) ?i = Some fv" using e by (rule cellAt_setCell_same)
  ultimately show ?thesis using assms(2) by (simp add: floodLoop_keeps)
qed

lemma fillSides_eq:
  "fillSides (gridRef w) (playerSpeed w) (pos_x (playerPos w)) (pos_y (playerPos w))
      (enemyPositionsOf w) = (fst (firstFill w), fst (secondFill w), snd (secondFill w))"
  by (simp add: fillSides_def firstFill_def secondFill_def firstSeed_def secondSeed_def
        split: prod.splits)

lemma label5_was_empty:
  assumes "validGrid (gridRef w)" "cellAt (snd (secondFill w)) i = Some 5"
  shows "cellAt (gridRef w) i = Some CELL_EMPTY \<and> cellAt (snd (firstFill w)) i = Some 5"
proof -
  have "cellAt (snd (firstFill w)) i = Some 5"
    using floodFill_frame [of "fst (secondSeed w)" "snd (secondSeed w)" 6 "snd (firstFill w)"
        "enemyPositionsOf w" i] assms(2)
    by (auto simp: secondFill_def)
  moreover from this have "cellAt (gridRef w) i = Some CELL_EMPTY"
    using floodFill_frame [of "fst (firstSeed w)" "snd (firstSeed w)" 5 "gridRef w"
        "enemyPositionsOf w" i] validGrid_cell [OF assms(1), of i 5]
    by (auto simp: firstFill_def)
  ultimately show ?thesis by simp
qed

lemma label6_was_empty:
  assumes "validGrid (gridRef w)" "cellAt (snd (secondFill w)) i = Some 6"
  shows "cellAt (gridRef w) i = Some CELL_EMPTY \<and> cellAt (snd (firstFill w)) i = Some CELL_EMPTY"
proof -
  have a: "cellAt (snd (firstFill w)) i \<noteq> Some 6"
    using floodFill_frame [of "fst (firstSeed w)" "snd (firstSeed w)" 5 "gridRef w"
        "enemyPositionsOf w" i] validGrid_cell [OF assms(1), of i 6]
    by (auto simp: firstFill_def)
  then have b: "cellAt (snd (firstFill w)) i = Some CELL_EMPTY"
    using floodFill_frame [of "fst (secondSeed w)" "snd (secondSeed w)" 6 "snd (firstFill w)"
        "enemyPositionsOf w" i] assms(2)
    by (auto simp: secondFill_def)
  then have "cellAt (gridRef w) i = Some CELL_EMPTY"
    using floodFill_frame [of "fst (firstSeed w)" "snd (firstSeed w)" 5 "gridRef w"
        "enemyPositionsOf w" i]
    by (auto simp: firstFill_def)
  with b show ?thesis by simp
qed

lemma captureGrid_length [simp]: "length (fst (captureGrid g sp cx cy es)) = length g"
  by (simp add: captureGrid_def split: prod.splits)
     (metis applyFill_length fst_conv)

lemma captureGrid_cell:
  assumes "length (gridRef w) = 4032"
  shows "cellAt (fst (captureGrid (gridRef w) (playerSpeed w) (pos_x (playerPos w))
            (pos_y (playerPos w)) (enemyPositionsOf w))) i =
         (if i = landingIdx w \<and> 0 \<le> i \<and> i < 4032 then Some CELL_WALL
          else commitValue (gridRef w) (snd (secondFill w))
                 (fillThisValue (fst (firstFill w)) (fst (secondFill w)))
                 (doNotFillThisValue (fst (firstFill w)) (fst (secondFill w))) i)"
proof -
  let ?a = "fillThisValue (fst (firstFill w)) (fst (secondFill w))"
  let ?b = "doNotFillThisValue (fst (firstFill w)) (fst (secondFill w))"
  let ?af = "applyFill (gridRef w) (snd (secondFill w)) ?a ?b"
  have "fst (captureGrid (gridRef w) (playerSpeed w) (pos_x (playerPos w))
            (pos_y (playerPos w)) (enemyPositionsOf w)) =
        setCell (fst ?af) (landingIdx w) CELL_WALL"
    by (simp add: captureGrid_def fillSides_eq landingIdx_def split: prod.splits)
  then show ?thesis
    using assms by (simp add: cellAt_setCell applyFill_cell)
qed

lemma capture_gridRef:
  "gridRef (capture w) = fst (captureGrid (gridRef w) (playerSpeed w) (pos_x (playerPos w))
            (pos_y (playerPos w)) (enemyPositionsOf w))"
  by (simp add: capture_def Let_def advanceLevel_def enemyPositionsOf_def split: prod.splits)

lemma capture_enemies:
  "enemies (capture w) = filter (\<lambda>e. \<not> enemyCaptured (gridRef (capture w)) e) (enemies w)"
proof -
  have "filter (\<lambda>e. \<not> P e) xs = xs" if "\<not> 0 < int (length (filter P xs))" for P and xs :: "Enemy list"
    using that by (simp add: filter_empty_conv)
  then show ?thesis
    by (auto simp: capture_def Let_def advanceLevel_def enemyPositionsOf_def split: prod.splits)
qed

lemma capture_cell:
  assumes "validGrid (gridRef w)"
  shows "cellAt (gridRef (capture w)) i =
         (if i = landingIdx w \<and> 0 \<le> i \<and> i < 4032 then Some CELL_WALL
          else commitValue (gridRef w) (snd (secondFill w))
                 (fillThisValue (fst (firstFill w)) (fst (secondFill w)))
                 (doNotFillThisValue (fst (firstFill w)) (fst (secondFill w))) i)"
  using assms captureGrid_cell [of w i] by (simp add: capture_gridRef validGrid_def)

lemma labelled_not_landing:
  assumes "validGrid (gridRef w)" "cellAt (gridRef w) (landingIdx w) = Some CELL_TRAIL"
    and "cellAt (snd (secondFill w)) i = Some 5 \<or> cellAt (snd (secondFill w)) i = Some 6"
  shows "i \<noteq> landingIdx w \<and> cellAt (gridRef w) i = Some CELL_EMPTY"
  using assms label5_was_empty [of w i] label6_was_empty [of w i] by auto

lemma capture_cell_labelled:
  assumes "validGrid (gridRef w)" "cellAt (gridRef w) (landingIdx w) = Some CELL_TRAIL"
    and "cellAt (snd (secondFill w)) i = Some l" "l = 5 \<or> l = 6"
  shows "cellAt (gridRef (capture w)) i =
           (if l = fillThisValue (fst (firstFill w)) (fst (secondFill w))
            then Some CELL_WALL else Some CELL_EMPTY)"
proof -
  have "i \<noteq> landingIdx w" "cellAt (gridRef w) i = Some CELL_EMPTY"
    using labelled_not_landing [OF assms(1,2), of i] assms(3,4) by auto
  then show ?thesis
    using assms(3,4)
    by (auto simp: capture_cell [OF assms(1)] commitValue_def fillThisValue_def
          doNotFillThisValue_def)
qed

text \<open>
  Claim C1, as amended. At a closure (the landing cell carries the trail) the commit
  turns into WALL the side whose flood fill reports an enemy occupancy less than or
  equal to the other side's: the second side (label 6) when \<open>fill1 \<ge> fill2\<close>, the first
  side (label 5) when \<open>fill1 < fill2\<close>; the cells of the other side are set to EMPTY.
  An enemy standing on a cell of the captured side is removed from the roster, an enemy
  standing on a cell of the released side stays in it.
\<close>

theorem capture_fills_less_occupied_side:
  assumes "validGrid (gridRef w)" and "cellAt (gridRef w) (landingIdx w) = Some CELL_TRAIL"
  shows "(fst (firstFill w) \<ge> fst (secondFill w) \<longrightarrow>
            (\<forall>i. cellAt (snd (secondFill w)) i = Some 6 \<longrightarrow>
                  cellAt (gridRef (capture w)) i = Some CELL_WALL) \<and>
            (\<forall>i. cellAt (snd (secondFill w)) i = Some 5 \<longrightarrow>
                  cellAt (gridRef (capture w)) i = Some CELL_EMPTY))
       \<and> (fst (firstFill w) < fst (secondFill w) \<longrightarrow>
            (\<forall>i. cellAt (snd (secondFill w)) i = Some 5 \<longrightarrow>
                  cellAt (gridRef (capture w)) i = Some CELL_WALL) \<and>
            (\<forall>i. cellAt (snd (secondFill w)) i = Some 6 \<longrightarrow>
                  cellAt (gridRef (capture w)) i = Some CELL_EMPTY))
       \<and> (\<forall>e \<in> set (enemies w).
            (cellAt (snd (secondFill w)) (enemyIdx e) =
               Some (fillThisValue (fst (firstFill w)) (fst (secondFill w)))
             \<longrightarrow> e \<notin> set (enemies (capture w))) \<and>
            (cellAt (snd (secondFill w)) (enemyIdx e) =
               Some (doNotFillThisValue (fst (firstFill w)) (fst (secondFill w)))
             \<longrightarrow> e \<in> set (enemies (capture w))))"
proof -
  note cl = capture_cell_labelled [OF assms]
  have a: "fst (firstFill w) \<ge> fst (secondFill w) \<longrightarrow>
            (\<forall>i. cellAt (snd (secondFill w)) i = Some 6 \<longrightarrow>
                  cellAt (gridRef (capture w)) i = Some CELL_WALL) \<and>
            (\<forall>i. cellAt (snd (secondFill w)) i = Some 5 \<longrightarrow>
                  cellAt (gridRef (capture w)) i = Some CELL_EMPTY)"
    using cl [of _ 5] cl [of _ 6] by (simp add: fillThisValue_def)
  have b: "fst (firstFill w) < fst (secondFill w) \<longrightarrow>
            (\<forall>i. cellAt (snd (secondFill w)) i = Some 5 \<longrightarrow>
                  cellAt (gridRef (capture w)) i = Some CELL_WALL) \<and>
            (\<forall>i. cellAt (snd (secondFill w)) i = Some 6 \<longrightarrow>
                  cellAt (gridRef (capture w)) i = Some CELL_EMPTY)"
    using cl [of _ 5] cl [of _ 6] by (simp add: fillThisValue_def)
  have c: "\<forall>e \<in> set (enemies w).
            (cellAt (snd (secondFill w)) (enemyIdx e) =
               Some (fillThisValue (fst (firstFill w)) (fst (secondFill w)))
             \<longrightarrow> e \<notin> set (enemies (capture w))) \<and>
            (cellAt (snd (secondFill w)) (enemyIdx e) =
               Some (doNotFillThisValue (fst (firstFill w)) (fst (secondFill w)))
             \<longrightarrow> e \<in> set (enemies (capture w)))"
  proof (intro ballI conjI impI)
    fix e assume e: "e \<in> set (enemies w)"
    { assume "cellAt (snd (secondFill w)) (enemyIdx e) =
               Some (fillThisValue (fst (firstFill w)) (fst (secondFill w)))"
      then have "cellAt (gridRef (capture w)) (enemyIdx e) = Some CELL_WALL"
        using cl [of "enemyIdx e" "fillThisValue (fst (firstFill w)) (fst (secondFill w))"]
        by (simp add: fillThisValue_def split: if_splits)
      then show "e \<notin> set (enemies (capture w))"
        by (simp add: capture_enemies enemyCaptured_def enemyIdx_def) }
    { assume "cellAt (snd (secondFill w)) (enemyIdx e) =
               Some (doNotFillThisValue (fst (firstFill w)) (fst (secondFill w)))"
      then have "cellAt (gridRef (capture w)) (enemyIdx e) = Some CELL_EMPTY"
        using cl [of "enemyIdx e" "doNotFillThisValue (fst (firstFill w)) (fst (secondFill w))"]
        by (simp add: fillThisValue_def doNotFillThisValue_def split: if_splits)
      then show "e \<in> set (enemies (capture w))"
        using e by (simp add: capture_enemies enemyCaptured_def enemyIdx_def) }
  qed
  from a b c show ?thesis by blast
qed

text \<open>
  Claim C2, as amended. When the two fills report the same enemy occupancy (zero
  included), the captured side is the second one, grown from the second seed, which
  lies below the landing cell when the player moves horizontally and to its right when
  the player moves vertically: its cells become WALL and the cells of the first side
  (grown from the seed above, or to the left) become EMPTY. In particular the first
  seed's cell stays EMPTY, and the second seed's cell, when the first fill has not
  reached it, becomes WALL. The grid after the commit is determined by the grid, the
  player's position and speed (hence the seeds) and the enemies: two states that agree
  on these give the same grid.
\<close>

theorem tie_captures_second_side:
  assumes "validGrid (gridRef w)" and "cellAt (gridRef w) (landingIdx w) = Some CELL_TRAIL"
    and "fst (firstFill w) = fst (secondFill w)"
  shows "firstSeed w = (if pos_x (playerSpeed w) \<noteq> 0
                        then (pos_x (playerPos w), pos_y (playerPos w) - 1)
                        else (pos_x (playerPos w) - 1, pos_y (playerPos w)))
       \<and> secondSeed w = (if pos_x (playerSpeed w) \<noteq> 0
                        then (pos_x (playerPos w), pos_y (playerPos w) + 1)
                        else (pos_x (playerPos w) + 1, pos_y (playerPos w)))
       \<and> (\<forall>i. cellAt (snd (secondFill w)) i = Some 6 \<longrightarrow>
                cellAt (gridRef (capture w)) i = Some CELL_WALL)
       \<and> (\<forall>i. cellAt (snd (secondFill w)) i = Some 5 \<longrightarrow>
                cellAt (gridRef (capture w)) i = Some CELL_EMPTY)
       \<and> (\<not> degenerateSeed (gridRef w) (firstSeed w) \<longrightarrow>
            cellAt (gridRef (capture w)) (fst (firstSeed w) + snd (firstSeed w) * GRID_WIDTH)
              = Some CELL_EMPTY)
       \<and> (\<not> degenerateSeed (snd (firstFill w)) (secondSeed w) \<longrightarrow>
            cellAt (gridRef (capture w)) (fst (secondSeed w) + snd (secondSeed w) * GRID_WIDTH)
              = Some CELL_WALL)
       \<and> (gridRef w' = gridRef w \<and> playerPos w' = playerPos w \<and>
          playerSpeed w' = playerSpeed w \<and> enemies w' = enemies w \<longrightarrow>
            gridRef (capture w') = gridRef (capture w))"
proof -
  note cl = capture_cell_labelled [OF assms(1,2)]
  have ft: "fillThisValue (fst (firstFill w)) (fst (secondFill w)) = 6"
    using assms(3) by (simp add: fillThisValue_def)
  have s5: "cellAt (snd (secondFill w)) (fst (firstSeed w) + snd (firstSeed w) * GRID_WIDTH) = Some 5"
    if "\<not> degenerateSeed (gridRef w) (firstSeed w)"
  proof -
    have "cellAt (snd (firstFill w)) (fst (firstSeed w) + snd (firstSeed w) * GRID_WIDTH) = Some 5"
      unfolding firstFill_def using that by (intro seed_labelled) simp_all
    then show ?thesis unfolding secondFill_def by (simp add: floodFill_keeps)
  qed
  have s6: "cellAt (snd (secondFill w)) (fst (secondSeed w) + snd (secondSeed w) * GRID_WIDTH) = Some 6"
    if "\<not> degenerateSeed (snd (firstFill w)) (secondSeed w)"
    unfolding secondFill_def using that by (intro seed_labelled) simp_all
  have det: "gridRef w' = gridRef w \<and> playerPos w' = playerPos w \<and>
          playerSpeed w' = playerSpeed w \<and> enemies w' = enemies w \<longrightarrow>
            gridRef (capture w') = gridRef (capture w)"
    by (simp add: capture_gridRef enemyPositionsOf_def)
  show ?thesis
    using cl [of _ 5] cl [of _ 6] s5 s6 det
    by (simp add: ft firstSeed_def secondSeed_def seedA_def seedB_def)
qed

text \<open>
  The end of the capture sequence: below the win threshold the mode is set to onWall; at
  or above it \<open>advanceLevel\<close> is called and the function returns with the mode
  untouched.
\<close>

lemma capture_mode:
  "(calculatePercentage (gridRef (capture w)) < WIN_PERCENTAGE \<longrightarrow>
      playerState (capture w) = onWall \<and> status (gameState (capture w)) = status (gameState w))
   \<and> (calculatePercentage (gridRef (capture w)) \<ge> WIN_PERCENTAGE \<longrightarrow>
      playerState (capture w) = playerState w \<and>
      status (gameState (capture w)) = levelAnnounce \<and>
      playerState (advanceLevelTimeout fresh rnd (capture w)) = onWall)"
  by (auto simp: capture_def Let_def advanceLevel_def advanceLevelTimeout_def split: prod.splits)

subsection \<open>Concrete closures\<close>

lemma length_scenGrid [simp]: "length (scenGrid far t p) = 4032"
  by (simp add: scenGrid_def del: upto.simps upto_rec_numeral)

lemma cellAt_scenGrid:
  assumes "0 \<le> i" "i < 4032"
  shows "cellAt (scenGrid far t p) i = Some (scenCell far t p (i mod 84) (i div 84))"
proof -
  from assms have "[0 .. 4031] ! nat i = i" by (subst nth_upto) auto
  with assms show ?thesis
    by (simp add: cellAt_def scenGrid_def del: upto.simps upto_rec_numeral)
qed

lemma validGrid_scenGrid: "validGrid (scenGrid far t p)"
  by (auto simp: validGrid_def scenGrid_def scenCell_def simp del: upto.simps upto_rec_numeral)

lemma length_labelCells [simp]: "length (labelCells g v cells) = length g"
  unfolding labelCells_def by (rule length_foldl_setCell)

lemma labelCells_Cons: "labelCells g v (c # cells) = labelCells (setCell g (fst c + snd c * 84) v) v cells"
  by (simp add: labelCells_def)

lemma labelCells_Nil: "labelCells g v [] = g"
  by (simp add: labelCells_def)

lemma cellAt_labelCells:
  "cellAt (labelCells g v cells) i =
     (if i \<in> (\<lambda>p. fst p + snd p * 84) ` set cells \<and> 0 \<le> i \<and> i < int (length g) then Some v
      else cellAt g i)"
  unfolding labelCells_def using cellAt_foldl_setCell [of "\<lambda>p. fst p + snd p * 84" v g cells i]
  by simp

lemmas scen_defs = scenWorld_def trailA_def pocketA_def enemyAt_def
  sideACells_def sideBCells_def

lemmas fill_eval = firstFill_def secondFill_def firstSeed_def secondSeed_def seedA_def seedB_def
  enemyPositionsOf_def floodFill_def pushNeighbours_def Let_def cellAt_setCell length_setCell
  cellAt_scenGrid scenCell_def nearEnemies_def labelCells_Cons labelCells_Nil

lemma fills_tie:
  "firstFill (scenWorld 30 pocketA []) = (0, labelCells (scenGrid 30 trailA pocketA) 5 sideACells)"
  "secondFill (scenWorld 30 pocketA []) =
     (0, labelCells (labelCells (scenGrid 30 trailA pocketA) 5 sideACells) 6 sideBCells)"
  by (simp_all add: scen_defs fill_eval)

lemma fills_one:
  "firstFill (scenWorld 30 pocketA [enemyAt 41 18]) =
     (9, labelCells (scenGrid 30 trailA pocketA) 5 sideACells)"
  "secondFill (scenWorld 30 pocketA [enemyAt 41 18]) =
     (0, labelCells (labelCells (scenGrid 30 trailA pocketA) 5 sideACells) 6 sideBCells)"
  by (simp_all add: scen_defs fill_eval)

lemma fills_two:
  "firstFill (scenWorld 30 pocketA [enemyAt 41 18, enemyAt 40 21, enemyAt 42 21]) =
     (9, labelCells (scenGrid 30 trailA pocketA) 5 sideACells)"
  "secondFill (scenWorld 30 pocketA [enemyAt 41 18, enemyAt 40 21, enemyAt 42 21]) =
     (4, labelCells (labelCells (scenGrid 30 trailA pocketA) 5 sideACells) 6 sideBCells)"
  by (simp_all add: scen_defs fill_eval)

lemma fills_below:
  "firstFill (scenWorld 30 pocketA [enemyAt 41 21]) =
     (0, labelCells (scenGrid 30 trailA pocketA) 5 sideACells)"
  "secondFill (scenWorld 30 pocketA [enemyAt 41 21]) =
     (3, labelCells (labelCells (scenGrid 30 trailA pocketA) 5 sideACells) 6 sideBCells)"
  by (simp_all add: scen_defs fill_eval)

lemma scen_valid: "validGrid (gridRef (scenWorld far p es))"
  by (simp add: scenWorld_def validGrid_scenGrid)

lemma scen_landing:
  "cellAt (gridRef (scenWorld 30 p es)) (landingIdx (scenWorld 30 p es)) = Some CELL_TRAIL"
  by (simp add: scenWorld_def landingIdx_def cellAt_scenGrid scenCell_def trailA_def)

lemmas cell_eval = capture_cell [OF scen_valid] commitValue_def fillThisValue_def
  doNotFillThisValue_def

lemmas cell_eval2 = scen_defs cellAt_labelCells cellAt_scenGrid scenCell_def landingIdx_def
  enemyIdx_def

text \<open>
  The claim as stated fails. One enemy stands in the block above the trail, none below:
  the first fill reports 9, the second 0. The commit turns the row below into WALL and
  leaves the block above EMPTY, and the enemy stays in the roster.
\<close>

theorem capture_side_counterexample:
  "fst (firstFill (scenWorld 30 pocketA [enemyAt 41 18])) = 9
   \<and> fst (secondFill (scenWorld 30 pocketA [enemyAt 41 18])) = 0
   \<and> cellAt (snd (secondFill (scenWorld 30 pocketA [enemyAt 41 18]))) (enemyIdx (enemyAt 41 18)) = Some 5
   \<and> cellAt (gridRef (capture (scenWorld 30 pocketA [enemyAt 41 18]))) (41 + 18 * 84) = Some CELL_EMPTY
   \<and> cellAt (gridRef (capture (scenWorld 30 pocketA [enemyAt 41 18]))) (42 + 19 * 84) = Some CELL_EMPTY
   \<and> cellAt (gridRef (capture (scenWorld 30 pocketA [enemyAt 41 18]))) (42 + 21 * 84) = Some CELL_WALL
   \<and> enemies (capture (scenWorld 30 pocketA [enemyAt 41 18])) = [enemyAt 41 18]"
proof -
  let ?w = "scenWorld 30 pocketA [enemyAt 41 18]"
  have c: "cellAt (gridRef (capture ?w)) (41 + 18 * 84) = Some CELL_EMPTY"
    by (simp add: cell_eval fills_one) (simp add: cell_eval2)
  have "enemies (capture ?w) = [enemyAt 41 18]"
    using c by (simp add: capture_enemies enemyCaptured_def) (simp add: cell_eval2)
  moreover have "cellAt (gridRef (capture ?w)) (42 + 19 * 84) = Some CELL_EMPTY"
    by (simp add: cell_eval fills_one) (simp add: cell_eval2)
  moreover have "cellAt (gridRef (capture ?w)) (42 + 21 * 84) = Some CELL_WALL"
    by (simp add: cell_eval fills_one) (simp add: cell_eval2)
  moreover have "cellAt (snd (secondFill ?w)) (enemyIdx (enemyAt 41 18)) = Some 5"
    by (simp add: cell_eval fills_one) (simp add: cell_eval2)
  ultimately show ?thesis using c by (simp add: fills_one)
qed

theorem capture_fills_less_occupied_side_witness:
  "cellAt (gridRef (capture (scenWorld 30 pocketA [enemyAt 41 18]))) (42 + 21 * 84) = Some CELL_WALL
   \<and> cellAt (gridRef (capture (scenWorld 30 pocketA [enemyAt 41 18]))) (41 + 18 * 84) = Some CELL_EMPTY
   \<and> enemyAt 41 18 \<in> set (enemies (capture (scenWorld 30 pocketA [enemyAt 41 18])))
   \<and> cellAt (gridRef (capture (scenWorld 30 pocketA [enemyAt 41 21]))) (41 + 18 * 84) = Some CELL_WALL
   \<and> cellAt (gridRef (capture (scenWorld 30 pocketA [enemyAt 41 21]))) (41 + 21 * 84) = Some CELL_EMPTY
   \<and> enemyAt 41 21 \<in> set (enemies (capture (scenWorld 30 pocketA [enemyAt 41 21])))"
proof -
  let ?w1 = "scenWorld 30 pocketA [enemyAt 41 18]"
  let ?w2 = "scenWorld 30 pocketA [enemyAt 41 21]"
  note th1 = capture_fills_less_occupied_side [OF scen_valid scen_landing, of pocketA "[enemyAt 41 18]"]
  note th2 = capture_fills_less_occupied_side [OF scen_valid scen_landing, of pocketA "[enemyAt 41 21]"]
  have e1: "enemyAt 41 18 \<in> set (enemies ?w1)" "enemyIdx (enemyAt 41 18) = 41 + 18 * 84"
    and e2: "enemyAt 41 21 \<in> set (enemies ?w2)" "enemyIdx (enemyAt 41 21) = 41 + 21 * 84"
    by (simp_all add: scenWorld_def enemyIdx_def enemyAt_def)
  have l1: "cellAt (snd (secondFill ?w1)) (42 + 21 * 84) = Some 6"
           "cellAt (snd (secondFill ?w1)) (41 + 18 * 84) = Some 5"
    by (simp_all add: fills_one) (simp_all add: cell_eval2)
  have l2: "cellAt (snd (secondFill ?w2)) (41 + 18 * 84) = Some 5"
           "cellAt (snd (secondFill ?w2)) (41 + 21 * 84) = Some 6"
    by (simp_all add: fills_below) (simp_all add: cell_eval2)
  have f1: "fst (firstFill ?w1) \<ge> fst (secondFill ?w1)"
           "doNotFillThisValue (fst (firstFill ?w1)) (fst (secondFill ?w1)) = 5"
    by (simp_all add: fills_one doNotFillThisValue_def)
  have f2: "fst (firstFill ?w2) < fst (secondFill ?w2)"
           "doNotFillThisValue (fst (firstFill ?w2)) (fst (secondFill ?w2)) = 6"
    by (simp_all add: fills_below doNotFillThisValue_def)
  from th1 f1(1) l1 have a: "cellAt (gridRef (capture ?w1)) (42 + 21 * 84) = Some CELL_WALL"
    "cellAt (gridRef (capture ?w1)) (41 + 18 * 84) = Some CELL_EMPTY" by blast+
  from th1 e1 l1(2) f1(2) have b: "enemyAt 41 18 \<in> set (enemies (capture ?w1))" by metis
  from th2 f2(1) l2 have c: "cellAt (gridRef (capture ?w2)) (41 + 18 * 84) = Some CELL_WALL"
    "cellAt (gridRef (capture ?w2)) (41 + 21 * 84) = Some CELL_EMPTY" by blast+
  from th2 e2 l2(2) f2(2) have d: "enemyAt 41 21 \<in> set (enemies (capture ?w2))" by metis
  from a b c d show ?thesis by simp
qed

text \<open>
  The claim as stated fails. With no enemy on either side both fills report 0. The first
  seed is the cell above the landing cell, an EMPTY cell of the play area; after the
  commit it is still EMPTY, while the cell below the landing cell, the second seed, is
  WALL.
\<close>

theorem tie_break_counterexample:
  "fst (firstFill (scenWorld 30 pocketA [])) = fst (secondFill (scenWorld 30 pocketA []))
   \<and> playerPos (scenWorld 30 pocketA []) = \<lparr>pos_x = 42, pos_y = 20\<rparr>
   \<and> firstSeed (scenWorld 30 pocketA []) = (42, 19)
   \<and> \<not> degenerateSeed (gridRef (scenWorld 30 pocketA [])) (firstSeed (scenWorld 30 pocketA []))
   \<and> cellAt (gridRef (capture (scenWorld 30 pocketA []))) (42 + 19 * 84) = Some CELL_EMPTY
   \<and> cellAt (gridRef (capture (scenWorld 30 pocketA []))) (42 + 21 * 84) = Some CELL_WALL"
proof -
  let ?w = "scenWorld 30 pocketA []"
  have "cellAt (gridRef (capture ?w)) (42 + 19 * 84) = Some CELL_EMPTY"
    by (simp add: cell_eval fills_tie) (simp add: cell_eval2)
  moreover have "cellAt (gridRef (capture ?w)) (42 + 21 * 84) = Some CELL_WALL"
    by (simp add: cell_eval fills_tie) (simp add: cell_eval2)
  moreover have "firstSeed ?w = (42, 19)"
    by (simp add: firstSeed_def seedA_def scenWorld_def)
  moreover have "\<not> degenerateSeed (gridRef ?w) (42, 19)"
    by (simp add: degenerateSeed_def isInPlayArea_def cell_eval2)
  ultimately show ?thesis by (simp add: fills_tie) (simp add: scenWorld_def)
qed

theorem tie_captures_second_side_witness:
  "secondSeed (scenWorld 30 pocketA []) = (42, 21)
   \<and> cellAt (gridRef (capture (scenWorld 30 pocketA []))) (42 + 21 * 84) = Some CELL_WALL
   \<and> cellAt (gridRef (capture (scenWorld 30 pocketA []))) (40 + 21 * 84) = Some CELL_WALL
   \<and> cellAt (gridRef (capture (scenWorld 30 pocketA []))) (42 + 19 * 84) = Some CELL_EMPTY
   \<and> cellAt (gridRef (capture (scenWorld 30 pocketA []))) (41 + 18 * 84) = Some CELL_EMPTY"
proof -
  let ?w = "scenWorld 30 pocketA []"
  have tie: "fst (firstFill ?w) = fst (secondFill ?w)" by (simp add: fills_tie)
  note th = tie_captures_second_side [OF scen_valid scen_landing tie]
  have s: "firstSeed ?w = (42, 19)" "secondSeed ?w = (42, 21)"
    by (simp_all add: firstSeed_def secondSeed_def seedA_def seedB_def scenWorld_def)
  have d: "\<not> degenerateSeed (gridRef ?w) (firstSeed ?w)"
          "\<not> degenerateSeed (snd (firstFill ?w)) (secondSeed ?w)"
    unfolding s by (simp_all add: fills_tie degenerateSeed_def isInPlayArea_def)
                   (simp_all add: cell_eval2)
  have l: "cellAt (snd (secondFill ?w)) (40 + 21 * 84) = Some 6"
          "cellAt (snd (secondFill ?w)) (41 + 18 * 84) = Some 5"
    by (simp_all add: fills_tie) (simp_all add: cell_eval2)
  from th l have a: "cellAt (gridRef (capture ?w)) (40 + 21 * 84) = Some CELL_WALL"
    "cellAt (gridRef (capture ?w)) (41 + 18 * 84) = Some CELL_EMPTY" by blast+
  from th d have b: "cellAt (gridRef (capture ?w)) (fst (firstSeed ?w) + snd (firstSeed ?w) * 84) = Some CELL_EMPTY"
    "cellAt (gridRef (capture ?w)) (fst (secondSeed ?w) + snd (secondSeed ?w) * 84) = Some CELL_WALL"
    by blast+
  from a b show ?thesis unfolding s by simp
qed

subsection \<open>Enemy occupancy of a fill\<close>

lemma cellAt_scenGrid_xy:
  assumes "0 \<le> x" "x < 84" "0 \<le> y" "y < 48"
  shows "cellAt (scenGrid far t p) (x + y * 84) = Some (scenCell far t p x y)"
proof -
  have "0 \<le> x + y * 84" "x + y * 84 < 4032" using assms by auto
  moreover have "(x + y * 84) mod 84 = x" "(x + y * 84) div 84 = y" using assms by auto
  ultimately show ?thesis by (simp add: cellAt_scenGrid)
qed

lemma idx_in_image:
  fixes x y :: int
  assumes "0 \<le> x" "x < 84" "\<forall>p \<in> set cells. 0 \<le> fst p \<and> fst p < 84"
  shows "(x + y * 84 \<in> (\<lambda>p. fst p + snd p * 84) ` set cells) = ((x, y) \<in> set cells)"
proof
  assume "x + y * 84 \<in> (\<lambda>p. fst p + snd p * 84) ` set cells"
  then obtain p where p: "p \<in> set cells" "x + y * 84 = fst p + snd p * 84" by blast
  with assms have "x = fst p \<and> y = snd p" using idx_unique [of x "fst p" y "snd p"] by auto
  with p show "(x, y) \<in> set cells" by simp
next
  assume "(x, y) \<in> set cells"
  then show "x + y * 84 \<in> (\<lambda>p. fst p + snd p * 84) ` set cells" by force
qed

lemma filled_sideA:
  "filledCells (scenGrid 30 trailA pocketA) (labelCells (scenGrid 30 trailA pocketA) 5 sideACells) 5
     = set sideACells"
proof (rule set_eqI)
  fix p :: "int \<times> int"
  obtain x y where p: "p = (x, y)" by (cases p)
  have c: "\<forall>p \<in> set sideACells. 0 \<le> fst p \<and> fst p < 84" by (simp add: sideACells_def)
  show "p \<in> filledCells (scenGrid 30 trailA pocketA)
            (labelCells (scenGrid 30 trailA pocketA) 5 sideACells) 5 \<longleftrightarrow> p \<in> set sideACells"
  proof (cases "p \<in> playArea")
    case True
    then have r: "0 \<le> x" "x < 84" "0 \<le> y" "y < 48" "0 \<le> x + y * 84" "x + y * 84 < 4032"
      using p by (auto simp: playArea_def)
    show ?thesis
      using True r(1-4) unfolding p filledCells_def
      by (simp add: cellAt_labelCells cellAt_scenGrid_xy idx_in_image [OF r(1,2) c] r(5,6))
         (auto simp: scenCell_def sideACells_def trailA_def pocketA_def)
  next
    case False
    then show ?thesis by (auto simp: filledCells_def playArea_def sideACells_def)
  qed
qed

text \<open>
  Claim C10. The enemy count a flood fill returns is the number of pairs of a labelled
  cell and an enemy position at distance at most 1 in both axes; it is not the number
  of enemies inside the region. In the closure below one enemy stands in the middle of
  the three by three block of the first side and two enemies stand on the row of the
  second side: the first fill reports 9, the second 4, so the selection takes the first
  side for the more occupied one and captures the second side, the one with two
  enemies; both are destroyed and the single enemy of the first side survives.
\<close>

theorem floodFill_counts_cell_enemy_pairs:
  assumes "fillValue \<noteq> CELL_EMPTY"
  shows "fst (floodFill startX startY fillValue grid enemyPositions) =
           (\<Sum>(cx, cy) \<in> filledCells grid
                (snd (floodFill startX startY fillValue grid enemyPositions)) fillValue.
              int (length (filter (\<lambda>(ex, ey). \<bar>ex - cx\<bar> \<le> 1 \<and> \<bar>ey - cy\<bar> \<le> 1) enemyPositions)))
       \<and> fst (firstFill (scenWorld 30 pocketA [enemyAt 41 18, enemyAt 40 21, enemyAt 42 21])) = 9
       \<and> fst (secondFill (scenWorld 30 pocketA [enemyAt 41 18, enemyAt 40 21, enemyAt 42 21])) = 4
       \<and> filter (\<lambda>e. cellAt (snd (secondFill (scenWorld 30 pocketA
                    [enemyAt 41 18, enemyAt 40 21, enemyAt 42 21]))) (enemyIdx e) = Some 5)
            [enemyAt 41 18, enemyAt 40 21, enemyAt 42 21] = [enemyAt 41 18]
       \<and> filter (\<lambda>e. cellAt (snd (secondFill (scenWorld 30 pocketA
                    [enemyAt 41 18, enemyAt 40 21, enemyAt 42 21]))) (enemyIdx e) = Some 6)
            [enemyAt 41 18, enemyAt 40 21, enemyAt 42 21] = [enemyAt 40 21, enemyAt 42 21]
       \<and> cellAt (gridRef (capture (scenWorld 30 pocketA
            [enemyAt 41 18, enemyAt 40 21, enemyAt 42 21]))) (40 + 21 * 84) = Some CELL_WALL
       \<and> cellAt (gridRef (capture (scenWorld 30 pocketA
            [enemyAt 41 18, enemyAt 40 21, enemyAt 42 21]))) (41 + 18 * 84) = Some CELL_EMPTY
       \<and> enemies (capture (scenWorld 30 pocketA [enemyAt 41 18, enemyAt 40 21, enemyAt 42 21]))
            = [enemyAt 41 18]"
proof -
  let ?w = "scenWorld 30 pocketA [enemyAt 41 18, enemyAt 40 21, enemyAt 42 21]"
  have g: "fst (floodFill startX startY fillValue grid enemyPositions) =
           (\<Sum>(cx, cy) \<in> filledCells grid
                (snd (floodFill startX startY fillValue grid enemyPositions)) fillValue.
              int (length (filter (\<lambda>(ex, ey). \<bar>ex - cx\<bar> \<le> 1 \<and> \<bar>ey - cy\<bar> \<le> 1) enemyPositions)))"
    unfolding floodFill_def
    using floodLoop_count [OF assms, of enemyPositions "[(startX, startY)]" "[]" grid 0]
    by (simp add: nearEnemies_def)
  have l5: "filter (\<lambda>e. cellAt (snd (secondFill ?w)) (enemyIdx e) = Some 5)
            [enemyAt 41 18, enemyAt 40 21, enemyAt 42 21] = [enemyAt 41 18]"
    by (simp add: fills_two) (simp add: cell_eval2)
  have l6: "filter (\<lambda>e. cellAt (snd (secondFill ?w)) (enemyIdx e) = Some 6)
            [enemyAt 41 18, enemyAt 40 21, enemyAt 42 21] = [enemyAt 40 21, enemyAt 42 21]"
    by (simp add: fills_two) (simp add: cell_eval2)
  have c1: "cellAt (gridRef (capture ?w)) (40 + 21 * 84) = Some CELL_WALL"
    by (simp add: cell_eval fills_two) (simp add: cell_eval2)
  have c2: "cellAt (gridRef (capture ?w)) (42 + 21 * 84) = Some CELL_WALL"
    by (simp add: cell_eval fills_two) (simp add: cell_eval2)
  have c3: "cellAt (gridRef (capture ?w)) (41 + 18 * 84) = Some CELL_EMPTY"
    by (simp add: cell_eval fills_two) (simp add: cell_eval2)
  have en: "enemies (capture ?w) = [enemyAt 41 18]"
    using c1 c2 c3 by (simp add: capture_enemies enemyCaptured_def) (simp add: scen_defs)
  from g l5 l6 c1 c3 en show ?thesis by (simp add: fills_two)
qed

theorem floodFill_counts_cell_enemy_pairs_witness:
  "fst (floodFill 42 19 5 (scenGrid 30 trailA pocketA) [(41, 18)]) = 9
   \<and> card (filledCells (scenGrid 30 trailA pocketA)
        (snd (floodFill 42 19 5 (scenGrid 30 trailA pocketA) [(41, 18)])) 5) = 9"
proof -
  let ?G = "scenGrid 30 trailA pocketA"
  have f: "floodFill 42 19 5 ?G [(41, 18)] = (9, labelCells ?G 5 sideACells)"
    using fills_one(1)
    by (simp add: firstFill_def firstSeed_def seedA_def enemyPositionsOf_def scenWorld_def
          enemyAt_def)
  have "fst (floodFill 42 19 5 ?G [(41, 18)]) =
        (\<Sum>(cx, cy) \<in> filledCells ?G (snd (floodFill 42 19 5 ?G [(41, 18)])) 5.
           int (length (filter (\<lambda>(ex, ey). \<bar>ex - cx\<bar> \<le> 1 \<and> \<bar>ey - cy\<bar> \<le> 1) [(41, 18)])))"
    using floodFill_counts_cell_enemy_pairs [of 5 42 19 ?G "[(41, 18)]"] by simp
  also have "\<dots> = (\<Sum>(cx, cy) \<in> set sideACells.
           int (length (filter (\<lambda>(ex, ey). \<bar>ex - cx\<bar> \<le> 1 \<and> \<bar>ey - cy\<bar> \<le> 1) [(41, 18)])))"
    by (simp only: f snd_conv filled_sideA)
  also have "\<dots> = 9" by (simp add: sideACells_def)
  finally have "fst (floodFill 42 19 5 ?G [(41, 18)]) = 9" .
  moreover have "card (filledCells ?G (snd (floodFill 42 19 5 ?G [(41, 18)])) 5) = 9"
    by (simp only: f snd_conv filled_sideA) (simp add: sideACells_def)
  ultimately show ?thesis by simp
qed

subsection \<open>A closure tick\<close>

lemma pocketA_cells:
  "cellAt (scenGrid far trailA pocketA) (x + y * 84) = Some (scenCell far trailA pocketA x y)"
  if "0 \<le> x" "x < 84" "0 \<le> y" "y < 48"
  using that by (rule cellAt_scenGrid_xy)

lemma gameLoop_beforeClosure:
  "gameLoop keys rnd (beforeClosure 30 pocketA []) = capture (scenWorld 30 pocketA [])"
proof -
  have g: "setCell (setCell (setCell (setCell (scenGrid 30 trailA pocketA) 1721 0) 1722 0) 1722 2) 1721 2
      = scenGrid 30 trailA pocketA"
  proof -
    have "scenGrid 30 trailA pocketA ! 1721 = 2" "scenGrid 30 trailA pocketA ! 1722 = 2"
      using cellAt_scenGrid [of 1721 30 trailA pocketA] cellAt_scenGrid [of 1722 30 trailA pocketA]
      by (simp_all add: cellAt_def scenCell_def trailA_def)
    then show ?thesis
      by (simp add: setCell_def list_update_swap [of 1721 1722] )
         (metis list_update_id)
  qed
  let ?G0 = "setCell (setCell (scenGrid 30 trailA pocketA) 1721 0) 1722 0"
  have c: "cellAt ?G0 i =
      (if i = 1722 \<or> i = 1721 then Some 0 else cellAt (scenGrid 30 trailA pocketA) i)" for i
    by (auto simp: cellAt_setCell)
  have nc: "cellAt ?G0 1722 = Some 0" by (simp add: c)
  have wd: "wallDetected ?G0 42 20"
    by (simp add: wallDetected_def inGrid_def c)
       (simp add: cellAt_scenGrid scenCell_def trailA_def pocketA_def)
  show ?thesis
    by (simp add: gameLoop_def beforeClosure_def scenWorld_def processInput_def enemyPhase_def
          wallHitDetection_def playerNextCell_def movePlayer_def stateTransitions_def
          markPrev_def inGrid_def Let_def nc wd g)
qed

lemma fills_tie35:
  "firstFill (scenWorld 35 pocketA []) = (0, labelCells (scenGrid 35 trailA pocketA) 5 sideACells)"
  "secondFill (scenWorld 35 pocketA []) =
     (0, labelCells (labelCells (scenGrid 35 trailA pocketA) 5 sideACells) 6 sideBCells)"
  by (simp_all add: scen_defs fill_eval)

lemma tie_cell_xy:
  assumes f: "firstFill (scenWorld far pocketA []) =
        (0, labelCells (scenGrid far trailA pocketA) 5 sideACells)"
      "secondFill (scenWorld far pocketA []) =
        (0, labelCells (labelCells (scenGrid far trailA pocketA) 5 sideACells) 6 sideBCells)"
    and r: "0 \<le> x" "x < 84" "0 \<le> y" "y < 48"
  shows "cellAt (gridRef (capture (scenWorld far pocketA []))) (x + y * 84) =
           Some (if (x, y) \<in> set trailA \<or> (x, y) \<in> set sideBCells then CELL_WALL
                 else if (x, y) \<in> set sideACells then CELL_EMPTY
                 else scenCell far trailA pocketA x y)"
proof -
  let ?w = "scenWorld far pocketA []"
  let ?i = "x + y * 84"
  have i: "0 \<le> ?i" "?i < 4032" using r by auto
  have ca: "\<forall>p \<in> set sideACells. 0 \<le> fst p \<and> fst p < 84"
    and cb: "\<forall>p \<in> set sideBCells. 0 \<le> fst p \<and> fst p < 84"
    by (simp_all add: sideACells_def sideBCells_def)
  have L: "(?i = landingIdx ?w) = ((x, y) = (42, 20))"
    using idx_unique [of x 42 y 20] r by (auto simp: landingIdx_def scenWorld_def)
  have G: "cellAt (gridRef ?w) ?i = Some (scenCell far trailA pocketA x y)"
    using r by (simp add: scenWorld_def cellAt_scenGrid_xy)
  have C: "cellAt (snd (secondFill ?w)) ?i =
      (if (x, y) \<in> set sideBCells then Some 6
       else if (x, y) \<in> set sideACells then Some 5
       else Some (scenCell far trailA pocketA x y))"
    using r i
    by (simp add: f cellAt_labelCells idx_in_image [OF r(1,2) ca] idx_in_image [OF r(1,2) cb]
          cellAt_scenGrid_xy)
  have T: "(scenCell far trailA pocketA x y = CELL_TRAIL) = ((x, y) \<in> set trailA)"
    by (simp add: scenCell_def)
  have D: "set sideACells \<inter> set trailA = {}" "set sideBCells \<inter> set trailA = {}"
    "(42, 20) \<in> set trailA"
    by (simp_all add: sideACells_def sideBCells_def trailA_def)
  have F: "fillThisValue (fst (firstFill ?w)) (fst (secondFill ?w)) = 6"
    "doNotFillThisValue (fst (firstFill ?w)) (fst (secondFill ?w)) = 5"
    by (simp_all add: f fillThisValue_def doNotFillThisValue_def)
  have S: "set sideACells \<inter> set sideBCells = {}"
    by (simp add: sideACells_def sideBCells_def)
  have V: "scenCell far trailA pocketA x y \<noteq> 5" "scenCell far trailA pocketA x y \<noteq> 6"
    by (simp_all add: scenCell_def)
  show ?thesis
    using D S V i
    by (auto simp: capture_cell [OF scen_valid] L G C T F commitValue_def)
qed

lemma percentage_ge:
  assumes "2415 \<le> capturedCount g"
  shows "WIN_PERCENTAGE \<le> calculatePercentage g"
proof -
  have "(241500::int) div 3220 \<le> (100 * capturedCount g) div 3220"
    using assms by (intro zdiv_mono1) auto
  then show ?thesis by (simp add: calculatePercentage_div)
qed

lemma percentage_less:
  assumes "capturedCount g \<le> 2414"
  shows "calculatePercentage g < WIN_PERCENTAGE"
proof -
  have "(100 * capturedCount g) div 3220 \<le> (241400::int) div 3220"
    using assms by (intro zdiv_mono1) auto
  then show ?thesis by (simp add: calculatePercentage_div)
qed

lemma tie30_wins: "WIN_PERCENTAGE \<le> calculatePercentage (gridRef (capture (scenWorld 30 pocketA [])))"
proof -
  let ?g = "gridRef (capture (scenWorld 30 pocketA []))"
  let ?N = "{13 ..< 30} \<times> {1 ..< 47} \<union> {30} \<times> {1 ..< 11} \<union> set sideACells :: (int \<times> int) set"
  have sub: "playArea - ?N \<subseteq> wallCells ?g"
  proof
    fix p assume p: "p \<in> playArea - ?N"
    obtain x y where xy: "p = (x, y)" by (cases p)
    from p xy have r: "0 \<le> x" "x < 84" "0 \<le> y" "y < 48" by (auto simp: playArea_def)
    have "cellAt ?g (x + y * 84) = Some CELL_WALL"
      using p xy unfolding tie_cell_xy [OF fills_tie r]
      by (auto simp: scenCell_def playArea_def trailA_def sideBCells_def pocketA_def sideACells_def)
    then show "p \<in> wallCells ?g" using p xy by (simp add: wallCells_def)
  qed
  have "card ?N \<le> card ({13 ..< 30} \<times> {1 ..< 47} \<union> {30} \<times> {1 ..< 11} :: (int \<times> int) set)
                    + card (set sideACells)"
    by (rule card_Un_le)
  also have "\<dots> \<le> (card ({13 ..< 30} \<times> {1 ..< 47} :: (int \<times> int) set)
                    + card ({30} \<times> {1 ..< 11} :: (int \<times> int) set)) + card (set sideACells)"
    by (intro add_right_mono card_Un_le)
  also have "\<dots> \<le> (782 + 10) + 9"
    using card_length [of sideACells] by (simp add: sideACells_def)
  finally have n: "card ?N \<le> 801" by simp
  have fin: "finite (wallCells ?g)"
    by (rule finite_subset [of _ playArea]) (auto simp: wallCells_def playArea_def)
  have "card playArea - card ?N \<le> card (playArea - ?N)" by (rule diff_card_le_card_Diff) simp
  also have "\<dots> \<le> card (wallCells ?g)" using sub fin by (intro card_mono)
  finally have "2419 \<le> card (wallCells ?g)" using n by (simp add: card_playArea)
  then show ?thesis by (intro percentage_ge) (simp add: capturedCount_card)
qed

lemma tie35_continues:
  "calculatePercentage (gridRef (capture (scenWorld 35 pocketA []))) < WIN_PERCENTAGE"
proof -
  let ?g = "gridRef (capture (scenWorld 35 pocketA []))"
  let ?R = "{13 ..< 35} \<times> {1 ..< 47} :: (int \<times> int) set"
  have sub: "wallCells ?g \<subseteq> playArea - ?R"
  proof
    fix p assume p: "p \<in> wallCells ?g"
    obtain x y where xy: "p = (x, y)" by (cases p)
    from p xy have r: "0 \<le> x" "x < 84" "0 \<le> y" "y < 48" by (auto simp: wallCells_def playArea_def)
    from p xy have "cellAt ?g (x + y * 84) = Some CELL_WALL" by (simp add: wallCells_def)
    then have "(x, y) \<notin> ?R"
      unfolding tie_cell_xy [OF fills_tie35 r]
      by (auto simp: scenCell_def trailA_def sideBCells_def pocketA_def sideACells_def
            split: if_splits)
    then show "p \<in> playArea - ?R" using p xy by (simp add: wallCells_def)
  qed
  have "?R \<subseteq> playArea" by (auto simp: playArea_def)
  then have "card (playArea - ?R) = card playArea - card ?R"
    by (intro card_Diff_subset) (auto intro: finite_subset)
  also have "\<dots> = 2208" by (simp add: card_playArea)
  finally have c: "card (playArea - ?R) = 2208" .
  have "card (wallCells ?g) \<le> card (playArea - ?R)"
    using sub by (intro card_mono) (simp_all add: playArea_def)
  then show ?thesis using c by (intro percentage_less) (simp add: capturedCount_card)
qed

subsection \<open>The tick\<close>

lemma updateEnemies_died: "fst (updateEnemies g es) = list_ex (enemyOnTrail g) es"
  by (induction es) (auto split: prod.splits)

lemma updateEnemies_stopped: "snd (updateEnemies g es) = stoppedEnemies g es"
  by (induction es) (auto simp: stoppedEnemies_def split: prod.splits)

lemma updateEnemies_all:
  "\<not> list_ex (enemyOnTrail g) es \<Longrightarrow> snd (updateEnemies g es) = map (moveEnemy g) es"
  by (induction es) (auto split: prod.splits)

lemma processInput_fields [simp]:
  "gridRef (processInput keys w) = gridRef w"
  "playerPos (processInput keys w) = playerPos w"
  "playerState (processInput keys w) = playerState w"
  "enemies (processInput keys w) = enemies w"
  "gameState (processInput keys w) = gameState w"
  "tickCount (processInput keys w) = tickCount w"
  by (simp_all add: processInput_def Let_def)

lemma processInput_onStage: "playerState w = onStage \<Longrightarrow> processInput keys w = w"
  by (simp add: processInput_def Let_def)

lemma processInput_tick:
  "processInput keys (w\<lparr>tickCount := n\<rparr>) = (processInput keys w)\<lparr>tickCount := n\<rparr>"
  by (simp add: processInput_def Let_def)

lemma wallHitDetection_fields [simp]:
  "gridRef (wallHitDetection w) = gridRef w"
  "playerPos (wallHitDetection w) = playerPos w"
  "playerState (wallHitDetection w) = playerState w"
  "enemies (wallHitDetection w) = enemies w"
  "gameState (wallHitDetection w) = gameState w"
  "tickCount (wallHitDetection w) = tickCount w"
  by (simp_all add: wallHitDetection_def Let_def)

lemma movePlayer_fields [simp]:
  "gridRef (movePlayer w) = gridRef w"
  "playerSpeed (movePlayer w) = playerSpeed w"
  "playerState (movePlayer w) = playerState w"
  "enemies (movePlayer w) = enemies w"
  "gameState (movePlayer w) = gameState w"
  "tickCount (movePlayer w) = tickCount w"
  by (simp_all add: movePlayer_def)

lemma playerNextCell_cong:
  "gridRef w' = gridRef w \<Longrightarrow> playerPos w' = playerPos w \<Longrightarrow> playerSpeed w' = playerSpeed w
     \<Longrightarrow> playerNextCell w' = playerNextCell w"
  by (simp add: playerNextCell_def)

lemma enemyPhase_start:
  "enemyPhase (processInput keys (w\<lparr>tickCount := tickCount w + 1\<rparr>)) =
     (if (tickCount w + 1) mod 2 = 0 then updateEnemies (gridRef w) (enemies w)
      else (False, enemies w))"
  by (simp add: enemyPhase_def)

lemma enemy_death_iff:
  "fst (enemyPhase (processInput keys (w\<lparr>tickCount := tickCount w + 1\<rparr>))) = enemyTouchesTrail w"
  by (simp add: enemyPhase_start enemyTouchesTrail_def updateEnemies_died)

text \<open>The tick of a playing state, by cases on the events.\<close>

lemma gameLoop_enemy_death:
  assumes "status (gameState w) = playing" "enemyTouchesTrail w"
  shows "gameLoop keys rnd w =
     handlePlayerDeath rnd ((processInput keys (w\<lparr>tickCount := tickCount w + 1\<rparr>))
        \<lparr>enemies := stoppedEnemies (gridRef w) (enemies w)\<rparr>)"
proof -
  have "(tickCount w + 1) mod 2 = 0" using assms(2) by (simp add: enemyTouchesTrail_def)
  then have e: "enemyPhase (processInput keys (w\<lparr>tickCount := tickCount w + 1\<rparr>)) =
      (True, stoppedEnemies (gridRef w) (enemies w))"
    using assms(2) updateEnemies_died [of "gridRef w" "enemies w"]
      updateEnemies_stopped [of "gridRef w" "enemies w"]
    by (simp add: enemyPhase_start enemyTouchesTrail_def prod_eq_iff)
  show ?thesis
    using assms(1) by (simp add: gameLoop_def Let_def e)
qed

lemma gameLoop_trail_death:
  assumes "status (gameState w) = playing" "\<not> enemyTouchesTrail w" "playerHitsTrail w"
  shows "gameLoop keys rnd w =
     handlePlayerDeath rnd (w\<lparr>tickCount := tickCount w + 1,
        enemies := (if (tickCount w + 1) mod 2 = 0 then map (moveEnemy (gridRef w)) (enemies w)
                    else enemies w)\<rparr>)"
proof -
  define es where "es = (if (tickCount w + 1) mod 2 = 0 then map (moveEnemy (gridRef w)) (enemies w)
             else enemies w)"
  have st: "playerState w = onStage" and nc: "playerNextCell w = Some CELL_TRAIL"
    using assms(3) by (simp_all add: playerHitsTrail_def)
  have p: "processInput keys (w\<lparr>tickCount := tickCount w + 1\<rparr>) = w\<lparr>tickCount := tickCount w + 1\<rparr>"
    using st by (simp add: processInput_onStage)
  have e: "enemyPhase (w\<lparr>tickCount := tickCount w + 1\<rparr>) = (False, es)"
    using assms(2) updateEnemies_died [of "gridRef w" "enemies w"]
      updateEnemies_all [of "gridRef w" "enemies w"]
    by (auto simp: es_def enemyPhase_def enemyTouchesTrail_def prod_eq_iff)
  let ?w1 = "w\<lparr>tickCount := tickCount w + 1, enemies := es\<rparr>"
  have n1: "playerNextCell ?w1 = Some CELL_TRAIL"
    using nc by (simp add: playerNextCell_def)
  have wh: "wallHitDetection ?w1 = ?w1"
    using st n1 by (simp add: wallHitDetection_def Let_def)
  have "gameLoop keys rnd w = handlePlayerDeath rnd ?w1"
    using assms(1) st n1 by (simp add: gameLoop_def Let_def p e wh)
  then show ?thesis unfolding es_def .
qed

lemma gameLoop_no_death:
  assumes "status (gameState w) = playing" "\<not> deathEvent w"
  shows "gameLoop keys rnd w =
     stateTransitions (movePlayer (wallHitDetection
       ((processInput keys (w\<lparr>tickCount := tickCount w + 1\<rparr>))
         \<lparr>enemies := (if (tickCount w + 1) mod 2 = 0 then map (moveEnemy (gridRef w)) (enemies w)
                      else enemies w)\<rparr>)))"
proof -
  define es where "es = (if (tickCount w + 1) mod 2 = 0 then map (moveEnemy (gridRef w)) (enemies w)
             else enemies w)"
  let ?w1 = "processInput keys (w\<lparr>tickCount := tickCount w + 1\<rparr>)"
  have ne: "\<not> enemyTouchesTrail w" and np: "\<not> playerHitsTrail w"
    using assms(2) by (simp_all add: deathEvent_def)
  have e: "enemyPhase ?w1 = (False, es)"
    using ne updateEnemies_died [of "gridRef w" "enemies w"]
      updateEnemies_all [of "gridRef w" "enemies w"]
    by (auto simp: es_def enemyPhase_start enemyTouchesTrail_def prod_eq_iff)
  have nd: "\<not> (playerState (wallHitDetection (?w1\<lparr>enemies := es\<rparr>)) = onStage \<and>
                playerNextCell (?w1\<lparr>enemies := es\<rparr>) = Some CELL_TRAIL)"
  proof
    assume a: "playerState (wallHitDetection (?w1\<lparr>enemies := es\<rparr>)) = onStage \<and>
                playerNextCell (?w1\<lparr>enemies := es\<rparr>) = Some CELL_TRAIL"
    then have st: "playerState w = onStage" by simp
    then have "?w1 = w\<lparr>tickCount := tickCount w + 1\<rparr>" by (simp add: processInput_onStage)
    with a have "playerNextCell w = Some CELL_TRAIL" by (simp add: playerNextCell_def)
    with st np show False by (simp add: playerHitsTrail_def)
  qed
  have "gameLoop keys rnd w = stateTransitions (movePlayer (wallHitDetection (?w1\<lparr>enemies := es\<rparr>)))"
    using assms(1) nd by (auto simp: gameLoop_def Let_def e)
  then show ?thesis unfolding es_def .
qed

subsection \<open>Death events\<close>

lemma handlePlayerDeath_fields:
  "gridRef (handlePlayerDeath rnd w) =
     (if lives (gameState w) - 1 < 0 then gridRef w else createInitialGrid)"
  "playerPos (handlePlayerDeath rnd w) =
     (if lives (gameState w) - 1 < 0 then playerPos w else \<lparr>pos_x = 48, pos_y = PLAY_AREA_BOTTOM\<rparr>)"
  "playerState (handlePlayerDeath rnd w) =
     (if lives (gameState w) - 1 < 0 then playerState w else onWall)"
  "score (gameState (handlePlayerDeath rnd w)) = score (gameState w)"
  "level (gameState (handlePlayerDeath rnd w)) = level (gameState w)"
  "percentage (gameState (handlePlayerDeath rnd w)) =
     (if lives (gameState w) - 1 < 0 then percentage (gameState w) else 0)"
  by (simp_all add: handlePlayerDeath_def Let_def)

text \<open>
  Claim C7. When a death event fires in a tick of a playing state, the tick is
  \<open>handlePlayerDeath\<close> applied to the state in which only the tick count, the input and
  the enemies before the one on the trail have been processed: the player has not
  moved, no trail has been laid and no capture has run. So the grid after the tick is
  the grid before it, or the initial grid if a life was left, the player is where it
  was, or at the start position, and the score is unchanged.
\<close>

theorem death_short_circuits_tick:
  assumes "status (gameState w) = playing" and "deathEvent w"
  shows "(enemyTouchesTrail w \<longrightarrow>
            gameLoop keys rnd w =
              handlePlayerDeath rnd ((processInput keys (w\<lparr>tickCount := tickCount w + 1\<rparr>))
                 \<lparr>enemies := stoppedEnemies (gridRef w) (enemies w)\<rparr>))
       \<and> (\<not> enemyTouchesTrail w \<longrightarrow>
            gameLoop keys rnd w =
              handlePlayerDeath rnd (w\<lparr>tickCount := tickCount w + 1,
                 enemies := (if (tickCount w + 1) mod 2 = 0
                             then map (moveEnemy (gridRef w)) (enemies w) else enemies w)\<rparr>))
       \<and> gridRef (gameLoop keys rnd w) =
            (if lives (gameState w) - 1 < 0 then gridRef w else createInitialGrid)
       \<and> playerPos (gameLoop keys rnd w) =
            (if lives (gameState w) - 1 < 0 then playerPos w
             else \<lparr>pos_x = 48, pos_y = PLAY_AREA_BOTTOM\<rparr>)
       \<and> playerState (gameLoop keys rnd w) =
            (if lives (gameState w) - 1 < 0 then playerState w else onWall)
       \<and> score (gameState (gameLoop keys rnd w)) = score (gameState w)
       \<and> level (gameState (gameLoop keys rnd w)) = level (gameState w)"
proof (cases "enemyTouchesTrail w")
  case True
  note eq = gameLoop_enemy_death [OF assms(1) True, of keys rnd]
  show ?thesis using True by (simp add: eq handlePlayerDeath_fields)
next
  case False
  with assms(2) have "playerHitsTrail w" by (simp add: deathEvent_def)
  note eq = gameLoop_trail_death [OF assms(1) False this, of keys rnd]
  show ?thesis using False by (simp add: eq handlePlayerDeath_fields)
qed

lemma cellAt_beforeClosure:
  "cellAt (gridRef (beforeClosure far p es)) i =
     (if i = 1722 \<or> i = 1721 then Some CELL_EMPTY else cellAt (scenGrid far trailA p) i)"
  by (auto simp: beforeClosure_def cellAt_setCell)

lemmas before_eval = cellAt_beforeClosure cellAt_scenGrid scenCell_def trailA_def pocketA_def

theorem death_short_circuits_tick_witness:
  "status (gameState (gameLoop noKeys exampleDraw (enemyDeathWorld 0))) = dead
   \<and> gridRef (gameLoop noKeys exampleDraw (enemyDeathWorld 0)) = gridRef (enemyDeathWorld 0)
   \<and> playerPos (gameLoop noKeys exampleDraw (enemyDeathWorld 0)) = \<lparr>pos_x = 41, pos_y = 20\<rparr>
   \<and> playerState (gameLoop noKeys exampleDraw (enemyDeathWorld 0)) = onStage
   \<and> enemies (gameLoop noKeys exampleDraw (enemyDeathWorld 0)) =
        [\<lparr>enemy_x = 21, enemy_y = 11, enemy_vx = 1, enemy_vy = 1\<rparr>, enemyAt 40 20]
   \<and> gridRef (gameLoop noKeys exampleDraw (enemyDeathWorld 3)) = createInitialGrid
   \<and> score (gameState (gameLoop noKeys exampleDraw (enemyDeathWorld 3))) = 250
   \<and> status (gameState (gameLoop noKeys exampleDraw (trailDeathWorld 0))) = dead
   \<and> gridRef (gameLoop noKeys exampleDraw (trailDeathWorld 0)) = gridRef (trailDeathWorld 0)
   \<and> playerPos (gameLoop noKeys exampleDraw (trailDeathWorld 0)) = \<lparr>pos_x = 41, pos_y = 20\<rparr>"
proof -
  have t: "enemyOnTrail (gridRef (enemyDeathWorld n)) (enemyAt 40 20)"
          "\<not> enemyOnTrail (gridRef (enemyDeathWorld n)) (enemyAt 20 10)" for n
    by (simp_all add: enemyOnTrail_def enemyDeathWorld_def enemyAt_def cellAt_beforeClosure)
       (simp_all add: before_eval)
  have e: "enemies (enemyDeathWorld n) = [enemyAt 20 10, enemyAt 40 20]"
          "tickCount (enemyDeathWorld n) = 1" "status (gameState (enemyDeathWorld n)) = playing"
          "lives (gameState (enemyDeathWorld n)) = n" "score (gameState (enemyDeathWorld n)) = 250"
          "playerPos (enemyDeathWorld n) = \<lparr>pos_x = 41, pos_y = 20\<rparr>"
          "playerState (enemyDeathWorld n) = onStage" for n
    by (simp_all add: enemyDeathWorld_def beforeClosure_def scenWorld_def)
  have d1: "enemyTouchesTrail (enemyDeathWorld n)" for n
    using t [of n] by (simp add: enemyTouchesTrail_def e)
  then have dd1: "deathEvent (enemyDeathWorld n)" for n by (simp add: deathEvent_def)
  have m: "moveEnemy (gridRef (enemyDeathWorld n)) (enemyAt 20 10) =
      \<lparr>enemy_x = 21, enemy_y = 11, enemy_vx = 1, enemy_vy = 1\<rparr>" for n
    by (simp add: moveEnemy_def bounceEnemy_def advanceEnemy_def clampEnemyLeft_def
          clampEnemyRight_def clampEnemyTop_def clampEnemyBottom_def Let_def enemyAt_def
          enemyDeathWorld_def cellAt_beforeClosure)
       (simp add: before_eval)
  have s: "stoppedEnemies (gridRef (enemyDeathWorld n)) [enemyAt 20 10, enemyAt 40 20] =
      [\<lparr>enemy_x = 21, enemy_y = 11, enemy_vx = 1, enemy_vy = 1\<rparr>, enemyAt 40 20]" for n
    using t [of n] by (simp add: stoppedEnemies_def m)
  have f: "status (gameState (trailDeathWorld n)) = playing"
          "lives (gameState (trailDeathWorld n)) = n"
          "playerPos (trailDeathWorld n) = \<lparr>pos_x = 41, pos_y = 20\<rparr>" 
          "enemies (trailDeathWorld n) = []" for n
    by (simp_all add: trailDeathWorld_def beforeClosure_def scenWorld_def)
  have "playerNextCell (trailDeathWorld n) = Some CELL_TRAIL" for n
    by (simp add: playerNextCell_def trailDeathWorld_def beforeClosure_def scenWorld_def
          cellAt_setCell) (simp add: before_eval)
  then have d2: "playerHitsTrail (trailDeathWorld n)" for n
    by (simp add: playerHitsTrail_def trailDeathWorld_def beforeClosure_def scenWorld_def)
  then have dd2: "deathEvent (trailDeathWorld n)" for n by (simp add: deathEvent_def)
  have n2: "\<not> enemyTouchesTrail (trailDeathWorld n)" for n
    by (simp add: enemyTouchesTrail_def f)
  note a = death_short_circuits_tick [OF e(3) dd1, of 0 noKeys exampleDraw]
  note b = death_short_circuits_tick [OF e(3) dd1, of 3 noKeys exampleDraw]
  note c = death_short_circuits_tick [OF f(1) dd2, of 0 noKeys exampleDraw]
  from a d1 [of 0] have a1: "gameLoop noKeys exampleDraw (enemyDeathWorld 0) =
      handlePlayerDeath exampleDraw ((processInput noKeys ((enemyDeathWorld 0)\<lparr>tickCount := tickCount (enemyDeathWorld 0) + 1\<rparr>))
                 \<lparr>enemies := stoppedEnemies (gridRef (enemyDeathWorld 0)) (enemies (enemyDeathWorld 0))\<rparr>)"
    by blast
  have a2: "status (gameState (gameLoop noKeys exampleDraw (enemyDeathWorld 0))) = dead"
       "enemies (gameLoop noKeys exampleDraw (enemyDeathWorld 0)) =
        [\<lparr>enemy_x = 21, enemy_y = 11, enemy_vx = 1, enemy_vy = 1\<rparr>, enemyAt 40 20]"
    unfolding a1 by (simp_all add: handlePlayerDeath_def Let_def e s)
  from c n2 [of 0] have c1: "gameLoop noKeys exampleDraw (trailDeathWorld 0) =
      handlePlayerDeath exampleDraw ((trailDeathWorld 0)\<lparr>tickCount := tickCount (trailDeathWorld 0) + 1,
         enemies := (if (tickCount (trailDeathWorld 0) + 1) mod 2 = 0
                     then map (moveEnemy (gridRef (trailDeathWorld 0))) (enemies (trailDeathWorld 0))
                     else enemies (trailDeathWorld 0))\<rparr>)"
    by blast
  have c2: "status (gameState (gameLoop noKeys exampleDraw (trailDeathWorld 0))) = dead"
    unfolding c1 by (simp add: handlePlayerDeath_def Let_def f)
  from a b c a2 c2 show ?thesis by (simp add: e f)
qed

subsection \<open>The mode after a closure\<close>

lemma landingPos_cong:
  assumes "gridRef w' = gridRef w" "playerPos w' = playerPos w" "playerSpeed w' = playerSpeed w"
    "playerState w' = playerState w"
  shows "playerPos (movePlayer (wallHitDetection w')) = landingPos w"
  using assms
  by (simp add: landingPos_def movePlayer_def wallHitDetection_def playerNextCell_def Let_def)

lemma gameLoop_closure:
  assumes "closureEvent w"
  shows "\<exists>wc. gameLoop keys rnd w = capture wc \<and> playerState wc = onStage \<and>
              status (gameState wc) = playing"
proof -
  define es where "es = (if (tickCount w + 1) mod 2 = 0 then map (moveEnemy (gridRef w)) (enemies w)
                         else enemies w)"
  from assms have pl: "status (gameState w) = playing" and nd: "\<not> deathEvent w"
    and st: "playerState w = onStage"
    and wd: "wallDetected (gridRef w) (pos_x (landingPos w)) (pos_y (landingPos w))"
    by (simp_all add: closureEvent_def)
  let ?w1 = "(processInput keys (w\<lparr>tickCount := tickCount w + 1\<rparr>))\<lparr>enemies := es\<rparr>"
  let ?w3 = "movePlayer (wallHitDetection ?w1)"
  have g: "gameLoop keys rnd w = stateTransitions ?w3"
    using gameLoop_no_death [OF pl nd, of keys rnd] by (simp add: es_def)
  have p: "playerPos ?w3 = landingPos w"
    using st by (intro landingPos_cong) (simp_all add: processInput_onStage)
  have s3: "playerState ?w3 = onStage" using st by simp
  have g3: "gridRef ?w3 = gridRef w" "status (gameState ?w3) = playing" using pl by simp_all
  let ?wc = "?w3\<lparr>gridRef := markPrev (setCell (gridRef ?w3)
                 (pos_x (playerPos ?w3) + pos_y (playerPos ?w3) * GRID_WIDTH) CELL_TRAIL)
                 (playerPos ?w3) (playerSpeed ?w3)\<rparr>"
  have "stateTransitions ?w3 = capture ?wc"
    using s3 wd unfolding stateTransitions_def Let_def p g3 by simp
  moreover have "playerState ?wc = onStage" "status (gameState ?wc) = playing"
    using s3 g3 by simp_all
  ultimately show ?thesis using g by metis
qed

text \<open>
  Claim C9, as amended. A closure whose commit leaves the captured percentage below the
  win threshold ends the tick with the player's mode back on the wall. A closure whose
  commit reaches the threshold calls \<open>advanceLevel\<close> and returns before the mode is
  touched: the tick ends with status levelAnnounce and the mode still onStage; the mode
  is set to onWall by the delayed reset of \<open>advanceLevel\<close>.
\<close>

theorem closure_mode:
  assumes "closureEvent w"
  shows "(calculatePercentage (gridRef (gameLoop keys rnd w)) < WIN_PERCENTAGE \<longrightarrow>
            playerState (gameLoop keys rnd w) = onWall \<and>
            status (gameState (gameLoop keys rnd w)) = playing)
       \<and> (WIN_PERCENTAGE \<le> calculatePercentage (gridRef (gameLoop keys rnd w)) \<longrightarrow>
            playerState (gameLoop keys rnd w) = onStage \<and>
            status (gameState (gameLoop keys rnd w)) = levelAnnounce \<and>
            playerState (advanceLevelTimeout fresh rnd' (gameLoop keys rnd w)) = onWall)"
proof -
  from gameLoop_closure [OF assms, of keys rnd] obtain wc where
    wc: "gameLoop keys rnd w = capture wc" "playerState wc = onStage"
        "status (gameState wc) = playing" by blast
  show ?thesis
    unfolding wc(1) using capture_mode [of wc fresh rnd'] wc(2,3) by simp
qed

lemma gameLoop_beforeClosure35:
  "gameLoop keys rnd (beforeClosure 35 pocketA []) = capture (scenWorld 35 pocketA [])"
proof -
  have g: "setCell (setCell (setCell (setCell (scenGrid 35 trailA pocketA) 1721 0) 1722 0) 1722 2) 1721 2
      = scenGrid 35 trailA pocketA"
  proof -
    have "scenGrid 35 trailA pocketA ! 1721 = 2" "scenGrid 35 trailA pocketA ! 1722 = 2"
      using cellAt_scenGrid [of 1721 35 trailA pocketA] cellAt_scenGrid [of 1722 35 trailA pocketA]
      by (simp_all add: cellAt_def scenCell_def trailA_def)
    then show ?thesis
      by (simp add: setCell_def list_update_swap [of 1721 1722] )
         (metis list_update_id)
  qed
  let ?G0 = "setCell (setCell (scenGrid 35 trailA pocketA) 1721 0) 1722 0"
  have c: "cellAt ?G0 i =
      (if i = 1722 \<or> i = 1721 then Some 0 else cellAt (scenGrid 35 trailA pocketA) i)" for i
    by (auto simp: cellAt_setCell)
  have nc: "cellAt ?G0 1722 = Some 0" by (simp add: c)
  have wd: "wallDetected ?G0 42 20"
    by (simp add: wallDetected_def inGrid_def c)
       (simp add: cellAt_scenGrid scenCell_def trailA_def pocketA_def)
  show ?thesis
    by (simp add: gameLoop_def beforeClosure_def scenWorld_def processInput_def enemyPhase_def
          wallHitDetection_def playerNextCell_def movePlayer_def stateTransitions_def
          markPrev_def inGrid_def Let_def nc wd g)
qed

lemma closureEvent_before:
  assumes "far = 30 \<or> far = 35"
  shows "closureEvent (beforeClosure far pocketA [])"
proof -
  let ?w = "beforeClosure far pocketA []"
  have f: "status (gameState ?w) = playing" "playerState ?w = onStage" "enemies ?w = []"
    "playerPos ?w = \<lparr>pos_x = 41, pos_y = 20\<rparr>" "playerSpeed ?w = \<lparr>pos_x = 1, pos_y = 0\<rparr>"
    by (simp_all add: beforeClosure_def scenWorld_def)
  have n: "playerNextCell ?w = Some CELL_EMPTY"
    by (simp add: playerNextCell_def f cellAt_beforeClosure)
  have l: "landingPos ?w = \<lparr>pos_x = 42, pos_y = 20\<rparr>"
    by (simp add: landingPos_def movePlayer_def wallHitDetection_def n f)
  have wd: "wallDetected (gridRef ?w) 42 20"
    using assms
    by (simp add: wallDetected_def inGrid_def cellAt_beforeClosure)
       (auto simp: cellAt_scenGrid scenCell_def trailA_def pocketA_def)
  show ?thesis
    using wd by (simp add: closureEvent_def deathEvent_def enemyTouchesTrail_def
        playerHitsTrail_def f n l)
qed

lemma before30_wallCells:
  "wallCells (gridRef (beforeClosure 30 pocketA [])) =
     playArea - ({13 ..< 30} \<times> {1 ..< 47} \<union> {30} \<times> {1 ..< 11} \<union> (set pocketA \<union> set trailA))"
proof (intro set_eqI iffI)
  let ?g = "gridRef (beforeClosure 30 pocketA [])"
  let ?N = "{13 ..< 30} \<times> {1 ..< 47} \<union> {30} \<times> {1 ..< 11} \<union> (set pocketA \<union> set trailA) :: (int \<times> int) set"
  fix p :: "int \<times> int"
  obtain x y where xy: "p = (x, y)" by (cases p)
  {
    assume p: "p \<in> wallCells ?g"
    from p xy have r: "0 \<le> x" "x < 84" "0 \<le> y" "y < 48" by (auto simp: wallCells_def playArea_def)
    from p xy have w: "cellAt ?g (x + y * 84) = Some CELL_WALL" by (simp add: wallCells_def)
    have "cellAt (scenGrid 30 trailA pocketA) (x + y * 84) = Some CELL_WALL"
      using w by (simp add: cellAt_beforeClosure split: if_splits)
    then have "scenCell 30 trailA pocketA x y = CELL_WALL"
      using r by (simp add: cellAt_scenGrid_xy)
    then have "(x, y) \<notin> ?N"
      by (auto simp: scenCell_def split: if_splits)
    then show "p \<in> playArea - ?N" using p xy by (simp add: wallCells_def)
  }
  {
    assume p: "p \<in> playArea - ?N"
    from p xy have r: "0 \<le> x" "x < 84" "0 \<le> y" "y < 48" "13 \<le> x" by (auto simp: playArea_def)
    from p xy have n: "(x, y) \<notin> ?N" by simp
    have t: "(41, 20) \<in> set trailA" "(42, 20) \<in> set trailA" by (simp_all add: trailA_def)
    have i1: "x + y * 84 \<noteq> 1721"
    proof
      assume "x + y * 84 = 1721"
      then have "x = 41 \<and> y = 20" using idx_unique [of x 41 y 20] r by simp
      with n t show False by simp
    qed
    have i2: "x + y * 84 \<noteq> 1722"
    proof
      assume "x + y * 84 = 1722"
      then have "x = 42 \<and> y = 20" using idx_unique [of x 42 y 20] r by simp
      with n t show False by simp
    qed
    have "scenCell 30 trailA pocketA x y = CELL_WALL"
      using n r p xy by (auto simp: scenCell_def playArea_def)
    then have "cellAt ?g (x + y * 84) = Some CELL_WALL"
      using r i1 i2 by (simp add: cellAt_beforeClosure cellAt_scenGrid_xy)
    then show "p \<in> wallCells ?g" using p xy by (simp add: wallCells_def)
  }
qed

lemma before30_percentage:
  "calculatePercentage (gridRef (beforeClosure 30 pocketA [])) = 74"
proof -
  let ?A = "{13 ..< 30} \<times> {1 ..< 47} :: (int \<times> int) set"
  let ?B = "{30} \<times> {1 ..< 11} :: (int \<times> int) set"
  let ?C = "set pocketA \<union> set trailA"
  let ?N = "?A \<union> ?B \<union> ?C"
  have cC: "card ?C = 15" by (simp add: pocketA_def trailA_def)
  have cAB: "card (?A \<union> ?B) = card ?A + card ?B"
    by (intro card_Un_disjoint) auto
  have "card ?N = card (?A \<union> ?B) + card ?C"
    by (intro card_Un_disjoint) (auto simp: pocketA_def trailA_def)
  then have cN: "card ?N = 807" by (simp add: cAB cC)
  have "?N \<subseteq> playArea" by (auto simp: playArea_def pocketA_def trailA_def)
  then have "card (playArea - ?N) = card playArea - card ?N"
    by (intro card_Diff_subset) (auto intro: finite_subset)
  then have c: "card (playArea - ?N) = 2413" by (simp add: card_playArea cN)
  show ?thesis
    by (simp add: calculatePercentage_div capturedCount_card before30_wallCells c)
qed

lemma before30_below:
  "calculatePercentage (gridRef (beforeClosure 30 pocketA [])) < WIN_PERCENTAGE"
  by (simp add: before30_percentage)

text \<open>
  The claim as stated fails on a winning closure. Before the tick the captured
  percentage is below the threshold; the tick is a closure and its commit reaches the
  threshold; at the end of the tick the mode is still onStage.
\<close>

theorem winning_closure_counterexample:
  "closureEvent (beforeClosure 30 pocketA [])
   \<and> calculatePercentage (gridRef (beforeClosure 30 pocketA [])) < WIN_PERCENTAGE
   \<and> WIN_PERCENTAGE \<le> calculatePercentage (gridRef (gameLoop noKeys exampleDraw (beforeClosure 30 pocketA [])))
   \<and> status (gameState (gameLoop noKeys exampleDraw (beforeClosure 30 pocketA []))) = levelAnnounce
   \<and> playerState (gameLoop noKeys exampleDraw (beforeClosure 30 pocketA [])) = onStage"
proof -
  have ps: "playerState (scenWorld 30 pocketA []) = onStage" by (simp add: scenWorld_def)
  show ?thesis
    using closureEvent_before [of 30] before30_below tie30_wins
      capture_mode [of "scenWorld 30 pocketA []" "exampleDraw 0" exampleDraw]
    by (simp add: gameLoop_beforeClosure ps)
qed

theorem closure_mode_witness:
  "playerState (gameLoop noKeys exampleDraw (beforeClosure 35 pocketA [])) = onWall
   \<and> status (gameState (gameLoop noKeys exampleDraw (beforeClosure 35 pocketA []))) = playing
   \<and> status (gameState (gameLoop noKeys exampleDraw (beforeClosure 30 pocketA []))) = levelAnnounce
   \<and> playerState (advanceLevelTimeout (exampleDraw 0) exampleDraw
        (gameLoop noKeys exampleDraw (beforeClosure 30 pocketA []))) = onWall"
proof -
  note a = closure_mode [OF closureEvent_before [of 35], of noKeys exampleDraw "exampleDraw 0" exampleDraw]
  note b = closure_mode [OF closureEvent_before [of 30], of noKeys exampleDraw "exampleDraw 0" exampleDraw]
  have p35: "calculatePercentage (gridRef (gameLoop noKeys exampleDraw (beforeClosure 35 pocketA []))) < WIN_PERCENTAGE"
    using tie35_continues by (simp add: gameLoop_beforeClosure35)
  have p30: "WIN_PERCENTAGE \<le> calculatePercentage (gridRef (gameLoop noKeys exampleDraw (beforeClosure 30 pocketA [])))"
    using tie30_wins by (simp add: gameLoop_beforeClosure)
  from a p35 b p30 show ?thesis by simp
qed

subsection \<open>Walls are kept\<close>

lemma validGrid_cells:
  "validGrid g \<longleftrightarrow>
     length g = 4032 \<and>
     (\<forall>i v. cellAt g i = Some v \<longrightarrow> v = CELL_EMPTY \<or> v = CELL_WALL \<or> v = CELL_TRAIL)"
proof
  assume "validGrid g"
  then show "length g = 4032 \<and>
     (\<forall>i v. cellAt g i = Some v \<longrightarrow> v = CELL_EMPTY \<or> v = CELL_WALL \<or> v = CELL_TRAIL)"
    using validGrid_cell [of g] by (auto simp: validGrid_def)
next
  assume a: "length g = 4032 \<and>
     (\<forall>i v. cellAt g i = Some v \<longrightarrow> v = CELL_EMPTY \<or> v = CELL_WALL \<or> v = CELL_TRAIL)"
  have "v = CELL_EMPTY \<or> v = CELL_WALL \<or> v = CELL_TRAIL" if "v \<in> set g" for v
  proof -
    from that obtain n where n: "n < length g" "g ! n = v" by (auto simp: in_set_conv_nth)
    then have "cellAt g (int n) = Some v" by (simp add: cellAt_def)
    with a show ?thesis by blast
  qed
  with a show "validGrid g" by (auto simp: validGrid_def)
qed

lemma validGrid_setCell:
  assumes "validGrid g" "v = CELL_EMPTY \<or> v = CELL_WALL \<or> v = CELL_TRAIL"
  shows "validGrid (setCell g i v)"
  using assms unfolding validGrid_cells by (auto simp: cellAt_setCell split: if_splits)

lemma wallCells_setCell:
  assumes "cellAt g i \<noteq> Some CELL_WALL" "v \<noteq> CELL_WALL"
  shows "wallCells (setCell g i v) = wallCells g"
  using assms by (auto simp: wallCells_def cellAt_setCell split: if_splits)

lemma wall_setCell_trail:
  "cellAt (setCell g i CELL_TRAIL) j = Some CELL_WALL \<Longrightarrow> cellAt g j = Some CELL_WALL"
  by (auto simp: cellAt_setCell split: if_splits)

lemma wallDetected_setCell_trail:
  "wallDetected (setCell g i CELL_TRAIL) x y \<Longrightarrow> wallDetected g x y"
  unfolding wallDetected_iff using wall_setCell_trail by blast

lemma not_wallDetected_cell:
  assumes "\<not> wallDetected g x y" "\<bar>nx - x\<bar> \<le> 1" "\<bar>ny - y\<bar> \<le> 1" "inGrid nx ny"
  shows "cellAt g (nx + ny * GRID_WIDTH) \<noteq> Some CELL_WALL"
proof -
  have "nx = x - 1 \<or> nx = x \<or> nx = x + 1" "ny = y - 1 \<or> ny = y \<or> ny = y + 1"
    using assms(2,3) by linarith+
  then have "(nx, ny) \<in> aroundCells x y"
    unfolding aroundCells_def by blast
  with assms(1,4) show ?thesis unfolding wallDetected_iff by blast
qed

lemma capture_keeps_walls:
  assumes "validGrid (gridRef w)" "cellAt (gridRef w) i = Some CELL_WALL"
  shows "cellAt (gridRef (capture w)) i = Some CELL_WALL"
proof -
  have "cellAt (snd (firstFill w)) i = Some CELL_WALL"
    unfolding firstFill_def using assms(2) by (simp add: floodFill_keeps)
  then have "cellAt (snd (secondFill w)) i = Some CELL_WALL"
    unfolding secondFill_def by (simp add: floodFill_keeps)
  then show ?thesis
    using assms(2)
    by (simp add: capture_cell [OF assms(1)] commitValue_def fillThisValue_def
          doNotFillThisValue_def)
qed

lemma capture_wallCells:
  assumes "validGrid (gridRef w)"
  shows "wallCells (gridRef w) \<subseteq> wallCells (gridRef (capture w))"
  using capture_keeps_walls [OF assms] by (auto simp: wallCells_def)

lemma capture_validGrid:
  assumes "validGrid (gridRef w)"
  shows "validGrid (gridRef (capture w))"
proof -
  have l: "length (gridRef (capture w)) = 4032"
    using assms by (simp add: capture_gridRef validGrid_def)
  have "v = CELL_EMPTY \<or> v = CELL_WALL \<or> v = CELL_TRAIL"
    if "cellAt (gridRef (capture w)) i = Some v" for i v
    using that validGrid_cell [OF assms, of i v]
    by (auto simp: capture_cell [OF assms] commitValue_def split: if_splits)
  with l show ?thesis unfolding validGrid_cells by blast
qed

lemma capture_speed [simp]: "playerSpeed (capture w) = playerSpeed w"
  by (simp add: capture_def Let_def advanceLevel_def split: prod.splits)

lemma speed_processInput:
  assumes "\<bar>pos_x (playerSpeed w)\<bar> \<le> 1" "\<bar>pos_y (playerSpeed w)\<bar> \<le> 1"
  shows "\<bar>pos_x (playerSpeed (processInput keys w))\<bar> \<le> 1 \<and>
         \<bar>pos_y (playerSpeed (processInput keys w))\<bar> \<le> 1"
  using assms by (simp add: processInput_def Let_def)

lemma speed_wallHitDetection:
  assumes "\<bar>pos_x (playerSpeed w)\<bar> \<le> 1" "\<bar>pos_y (playerSpeed w)\<bar> \<le> 1"
  shows "\<bar>pos_x (playerSpeed (wallHitDetection w))\<bar> \<le> 1 \<and>
         \<bar>pos_y (playerSpeed (wallHitDetection w))\<bar> \<le> 1"
  using assms by (simp add: wallHitDetection_def Let_def)

lemma movePlayer_inBand: "inBand (playerPos (movePlayer w))"
  by (simp add: movePlayer_def inBand_def)

lemma movePlayer_near:
  assumes "inBand (playerPos w)" "\<bar>pos_x (playerSpeed w)\<bar> \<le> 1" "\<bar>pos_y (playerSpeed w)\<bar> \<le> 1"
  shows "\<bar>pos_x (playerPos (movePlayer w)) - pos_x (playerPos w)\<bar> \<le> 1"
    and "\<bar>pos_y (playerPos (movePlayer w)) - pos_y (playerPos w)\<bar> \<le> 1"
    and "\<bar>(pos_x (playerPos (movePlayer w)) - pos_x (playerSpeed w)) - pos_x (playerPos w)\<bar> \<le> 1"
    and "\<bar>(pos_y (playerPos (movePlayer w)) - pos_y (playerSpeed w)) - pos_y (playerPos w)\<bar> \<le> 1"
  using assms by (auto simp: movePlayer_def inBand_def)

lemma inBand_inGrid: "inBand pos \<Longrightarrow> inGrid (pos_x pos) (pos_y pos)"
  by (simp add: inBand_def inGrid_def)

lemma markPrev_cases:
  "markPrev g pos sp = g \<or>
   (inGrid (pos_x pos - pos_x sp) (pos_y pos - pos_y sp) \<and>
    markPrev g pos sp =
      setCell g ((pos_x pos - pos_x sp) + (pos_y pos - pos_y sp) * GRID_WIDTH) CELL_TRAIL)"
  by (simp add: markPrev_def Let_def)

lemma markPrev_keeps:
  assumes "validGrid g"
    and "inGrid (pos_x pos - pos_x sp) (pos_y pos - pos_y sp) \<longrightarrow>
         cellAt g ((pos_x pos - pos_x sp) + (pos_y pos - pos_y sp) * GRID_WIDTH) \<noteq> Some CELL_WALL"
  shows "validGrid (markPrev g pos sp)"
    and "wallCells (markPrev g pos sp) = wallCells g"
    and "wallDetected (markPrev g pos sp) x y \<longrightarrow> wallDetected g x y"
  using assms markPrev_cases [of g pos sp]
  by (auto simp: validGrid_setCell wallCells_setCell dest: wallDetected_setCell_trail)

lemma stateTransitions_step:
  assumes pl: "status (gameState w) = playing"
    and v: "validGrid (gridRef w)"
    and sp: "\<bar>pos_x (playerSpeed w)\<bar> \<le> 1" "\<bar>pos_y (playerSpeed w)\<bar> \<le> 1"
    and band: "inBand (playerPos w)"
    and cur: "playerState w = onStage \<longrightarrow>
         cellAt (gridRef w) (pos_x (playerPos w) + pos_y (playerPos w) * GRID_WIDTH) \<noteq> Some CELL_WALL"
    and prev: "playerState w = onStage \<longrightarrow>
         inGrid (pos_x (playerPos w) - pos_x (playerSpeed w)) (pos_y (playerPos w) - pos_y (playerSpeed w)) \<longrightarrow>
         cellAt (gridRef w) ((pos_x (playerPos w) - pos_x (playerSpeed w)) +
               (pos_y (playerPos w) - pos_y (playerSpeed w)) * GRID_WIDTH) \<noteq> Some CELL_WALL"
  shows "wallCells (gridRef w) \<subseteq> wallCells (gridRef (stateTransitions w))"
    and "status (gameState (stateTransitions w)) = playing \<longrightarrow> wellFormed (stateTransitions w)"
proof -
  let ?x = "pos_x (playerPos w)" and ?y = "pos_y (playerPos w)"
  let ?px = "pos_x (playerPos w) - pos_x (playerSpeed w)"
  let ?py = "pos_y (playerPos w) - pos_y (playerSpeed w)"
  let ?g = "gridRef w"
  let ?det = "wallDetected ?g ?x ?y"
  have both: "wallCells ?g \<subseteq> wallCells (gridRef (stateTransitions w)) \<and>
      (status (gameState (stateTransitions w)) = playing \<longrightarrow> wellFormed (stateTransitions w))"
  proof (cases "playerState w")
    case onStage
    let ?g1 = "setCell ?g (?x + ?y * GRID_WIDTH) CELL_TRAIL"
    let ?g2 = "markPrev ?g1 (playerPos w) (playerSpeed w)"
    have v1: "validGrid ?g1" using v by (simp add: validGrid_setCell)
    have w1: "wallCells ?g1 = wallCells ?g" using cur onStage by (simp add: wallCells_setCell)
    have p1: "inGrid ?px ?py \<longrightarrow> cellAt ?g1 (?px + ?py * GRID_WIDTH) \<noteq> Some CELL_WALL"
      using prev onStage by (auto simp: cellAt_setCell)
    note m = markPrev_keeps [OF v1 p1]
    have w2: "wallCells ?g2 = wallCells ?g" using m(2) w1 by simp
    have d2: "wallDetected ?g2 x y \<longrightarrow> wallDetected ?g x y" for x y
      using m(3) [of x y] wallDetected_setCell_trail [of ?g "?x + ?y * GRID_WIDTH" x y] by blast
    let ?w1 = "w\<lparr>gridRef := ?g2\<rparr>"
    show ?thesis
    proof (cases ?det)
      case True
      have st: "stateTransitions w = capture ?w1"
        using onStage True by (simp add: stateTransitions_def Let_def)
      have vw: "validGrid (gridRef ?w1)" using m(1) by simp
      have a: "wallCells ?g \<subseteq> wallCells (gridRef (capture ?w1))"
        using capture_wallCells [OF vw] w2 by simp
      have b: "wellFormed (capture ?w1)" if "status (gameState (capture ?w1)) = playing"
      proof -
        have "playerState (capture ?w1) = onWall"
          using capture_mode [of ?w1 "exampleDraw 0" exampleDraw] that
          by (cases "calculatePercentage (gridRef (capture ?w1)) < WIN_PERCENTAGE") auto
        then show ?thesis
          using capture_validGrid [OF vw] sp by (simp add: wellFormed_def)
      qed
      from a b show ?thesis unfolding st by blast
    next
      case False
      have st: "stateTransitions w = ?w1"
        using onStage False by (simp add: stateTransitions_def Let_def)
      have "wellFormed ?w1"
        using m(1) sp band False d2 [of ?x ?y] onStage by (auto simp: wellFormed_def)
      then show ?thesis unfolding st using w2 by simp
    qed
  next
    case onWall
    show ?thesis
    proof (cases "\<not> ?det \<and> (pos_x (playerSpeed w) \<noteq> 0 \<or> pos_y (playerSpeed w) \<noteq> 0)")
      case True
      let ?g2 = "markPrev ?g (playerPos w) (playerSpeed w)"
      have st: "stateTransitions w = w\<lparr>gridRef := ?g2, playerState := onStage\<rparr>"
        using onWall True by (simp add: stateTransitions_def Let_def)
      have p1: "inGrid ?px ?py \<longrightarrow> cellAt ?g (?px + ?py * GRID_WIDTH) \<noteq> Some CELL_WALL"
      proof
        assume "inGrid ?px ?py"
        moreover have "\<bar>?px - ?x\<bar> \<le> 1" "\<bar>?py - ?y\<bar> \<le> 1" using sp by auto
        ultimately show "cellAt ?g (?px + ?py * GRID_WIDTH) \<noteq> Some CELL_WALL"
          using True by (intro not_wallDetected_cell [of ?g ?x ?y]) auto
      qed
      note m = markPrev_keeps [OF v p1]
      have "wellFormed (w\<lparr>gridRef := ?g2, playerState := onStage\<rparr>)"
        using m(1) m(3) [of ?x ?y] sp band True by (auto simp: wellFormed_def)
      then show ?thesis unfolding st using m(2) by simp
    next
      case False
      then have st: "stateTransitions w = w"
        using onWall by (auto simp: stateTransitions_def Let_def)
      show ?thesis unfolding st using v sp onWall by (simp add: wellFormed_def)
    qed
  qed
  from both show "wallCells (gridRef w) \<subseteq> wallCells (gridRef (stateTransitions w))"
    and "status (gameState (stateTransitions w)) = playing \<longrightarrow> wellFormed (stateTransitions w)"
    by blast+
qed

lemma wallCells_eq_percentage:
  "wallCells g = wallCells g' \<Longrightarrow> calculatePercentage g = calculatePercentage g'"
  by (simp add: calculatePercentage_div capturedCount_card)

lemma capture_percentage:
  "percentage (gameState (capture w)) = calculatePercentage (gridRef (capture w))"
  by (simp add: capture_def Let_def advanceLevel_def split: prod.splits)


lemma stateTransitions_percentage:
  assumes v: "validGrid (gridRef w)"
    and sp: "\<bar>pos_x (playerSpeed w)\<bar> \<le> 1" "\<bar>pos_y (playerSpeed w)\<bar> \<le> 1"
    and cur: "playerState w = onStage \<longrightarrow>
         cellAt (gridRef w) (pos_x (playerPos w) + pos_y (playerPos w) * GRID_WIDTH) \<noteq> Some CELL_WALL"
    and prev: "playerState w = onStage \<longrightarrow>
         inGrid (pos_x (playerPos w) - pos_x (playerSpeed w)) (pos_y (playerPos w) - pos_y (playerSpeed w)) \<longrightarrow>
         cellAt (gridRef w) ((pos_x (playerPos w) - pos_x (playerSpeed w)) +
               (pos_y (playerPos w) - pos_y (playerSpeed w)) * GRID_WIDTH) \<noteq> Some CELL_WALL"
    and sync: "percentage (gameState w) = calculatePercentage (gridRef w)"
  shows "percentage (gameState (stateTransitions w)) =
           calculatePercentage (gridRef (stateTransitions w))"
proof -
  let ?x = "pos_x (playerPos w)" and ?y = "pos_y (playerPos w)"
  let ?px = "pos_x (playerPos w) - pos_x (playerSpeed w)"
  let ?py = "pos_y (playerPos w) - pos_y (playerSpeed w)"
  let ?g = "gridRef w"
  let ?det = "wallDetected ?g ?x ?y"
  show ?thesis
  proof (cases "playerState w")
    case onStage
    let ?g1 = "setCell ?g (?x + ?y * GRID_WIDTH) CELL_TRAIL"
    let ?g2 = "markPrev ?g1 (playerPos w) (playerSpeed w)"
    have v1: "validGrid ?g1" using v by (simp add: validGrid_setCell)
    have w1: "wallCells ?g1 = wallCells ?g" using cur onStage by (simp add: wallCells_setCell)
    have p1: "inGrid ?px ?py \<longrightarrow> cellAt ?g1 (?px + ?py * GRID_WIDTH) \<noteq> Some CELL_WALL"
      using prev onStage by (auto simp: cellAt_setCell)
    have w2: "wallCells ?g2 = wallCells ?g" using markPrev_keeps(2) [OF v1 p1] w1 by simp
    show ?thesis
    proof (cases ?det)
      case True
      have "stateTransitions w = capture (w\<lparr>gridRef := ?g2\<rparr>)"
        using onStage True by (simp add: stateTransitions_def Let_def)
      then show ?thesis by (simp only: capture_percentage)
    next
      case False
      have "stateTransitions w = w\<lparr>gridRef := ?g2\<rparr>"
        using onStage False by (simp add: stateTransitions_def Let_def)
      then show ?thesis using sync wallCells_eq_percentage [OF w2] by simp
    qed
  next
    case onWall
    show ?thesis
    proof (cases "\<not> ?det \<and> (pos_x (playerSpeed w) \<noteq> 0 \<or> pos_y (playerSpeed w) \<noteq> 0)")
      case True
      let ?g2 = "markPrev ?g (playerPos w) (playerSpeed w)"
      have st: "stateTransitions w = w\<lparr>gridRef := ?g2, playerState := onStage\<rparr>"
        using onWall True by (simp add: stateTransitions_def Let_def)
      have p1: "inGrid ?px ?py \<longrightarrow> cellAt ?g (?px + ?py * GRID_WIDTH) \<noteq> Some CELL_WALL"
      proof
        assume "inGrid ?px ?py"
        moreover have "\<bar>?px - ?x\<bar> \<le> 1" "\<bar>?py - ?y\<bar> \<le> 1" using sp by auto
        ultimately show "cellAt ?g (?px + ?py * GRID_WIDTH) \<noteq> Some CELL_WALL"
          using True by (intro not_wallDetected_cell [of ?g ?x ?y]) auto
      qed
      have "wallCells ?g2 = wallCells ?g" using markPrev_keeps(2) [OF v p1] .
      then show ?thesis unfolding st using sync wallCells_eq_percentage [of ?g2 ?g] by simp
    next
      case False
      then have "stateTransitions w = w"
        using onWall by (auto simp: stateTransitions_def Let_def)
      then show ?thesis using sync by simp
    qed
  qed
qed


lemma gameLoop_step:
  assumes inv: "status (gameState w) = playing \<longrightarrow> wellFormed w"
    and nd: "\<not> (status (gameState w) = playing \<and> deathEvent w)"
  shows "wallCells (gridRef w) \<subseteq> wallCells (gridRef (gameLoop keys rnd w))"
    and "status (gameState (gameLoop keys rnd w)) = playing \<longrightarrow> wellFormed (gameLoop keys rnd w)"
    and "percentageInSync w \<longrightarrow> percentageInSync (gameLoop keys rnd w)"
proof -
  have both: "wallCells (gridRef w) \<subseteq> wallCells (gridRef (gameLoop keys rnd w)) \<and>
    (status (gameState (gameLoop keys rnd w)) = playing \<longrightarrow> wellFormed (gameLoop keys rnd w)) \<and>
    (percentageInSync w \<longrightarrow> percentageInSync (gameLoop keys rnd w))"
  proof (cases "status (gameState w) = playing")
    case False
    then have "gameLoop keys rnd w = w" by (simp add: gameLoop_def)
    with False show ?thesis by simp
  next
    case True
    with inv nd have wf: "wellFormed w" and ndw: "\<not> deathEvent w" by simp_all
    define es where "es = (if (tickCount w + 1) mod 2 = 0
        then map (moveEnemy (gridRef w)) (enemies w) else enemies w)"
    define w1 where "w1 = (processInput keys (w\<lparr>tickCount := tickCount w + 1\<rparr>))\<lparr>enemies := es\<rparr>"
    define w2 where "w2 = wallHitDetection w1"
    define w3 where "w3 = movePlayer w2"
    have g: "gameLoop keys rnd w = stateTransitions w3"
      using gameLoop_no_death [OF True ndw, of keys rnd] by (simp add: w3_def w2_def w1_def es_def)
    have f1: "gridRef w1 = gridRef w" "playerPos w1 = playerPos w" "playerState w1 = playerState w"
      "gameState w1 = gameState w"
      by (simp_all add: w1_def)
    have s1: "\<bar>pos_x (playerSpeed w1)\<bar> \<le> 1 \<and> \<bar>pos_y (playerSpeed w1)\<bar> \<le> 1"
      using wf speed_processInput [of "w\<lparr>tickCount := tickCount w + 1\<rparr>" keys]
      by (simp add: w1_def wellFormed_def)
    have f2: "gridRef w2 = gridRef w" "playerPos w2 = playerPos w" "playerState w2 = playerState w"
      "gameState w2 = gameState w"
      by (simp_all add: w2_def f1)
    have s2: "\<bar>pos_x (playerSpeed w2)\<bar> \<le> 1" "\<bar>pos_y (playerSpeed w2)\<bar> \<le> 1"
      using s1 speed_wallHitDetection [of w1] by (simp_all add: w2_def)
    have f3: "gridRef w3 = gridRef w" "playerState w3 = playerState w" "gameState w3 = gameState w"
      "playerSpeed w3 = playerSpeed w2"
      by (simp_all add: w3_def f2)
    have band: "inBand (playerPos w3)" unfolding w3_def by (rule movePlayer_inBand)
    have near: "cellAt (gridRef w) (nx + ny * GRID_WIDTH) \<noteq> Some CELL_WALL"
      if "playerState w = onStage" "\<bar>nx - pos_x (playerPos w)\<bar> \<le> 1"
        "\<bar>ny - pos_y (playerPos w)\<bar> \<le> 1" "inGrid nx ny" for nx ny
      using wf that by (intro not_wallDetected_cell [of _ "pos_x (playerPos w)" "pos_y (playerPos w)"])
        (simp_all add: wellFormed_def)
    have mv: "\<bar>pos_x (playerPos w3) - pos_x (playerPos w)\<bar> \<le> 1"
      "\<bar>pos_y (playerPos w3) - pos_y (playerPos w)\<bar> \<le> 1"
      "\<bar>(pos_x (playerPos w3) - pos_x (playerSpeed w3)) - pos_x (playerPos w)\<bar> \<le> 1"
      "\<bar>(pos_y (playerPos w3) - pos_y (playerSpeed w3)) - pos_y (playerPos w)\<bar> \<le> 1"
      if "playerState w = onStage"
    proof -
      from wf that have "inBand (playerPos w2)" by (simp add: wellFormed_def f2)
      from movePlayer_near [OF this s2] show
        "\<bar>pos_x (playerPos w3) - pos_x (playerPos w)\<bar> \<le> 1"
        "\<bar>pos_y (playerPos w3) - pos_y (playerPos w)\<bar> \<le> 1"
        "\<bar>(pos_x (playerPos w3) - pos_x (playerSpeed w3)) - pos_x (playerPos w)\<bar> \<le> 1"
        "\<bar>(pos_y (playerPos w3) - pos_y (playerSpeed w3)) - pos_y (playerPos w)\<bar> \<le> 1"
        by (simp_all add: w3_def f2)
    qed
    have cur: "playerState w3 = onStage \<longrightarrow>
         cellAt (gridRef w3) (pos_x (playerPos w3) + pos_y (playerPos w3) * GRID_WIDTH) \<noteq> Some CELL_WALL"
    proof (intro impI)
      assume st: "playerState w3 = onStage"
      then have o: "playerState w = onStage" by (simp add: f3)
      from near [OF o mv(1) [OF o] mv(2) [OF o] inBand_inGrid [OF band]]
      show "cellAt (gridRef w3) (pos_x (playerPos w3) + pos_y (playerPos w3) * GRID_WIDTH)
              \<noteq> Some CELL_WALL"
        unfolding f3(1) .
    qed
    have prev: "playerState w3 = onStage \<longrightarrow>
         inGrid (pos_x (playerPos w3) - pos_x (playerSpeed w3)) (pos_y (playerPos w3) - pos_y (playerSpeed w3)) \<longrightarrow>
         cellAt (gridRef w3) ((pos_x (playerPos w3) - pos_x (playerSpeed w3)) +
               (pos_y (playerPos w3) - pos_y (playerSpeed w3)) * GRID_WIDTH) \<noteq> Some CELL_WALL"
    proof (intro impI)
      assume st: "playerState w3 = onStage"
        and ig: "inGrid (pos_x (playerPos w3) - pos_x (playerSpeed w3))
                        (pos_y (playerPos w3) - pos_y (playerSpeed w3))"
      from st have o: "playerState w = onStage" by (simp add: f3)
      from near [OF o mv(3) [OF o] mv(4) [OF o] ig]
      show "cellAt (gridRef w3) ((pos_x (playerPos w3) - pos_x (playerSpeed w3)) +
               (pos_y (playerPos w3) - pos_y (playerSpeed w3)) * GRID_WIDTH) \<noteq> Some CELL_WALL"
        unfolding f3(1) .
    qed
    have pl3: "status (gameState w3) = playing" using True by (simp add: f3)
    have v3: "validGrid (gridRef w3)" using wf by (simp add: f3 wellFormed_def)
    have sp3: "\<bar>pos_x (playerSpeed w3)\<bar> \<le> 1" "\<bar>pos_y (playerSpeed w3)\<bar> \<le> 1"
      using s2 by (simp_all add: f3)
    from stateTransitions_step [OF pl3 v3 sp3 band cur prev]
      stateTransitions_percentage [OF v3 sp3 cur prev]
    show ?thesis unfolding g by (simp add: f3 percentageInSync_def)
  qed
  from both show "wallCells (gridRef w) \<subseteq> wallCells (gridRef (gameLoop keys rnd w))"
    and "status (gameState (gameLoop keys rnd w)) = playing \<longrightarrow> wellFormed (gameLoop keys rnd w)"
    and "percentageInSync w \<longrightarrow> percentageInSync (gameLoop keys rnd w)"
    by blast+
qed

lemma ticks_append: "ticks (ks @ [keys]) rnd w = gameLoop keys rnd (ticks ks rnd w)"
  by (induction ks arbitrary: w) simp_all

lemma noDeathRun_append:
  "noDeathRun (ks @ [keys]) rnd w \<longleftrightarrow>
     noDeathRun ks rnd w \<and>
     \<not> (status (gameState (ticks ks rnd w)) = playing \<and> deathEvent (ticks ks rnd w))"
  by (induction ks arbitrary: w) auto

lemma run_wellFormed:
  assumes "status (gameState w) = playing \<longrightarrow> wellFormed w" "noDeathRun ks rnd w"
  shows "status (gameState (ticks ks rnd w)) = playing \<longrightarrow> wellFormed (ticks ks rnd w)"
  using assms
proof (induction ks arbitrary: w)
  case Nil
  then show ?case by simp
next
  case (Cons keys ks)
  from Cons.prems have nd: "\<not> (status (gameState w) = playing \<and> deathEvent w)"
    and rest: "noDeathRun ks rnd (gameLoop keys rnd w)" by simp_all
  have "status (gameState (gameLoop keys rnd w)) = playing \<longrightarrow> wellFormed (gameLoop keys rnd w)"
    using gameLoop_step(2) [OF Cons.prems(1) nd] .
  from Cons.IH [OF this rest] show ?case by simp
qed

lemma wallCells_percentage:
  assumes "wallCells g \<subseteq> wallCells g'"
  shows "calculatePercentage g \<le> calculatePercentage g'"
proof -
  have "finite (wallCells g')"
    by (rule finite_subset [of _ playArea]) (auto simp: wallCells_def playArea_def)
  then have "card (wallCells g) \<le> card (wallCells g')" using assms by (intro card_mono)
  then have "100 * capturedCount g \<le> 100 * capturedCount g'" by (simp add: capturedCount_card)
  then have "(100 * capturedCount g) div 3220 \<le> (100 * capturedCount g') div 3220"
    by (intro zdiv_mono1) simp_all
  then show ?thesis by (simp add: calculatePercentage_div)
qed

text \<open>
  Claim C4. Take a run of ticks from a well-formed state (every level start is one) in
  which no tick of a playing state has a death event. Then from each state of the run to
  the next no WALL cell of the play area is lost, and the percentage derived from the
  grid does not decrease; this includes the ticks that lay trail and the capture commit
  that releases the losing side to EMPTY.
\<close>

theorem percentage_monotone:
  assumes "wellFormed w" and "noDeathRun (ks @ [keys]) rnd w"
  shows "wallCells (gridRef (ticks ks rnd w)) \<subseteq> wallCells (gridRef (ticks (ks @ [keys]) rnd w))
       \<and> calculatePercentage (gridRef (ticks ks rnd w))
           \<le> calculatePercentage (gridRef (ticks (ks @ [keys]) rnd w))"
proof -
  from assms(2) have r: "noDeathRun ks rnd w"
    and nd: "\<not> (status (gameState (ticks ks rnd w)) = playing \<and> deathEvent (ticks ks rnd w))"
    by (simp_all add: noDeathRun_append)
  have inv: "status (gameState (ticks ks rnd w)) = playing \<longrightarrow> wellFormed (ticks ks rnd w)"
    using assms(1) r by (intro run_wellFormed) simp_all
  have "wallCells (gridRef (ticks ks rnd w)) \<subseteq> wallCells (gridRef (gameLoop keys rnd (ticks ks rnd w)))"
    using gameLoop_step(1) [OF inv nd] .
  then show ?thesis by (simp add: ticks_append wallCells_percentage)
qed

lemma cellAt_createInitialGrid_idx:
  assumes "0 \<le> i" "i < 4032"
  shows "cellAt createInitialGrid i =
           Some (if onBorder (i mod 84) (i div 84) then CELL_WALL else CELL_EMPTY)"
proof -
  have "inGrid (i mod 84) (i div 84)" using assms by (auto simp: inGrid_def)
  from cellAt_createInitialGrid [OF this] show ?thesis by simp
qed

lemma validGrid_createInitialGrid: "validGrid createInitialGrid"
  unfolding validGrid_cells
proof (intro conjI allI impI)
  show "length createInitialGrid = 4032" by simp
next
  fix i v assume a: "cellAt createInitialGrid i = Some v"
  then have "0 \<le> i" "i < 4032" using cellAt_Some_range [of createInitialGrid i v] by simp_all
  with a show "v = CELL_EMPTY \<or> v = CELL_WALL \<or> v = CELL_TRAIL"
    by (auto simp: cellAt_createInitialGrid_idx split: if_splits)
qed

lemma wellFormed_initialWorld: "wellFormed initialWorld"
  by (simp add: wellFormed_def initialWorld_def validGrid_createInitialGrid)

lemma gameLoop_initialWorld:
  "gameLoop noKeys rnd initialWorld = initialWorld\<lparr>tickCount := 1\<rparr>"
proof -
  have c: "cellAt createInitialGrid 3996 = Some CELL_WALL"
    "cellAt createInitialGrid 3912 = Some CELL_EMPTY"
    by (simp_all add: cellAt_createInitialGrid_idx onBorder_def)
  have adj: "isAdjacentToVoid 48 47 createInitialGrid"
    by (simp add: isAdjacentToVoid_def inGrid_def c)
  have wd: "wallDetected createInitialGrid 48 47"
    by (simp add: wallDetected_def inGrid_def c)
  show ?thesis
    by (simp add: gameLoop_def initialWorld_def processInput_def noKeys_def enemyPhase_def
          wallHitDetection_def playerNextCell_def movePlayer_def stateTransitions_def Let_def
          c adj wd)
qed

lemma wellFormed_beforeClosure: "wellFormed (beforeClosure 30 pocketA [])"
proof -
  let ?w = "beforeClosure 30 pocketA []"
  have v: "validGrid (gridRef ?w)"
    by (simp add: beforeClosure_def validGrid_setCell validGrid_scenGrid)
  have n: "\<not> wallDetected (gridRef ?w) 41 20"
    by (simp add: wallDetected_def inGrid_def cellAt_beforeClosure)
       (simp add: cellAt_scenGrid scenCell_def trailA_def pocketA_def)
  show ?thesis
    using v n by (simp add: wellFormed_def inBand_def) (simp add: beforeClosure_def scenWorld_def)
qed

theorem percentage_monotone_witness:
  "calculatePercentage (gridRef (ticks [noKeys] exampleDraw initialWorld))
     \<le> calculatePercentage (gridRef (ticks ([noKeys] @ [upKey]) exampleDraw initialWorld))
   \<and> calculatePercentage (gridRef (beforeClosure 30 pocketA []))
     \<le> calculatePercentage (gridRef (gameLoop noKeys exampleDraw (beforeClosure 30 pocketA [])))
   \<and> wallCells (gridRef (beforeClosure 30 pocketA []))
     \<subseteq> wallCells (gridRef (gameLoop noKeys exampleDraw (beforeClosure 30 pocketA [])))"
proof -
  have d0: "\<not> deathEvent initialWorld"
    by (simp add: deathEvent_def enemyTouchesTrail_def playerHitsTrail_def initialWorld_def)
  have "cellAt createInitialGrid (45 + 20 * 84) = Some CELL_EMPTY"
    by (simp add: cellAt_createInitialGrid_idx onBorder_def)
  then have d1: "\<not> deathEvent (initialWorld\<lparr>tickCount := 1\<rparr>)"
    by (simp add: deathEvent_def enemyTouchesTrail_def playerHitsTrail_def initialWorld_def
          enemyOnTrail_def exampleEnemy_def)
  have r1: "noDeathRun ([noKeys] @ [upKey]) exampleDraw initialWorld"
    using d0 d1 by (simp add: gameLoop_initialWorld)
  have d2: "\<not> deathEvent (beforeClosure 30 pocketA [])"
    using closureEvent_before [of 30] by (simp add: closureEvent_def)
  then have r2: "noDeathRun ([] @ [noKeys]) exampleDraw (beforeClosure 30 pocketA [])" by simp
  from percentage_monotone [OF wellFormed_initialWorld r1]
       percentage_monotone [OF wellFormed_beforeClosure r2]
  show ?thesis by simp
qed

subsection \<open>The states of the component\<close>

lemma wellFormed_resets:
  "wellFormed (resetStage rnd w)"
  "wellFormed (advanceLevelTimeout fresh rnd w)"
  "0 \<le> lives (gameState w) - 1 \<Longrightarrow> wellFormed (handlePlayerDeath rnd w)"
  by (simp_all add: wellFormed_def resetStage_def advanceLevelTimeout_def handlePlayerDeath_def
        Let_def validGrid_createInitialGrid)

lemma handlePlayerDeath_wellFormed:
  "status (gameState (handlePlayerDeath rnd w)) = playing \<longrightarrow> wellFormed (handlePlayerDeath rnd w)"
  by (simp add: wellFormed_def handlePlayerDeath_def Let_def validGrid_createInitialGrid)

lemma gameLoop_wellFormed:
  assumes "status (gameState w) = playing \<longrightarrow> wellFormed w"
  shows "status (gameState (gameLoop keys rnd w)) = playing \<longrightarrow> wellFormed (gameLoop keys rnd w)"
proof (cases "status (gameState w) = playing \<and> deathEvent w")
  case False
  then show ?thesis using gameLoop_step(2) [OF assms] by blast
next
  case True
  then have pl: "status (gameState w) = playing" and d: "deathEvent w" by simp_all
  show ?thesis
  proof (cases "enemyTouchesTrail w")
    case True
    show ?thesis
      unfolding gameLoop_enemy_death [OF pl True] by (rule handlePlayerDeath_wellFormed)
  next
    case False
    with d have h: "playerHitsTrail w" by (simp add: deathEvent_def)
    show ?thesis
      unfolding gameLoop_trail_death [OF pl False h, of keys rnd]
      by (rule handlePlayerDeath_wellFormed)
  qed
qed


subsection \<open>Percentage captured\<close>










end
